(* ===== verification/Prelude.thy ===== *)
theory Prelude
  imports Main "HOL-Library.Monad_Syntax"
begin

text \<open>
  Shared vocabulary of the development.

  A call of the modelled code is a value of an option type: \<^term>\<open>None\<close> stands for every way in
  which the C++ code does not come back with a result (a failing \<^verbatim>\<open>CHECK_CONDITION\<close>, a
  \<^verbatim>\<open>Log(kCrash, ...)\<close>, a dereference of a null or dead pointer, an array access out of bounds,
  a loop that does not end).  The predicate \<open>wpo m Q\<close> says that the call \<open>m\<close> does come back, and that
  its result satisfies \<open>Q\<close>: it is total correctness, and its rules, collected in \<open>wpo_simps\<close>,
  push it through the \<open>do\<close> notation.
\<close>

named_theorems tc_consts "the configuration constants of src/common.h"
named_theorems wpo_simps "rules of the total-correctness predicate wpo"

unbundle bit_operations_syntax

section \<open>Machine words kept as natural numbers\<close>

definition w64 :: "nat \<Rightarrow> nat" where
  "w64 x = x mod 2 ^ 64"

definition size_of_int :: "int \<Rightarrow> nat" where
  "size_of_int i = nat (i mod 2 ^ 64)"

definition int32_of :: "int \<Rightarrow> int" where
  "int32_of i = (i + 2 ^ 31) mod 2 ^ 32 - 2 ^ 31"

text \<open>The division of C rounds towards zero.\<close>

definition c_div :: "int \<Rightarrow> int \<Rightarrow> int" where
  "c_div a b = (if (a < 0) = (b < 0) then \<bar>a\<bar> div \<bar>b\<bar> else - (\<bar>a\<bar> div \<bar>b\<bar>))"

lemma c_div_nonneg [simp]: "0 \<le> a \<Longrightarrow> 0 \<le> b \<Longrightarrow> c_div a b = a div b"
  by (simp add: c_div_def)

text \<open>Subtraction of \<^verbatim>\<open>uint64_t\<close> values.\<close>

definition sub64 :: "nat \<Rightarrow> nat \<Rightarrow> nat" where
  "sub64 x y = nat ((int x - int y) mod 2 ^ 64)"

lemma sub64_le [simp]: "y \<le> x \<Longrightarrow> x < 2 ^ 64 \<Longrightarrow> sub64 x y = x - y"
  by (simp add: sub64_def flip: of_nat_diff)

lemma w64_less [simp]: "w64 x < 2 ^ 64"
  by (simp add: w64_def)

lemma w64_small [simp]: "x < 2 ^ 64 \<Longrightarrow> w64 x = x"
  by (simp add: w64_def)

lemma size_of_int_nonneg [simp]: "0 \<le> i \<Longrightarrow> i < 2 ^ 64 \<Longrightarrow> size_of_int i = nat i"
  by (simp add: size_of_int_def)

lemma int32_of_small [simp]: "- (2 ^ 31) \<le> i \<Longrightarrow> i < 2 ^ 31 \<Longrightarrow> int32_of i = i"
  by (simp add: int32_of_def)

section \<open>Total correctness of fallible calls\<close>

definition wpo :: "'a option \<Rightarrow> ('a \<Rightarrow> bool) \<Rightarrow> bool" where
  "wpo m Q = (case m of None \<Rightarrow> False | Some x \<Rightarrow> Q x)"

lemma wpo_iff: "wpo m Q \<longleftrightarrow> (\<exists>x. m = Some x \<and> Q x)"
  by (cases m) (auto simp: wpo_def)

lemma wpo_Some [simp, wpo_simps]: "wpo (Some x) Q = Q x"
  by (simp add: wpo_def)

lemma wpo_None [simp, wpo_simps]: "wpo None Q = False"
  by (simp add: wpo_def)

lemma wpo_bind [simp, wpo_simps]: "wpo (m \<bind> f) Q = wpo m (\<lambda>x. wpo (f x) Q)"
  by (cases m) (simp_all add: wpo_def)

lemma wpo_if [wpo_simps]: "wpo (if b then m else n) Q = (if b then wpo m Q else wpo n Q)"
  by simp

lemma wpo_conseq: "wpo m P \<Longrightarrow> (\<And>x. m = Some x \<Longrightarrow> P x \<Longrightarrow> Q x) \<Longrightarrow> wpo m Q"
  by (cases m) (simp_all add: wpo_def)

lemma wpoI: "m = Some x \<Longrightarrow> Q x \<Longrightarrow> wpo m Q"
  by simp

lemma wpoD: "wpo m Q \<Longrightarrow> m = Some x \<Longrightarrow> Q x"
  by simp

lemma wpoE: "wpo m Q \<Longrightarrow> (\<And>x. m = Some x \<Longrightarrow> Q x \<Longrightarrow> R) \<Longrightarrow> R"
  by (cases m) (simp_all add: wpo_def)

text \<open>
  The same with a switch: \<open>wpf f m Q\<close> allows the call to fail when \<open>f\<close> holds.  A lemma proved for every \<open>f\<close>
  is partial correctness (\<open>f\<close> true) and total correctness (\<open>f\<close> false) at once.
\<close>

definition wpf :: "bool \<Rightarrow> 'a option \<Rightarrow> ('a \<Rightarrow> bool) \<Rightarrow> bool" where
  "wpf f m Q = (case m of None \<Rightarrow> f | Some x \<Rightarrow> Q x)"

lemma wpf_Some [simp, wpo_simps]: "wpf f (Some x) Q = Q x"
  by (simp add: wpf_def)

lemma wpf_None [simp, wpo_simps]: "wpf f None Q = f"
  by (simp add: wpf_def)

lemma wpf_bind [simp, wpo_simps]: "wpf f (m \<bind> g) Q = wpf f m (\<lambda>x. wpf f (g x) Q)"
  by (cases m) (simp_all add: wpf_def)

lemma wpf_conseq: "wpf f m P \<Longrightarrow> (\<And>x. m = Some x \<Longrightarrow> P x \<Longrightarrow> Q x) \<Longrightarrow> wpf f m Q"
  by (cases m) (simp_all add: wpf_def)

lemma wpf_total: "wpf False m Q = wpo m Q"
  by (simp add: wpf_def wpo_def)

lemma wpf_partial: "wpf True m Q \<longleftrightarrow> (\<forall>x. m = Some x \<longrightarrow> Q x)"
  by (cases m) (simp_all add: wpf_def)

lemma wpfD: "wpf f m Q \<Longrightarrow> m = Some x \<Longrightarrow> Q x"
  by simp

lemma wpfI: "(m = None \<Longrightarrow> f) \<Longrightarrow> (\<And>x. m = Some x \<Longrightarrow> Q x) \<Longrightarrow> wpf f m Q"
  by (cases m) simp_all

section \<open>Powers of two and rounding\<close>

lemma power2_and_pred [simp]: "(2 ^ k AND (2 ^ k - Suc 0) :: nat) = 0"
proof -
  have "(2 ^ k - Suc 0 :: nat) = mask k" by (simp add: mask_eq_exp_minus_1)
  then show ?thesis by (simp flip: take_bit_eq_mask add: take_bit_eq_mod)
qed

lemma pow2_lessD: "(2::nat) ^ a < 2 ^ b \<Longrightarrow> a < b"
  by (rule power_less_imp_less_exp [of 2]) simp_all

lemma dvd_less_add_le:
  fixes a x n :: nat
  assumes "a dvd x" "a dvd n" "x < n"
  shows "x + a \<le> n"
proof -
  obtain i j where ij: "x = a * i" "n = a * j" using assms by blast
  with assms(3) have "i < j" by simp
  then have "a * (i + 1) \<le> a * j" by (intro mult_le_mono2) simp
  with ij show ?thesis by simp
qed

lemma strict_chain_less:
  fixes f :: "nat \<Rightarrow> nat"
  assumes "\<And>c. a \<le> c \<Longrightarrow> Suc c < n \<Longrightarrow> f c < f (Suc c)" "a \<le> i" "i < j" "j < n"
  shows "f i < f j"
  using assms(3,4)
proof (induction j)
  case (Suc j)
  have "f j < f (Suc j)" using Suc.prems assms(1,2) by simp
  with Suc show ?case by (cases "i = j") auto
qed simp

text \<open>Rounding up to the next block, as the loops over radix trees do.\<close>

lemma less_next_block: "0 < L \<Longrightarrow> (k::nat) < (k div L + 1) * L"
  using dividend_less_div_times [of L k] by simp

lemma block_bounds: "0 < L \<Longrightarrow> k div L = i \<longleftrightarrow> i * L \<le> k \<and> (k::nat) < (i + 1) * L"
proof
  assume L: "0 < L" and b: "i * L \<le> k \<and> k < (i + 1) * L"
  have "k div L < i + 1" using b by (simp add: less_mult_imp_div_less)
  moreover have "i \<le> k div L" using b L by (simp add: less_eq_div_iff_mult_less_eq)
  ultimately show "k div L = i" by simp
qed (use less_next_block [of L k] in auto)

lemma and_exp_pred: "(k::nat) AND (2 ^ n - 1) = k mod 2 ^ n"
proof -
  have "(2 ^ n - 1 :: nat) = mask n" by (simp add: mask_eq_exp_minus_1)
  then show ?thesis by (simp only: flip: take_bit_eq_mask) (rule take_bit_eq_mod)
qed

lemma and_not_exp_pred: "(k::nat) - (k AND (2 ^ n - 1)) = k div 2 ^ n * 2 ^ n"
  by (simp only: and_exp_pred minus_mod_eq_div_mult)

lemma dvd_and_exp_pred: "(k::nat) AND (2 ^ n - 1) = 0 \<longleftrightarrow> 2 ^ n dvd k"
  by (simp only: and_exp_pred dvd_eq_mod_eq_0)

lemma round_up_props:
  assumes "0 < (a::nat)"
  shows "x \<le> (x + a - 1) div a * a" "a dvd (x + a - 1) div a * a" "(x + a - 1) div a * a < x + a"
proof -
  have "(x + a - 1) div a * a + (x + a - 1) mod a = x + a - 1" by (rule div_mult_mod_eq)
  moreover have "(x + a - 1) mod a < a" using assms by simp
  ultimately show "x \<le> (x + a - 1) div a * a" using assms by linarith
  show "(x + a - 1) div a * a < x + a"
    using div_times_less_eq_dividend [of "x + a - 1" a] assms by linarith
qed simp

lemma div_mod_eqI: "(j::nat) div L = k div L \<Longrightarrow> j mod L = k mod L \<Longrightarrow> j = k"
  by (metis div_mult_mod_eq)

end
