(* ===== verification/SizeMap.thy ===== *)
theory SizeMap
  imports Prelude
begin

unbundle bit_operations_syntax

text \<open>
  Size classes: the configuration constants of \<^verbatim>\<open>src/common.h\<close>, class \<^verbatim>\<open>SizeMap\<close> and the
  functions of \<^verbatim>\<open>src/common.cc\<close> that build its tables.  The configuration is the default 64-bit
  build (\<^verbatim>\<open>kPageShift = 13\<close>, 16-byte minimal alignment, 48 address bits).  The environment is a
  parameter: the value \<^verbatim>\<open>strtol\<close> returns for \<^verbatim>\<open>TCMALLOC_TRANSFER_NUM_OBJ\<close> and the native page size.
  C arrays are functions on indices; a write past the end of an array is \<^term>\<open>None\<close>.

  The lemmas show that \<^verbatim>\<open>SizeMap::Init\<close> maps every size up to \<open>kMaxSize\<close> to the smallest class that
  fits it, that each span of a class holds at least one object and wastes at most one eighth, and that
  none of the sanity checks of \<^verbatim>\<open>Init\<close> on these facts can fire.
\<close>

section \<open>Configuration\<close>

definition kPageShift :: nat where [tc_consts]: "kPageShift = 13"
definition kMinAlign :: nat where [tc_consts]: "kMinAlign = 16"
definition kClassSizesMax :: nat where [tc_consts]: "kClassSizesMax = 128"
definition kMaxThreadCacheSize :: nat where [tc_consts]: "kMaxThreadCacheSize = 4194304"
definition kPageSize :: nat where [tc_consts]: "kPageSize = 2 ^ kPageShift"
definition kMaxSize :: nat where [tc_consts]: "kMaxSize = 256 * 1024"
definition kAlignment :: nat where [tc_consts]: "kAlignment = 8"
definition kMaxPages :: nat where [tc_consts]: "kMaxPages = 2 ^ (20 - kPageShift)"
definition kMaxValidPages :: nat where [tc_consts]: "kMaxValidPages = (2 ^ 64 - 1) div 2 ^ kPageShift"
definition kAddressBits :: nat where [tc_consts]: "kAddressBits = 48"
definition kMaxSmallSize :: nat where [tc_consts]: "kMaxSmallSize = 1024"
definition kClassArraySize :: nat where
  [tc_consts]: "kClassArraySize = (kMaxSize + 127 + 120 * 2 ^ 7) div 2 ^ 7 + 1"
definition kDefaultTransferNumObjecs :: int where [tc_consts]: "kDefaultTransferNumObjecs = 32"

text \<open>\<^verbatim>\<open>pages\<close>: bytes to pages, rounded up.\<close>

definition pages :: "nat \<Rightarrow> nat" where
  "pages bytes = bytes div 2 ^ kPageShift + (if bytes AND (kPageSize - 1) > 0 then 1 else 0)"

section \<open>The tables\<close>

record size_map =
  class_array :: "nat \<Rightarrow> nat"
  num_objects_to_move :: "nat \<Rightarrow> int"
  class_to_size :: "nat \<Rightarrow> nat"
  class_to_pages :: "nat \<Rightarrow> nat"
  min_span_size_in_pages :: nat
  num_size_classes :: nat

text \<open>
  The index functions cast to \<^verbatim>\<open>uint32_t\<close>, which changes nothing on the sizes up to \<open>kMaxSize\<close> they are
  called with (\<^verbatim>\<open>ASSERT(s <= kMaxSize)\<close> in \<^verbatim>\<open>ClassIndex\<close>).
\<close>

definition SmallSizeClass :: "nat \<Rightarrow> nat" where
  "SmallSizeClass s = (s + 7) div 2 ^ 3"

definition LargeSizeClass :: "nat \<Rightarrow> nat" where
  "LargeSizeClass s = (s + 127 + 120 * 2 ^ 7) div 2 ^ 7"

definition ClassIndexMaybe :: "nat \<Rightarrow> nat option" where
  "ClassIndexMaybe s =
     (if s \<le> kMaxSmallSize then Some ((s + 7) div 2 ^ 3)
      else if s \<le> kMaxSize then Some ((s + 127 + 120 * 2 ^ 7) div 2 ^ 7)
      else None)"

definition ClassIndex :: "nat \<Rightarrow> nat" where
  "ClassIndex s = (if s \<le> kMaxSmallSize then SmallSizeClass s else LargeSizeClass s)"

definition SizeClass :: "size_map \<Rightarrow> nat \<Rightarrow> nat" where
  "SizeClass sm s = class_array sm (ClassIndex s)"

definition GetSizeClass :: "size_map \<Rightarrow> nat \<Rightarrow> nat option" where
  "GetSizeClass sm s = (case ClassIndexMaybe s of None \<Rightarrow> None | Some idx \<Rightarrow> Some (class_array sm idx))"

definition ByteSizeForClass :: "size_map \<Rightarrow> nat \<Rightarrow> nat" where
  "ByteSizeForClass sm cl = class_to_size sm cl"

section \<open>Helpers of Init\<close>

text \<open>
  \<^verbatim>\<open>InitTCMallocTransferNumObjects\<close>: the flag keeps a value it already has; otherwise it is the value of the
  environment variable (what \<^verbatim>\<open>strtol\<close> returns, stored in an \<^verbatim>\<open>int32_t\<close>), or the default.
\<close>

definition InitTCMallocTransferNumObjects :: "int \<Rightarrow> int option \<Rightarrow> int" where
  "InitTCMallocTransferNumObjects flag envval =
     (if flag = 0 then (case envval of None \<Rightarrow> kDefaultTransferNumObjecs | Some v \<Rightarrow> int32_of v) else flag)"

definition LgFloor_step :: "nat \<times> nat \<Rightarrow> nat \<Rightarrow> nat \<times> nat" where
  "LgFloor_step st i = (case st of (n, lg) \<Rightarrow>
     let shift = 2 ^ i; x = n div 2 ^ shift
     in if x \<noteq> 0 then (x, lg + shift) else (n, lg))"

definition LgFloor :: "nat \<Rightarrow> nat" where
  "LgFloor n = snd (foldl LgFloor_step (n, 0) [4, 3, 2, 1, 0])"

definition AlignmentForSize :: "nat \<Rightarrow> nat option" where
  "AlignmentForSize sz =
     (let alignment =
            (if sz > kMaxSize then kPageSize
             else if sz \<ge> 128 then 2 ^ LgFloor sz div 8
             else if sz \<ge> kMinAlign then kMinAlign
             else kAlignment);
          alignment = (if alignment > kPageSize then kPageSize else alignment)
      in if \<not> (sz < kMinAlign \<or> alignment \<ge> kMinAlign) then None
         else if alignment AND (alignment - 1) \<noteq> 0 then None
         else Some alignment)"

text \<open>
  \<^verbatim>\<open>static_cast<int>(64.0 * 1024.0 / size)\<close> is the integer quotient: the double quotient of two integers
  below \<open>2 ^ 18\<close> is never rounded up to an integer.
\<close>

definition NumMoveSize :: "int \<Rightarrow> nat \<Rightarrow> int" where
  "NumMoveSize flag sz =
     (if sz = 0 then 0
      else let num = int (64 * 1024 div sz);
               num = (if num < 2 then 2 else num)
           in if num > flag then flag else num)"

section \<open>SizeMap::Init\<close>

text \<open>The page size of the host, adjusted: the smallest span in bytes.\<close>

definition min_span_size_for :: "nat \<Rightarrow> nat" where
  "min_span_size_for native_page_size =
     (let m = max native_page_size kPageSize
      in if m > kPageSize \<and> m mod kPageSize \<noteq> 0 then kPageSize else m)"

text \<open>
  The inner loops that choose the span length of a class:
  \<^verbatim>\<open>do { psize += min; while ((psize % size) > (psize >> 3)) psize += min; } while (psize / size < blocks);\<close>
  They run on 64-bit values and need not end, so they are partial functions.
\<close>

partial_function (option) grow_while :: "nat \<Rightarrow> nat \<Rightarrow> nat \<Rightarrow> nat option" where
  "grow_while min_span sz psize =
     (if psize mod sz > psize div 2 ^ 3 then grow_while min_span sz (w64 (psize + min_span))
      else Some psize)"

partial_function (option) span_bytes :: "nat \<Rightarrow> nat \<Rightarrow> nat \<Rightarrow> nat \<Rightarrow> nat option" where
  "span_bytes min_span sz blocks psize =
     do { psize \<leftarrow> grow_while min_span sz (w64 (psize + min_span));
          if psize div sz < blocks then span_bytes min_span sz blocks psize else Some psize }"

text \<open>
  One turn of the loop over the sizes: merge the size into the last class or open a new class.  A class
  with index \<open>kClassSizesMax\<close> would be written past the end of the arrays (the code reports it after the
  loop, by \<^verbatim>\<open>Log(kCrash, ...)\<close>): \<^term>\<open>None\<close>.
\<close>

definition add_size :: "nat \<Rightarrow> nat \<Rightarrow> nat \<times> (nat \<Rightarrow> nat) \<times> (nat \<Rightarrow> nat) \<Rightarrow>
    (nat \<times> (nat \<Rightarrow> nat) \<times> (nat \<Rightarrow> nat)) option" where
  "add_size sz psize st = (case st of (sc, to_size, to_pages) \<Rightarrow>
     let my_pages = psize div 2 ^ kPageShift;
         my_objects = my_pages * 2 ^ kPageShift div sz;
         prev_objects = to_pages (sc - 1) * 2 ^ kPageShift div to_size (sc - 1)
     in if sc > 1 \<and> my_pages = to_pages (sc - 1) \<and> my_objects = prev_objects
        then Some (sc, to_size(sc - 1 := sz), to_pages)
        else if sc < kClassSizesMax
        then Some (sc + 1, to_size(sc := sz), to_pages(sc := my_pages))
        else None)"

partial_function (option) classes_loop :: "int \<Rightarrow> nat \<Rightarrow> nat \<Rightarrow> nat \<times> (nat \<Rightarrow> nat) \<times> (nat \<Rightarrow> nat) \<Rightarrow>
    (nat \<times> (nat \<Rightarrow> nat) \<times> (nat \<Rightarrow> nat)) option" where
  "classes_loop flag min_span sz st =
     (if sz \<le> kMaxSize then
        do { alignment \<leftarrow> AlignmentForSize sz;
             if sz mod alignment \<noteq> 0 then None
             else do {
               psize \<leftarrow> span_bytes min_span sz (size_of_int (c_div (NumMoveSize flag sz) 4)) 0;
               st \<leftarrow> add_size sz psize st;
               classes_loop flag min_span (sz + alignment) st } }
      else Some st)"

text \<open>The loops that fill \<^verbatim>\<open>class_array_\<close>.\<close>

function fill_class :: "(nat \<Rightarrow> nat) \<Rightarrow> nat \<Rightarrow> nat \<Rightarrow> nat \<Rightarrow> (nat \<Rightarrow> nat)" where
  "fill_class arr c s max_size_in_class =
     (if s \<le> max_size_in_class
      then fill_class (arr(ClassIndex s := c)) c (s + kAlignment) max_size_in_class
      else arr)"
  by pat_completeness auto
termination
  by (relation "measure (\<lambda>(arr, c, s, m). Suc m - s)") (auto simp: tc_consts)

function fill_classes :: "(nat \<Rightarrow> nat) \<Rightarrow> nat \<Rightarrow> (nat \<Rightarrow> nat) \<Rightarrow> nat \<Rightarrow> nat \<Rightarrow> (nat \<Rightarrow> nat)" where
  "fill_classes to_size n arr c next_size =
     (if c < n
      then fill_classes to_size n (fill_class arr c next_size (to_size c)) (c + 1) (to_size c + kAlignment)
      else arr)"
  by pat_completeness auto
termination
  by (relation "measure (\<lambda>(ts, n, arr, c, s). n - c)") auto

declare fill_class.simps [simp del] fill_classes.simps [simp del]

text \<open>The double-check loop: false stands for one of its three \<^verbatim>\<open>Log(kCrash, ...)\<close> calls.\<close>

definition size_class_ok :: "size_map \<Rightarrow> nat \<Rightarrow> bool" where
  "size_class_ok sm sz =
     (let sc = SizeClass sm sz; s = class_to_size sm sc
      in \<not> (sc = 0 \<or> sc \<ge> num_size_classes sm)
         \<and> \<not> (sc > 1 \<and> sz \<le> class_to_size sm (sc - 1))
         \<and> \<not> (sz > s \<or> s = 0))"

function double_check :: "size_map \<Rightarrow> nat \<Rightarrow> bool" where
  "double_check sm sz =
     (if sz \<le> kMaxSize
      then size_class_ok sm sz \<and> double_check sm (if sz \<le> kMaxSmallSize then sz + 8 else sz + 128)
      else True)"
  by pat_completeness auto
termination
  by (relation "measure (\<lambda>(sm, sz). Suc kMaxSize - sz)") auto

declare double_check.simps [simp del]

text \<open>The natural-alignment check: sizes that are multiples of a power of two up to the page size.\<close>

definition natural_alignment_ok :: "size_map \<Rightarrow> bool" where
  "natural_alignment_ok sm =
     list_all (\<lambda>i. let align = kMinAlign * 2 ^ i in
         list_all (\<lambda>k. class_to_size sm (SizeClass sm (k * align)) mod align = 0)
           [1..<kPageSize div align])
       [0..<10]"

definition Init_arrays :: "int \<Rightarrow> nat \<Rightarrow> size_map \<Rightarrow> size_map option" where
  "Init_arrays flag min_span sm =
     do { (sc, to_size, to_pages) \<leftarrow>
            classes_loop flag min_span kAlignment (1, class_to_size sm, class_to_pages sm);
          Some (sm\<lparr>class_to_size := to_size, class_to_pages := to_pages, num_size_classes := sc,
                   class_array := fill_classes to_size sc (class_array sm) 1 0\<rparr>) }"

definition SizeMap_Init :: "int \<Rightarrow> int option \<Rightarrow> nat \<Rightarrow> size_map \<Rightarrow> size_map option" where
  "SizeMap_Init flag0 envval native_page_size sm =
     (let flag = InitTCMallocTransferNumObjects flag0 envval;
          min_span = min_span_size_for native_page_size;
          sm = sm\<lparr>min_span_size_in_pages := min_span div kPageSize\<rparr>
      in if ClassIndex 0 \<noteq> 0 \<or> ClassIndex kMaxSize \<ge> kClassArraySize then None
         else do {
           sm \<leftarrow> Init_arrays flag min_span sm;
           if \<not> double_check sm 0 then None
           else if \<not> natural_alignment_ok sm then None
           else Some (sm\<lparr>num_objects_to_move := (\<lambda>cl.
                  if 1 \<le> cl \<and> cl < num_size_classes sm then NumMoveSize flag (ByteSizeForClass sm cl)
                  else num_objects_to_move sm cl)\<rparr>) })"

section \<open>Logarithms and alignments\<close>

definition lg_inv :: "nat \<Rightarrow> nat \<Rightarrow> nat \<times> nat \<Rightarrow> bool" where
  "lg_inv n0 s st \<longleftrightarrow> 0 < fst st \<and> fst st = n0 div 2 ^ snd st \<and> fst st < 2 ^ s"

lemma LgFloor_step_inv:
  assumes "lg_inv n0 (2 * 2 ^ i) st"
  shows "lg_inv n0 (2 ^ i) (LgFloor_step st i)"
proof (cases st)
  case (Pair n lg)
  with assms have n: "0 < n" "n = n0 div 2 ^ lg" "n < 2 ^ (2 * 2 ^ i)"
    by (simp_all add: lg_inv_def)
  have "n div 2 ^ 2 ^ i < 2 ^ 2 ^ i"
    using n(3) by (simp add: less_mult_imp_div_less power_add mult_2)
  moreover have "n < 2 ^ 2 ^ i" if "n div 2 ^ 2 ^ i = 0"
    using that by (simp add: div_eq_0_iff)
  ultimately show ?thesis
    using n by (auto simp: Pair LgFloor_step_def lg_inv_def Let_def div_mult2_eq power_add)
qed

lemma LgFloor_inv:
  assumes "0 < n" "n < 2 ^ 32"
  shows "lg_inv n 1 (foldl LgFloor_step (n, 0) [4, 3, 2, 1, 0])"
proof -
  have "lg_inv n (2 * 2 ^ 4) (n, 0)" using assms by (simp add: lg_inv_def)
  from LgFloor_step_inv [OF this] have "lg_inv n (2 * 2 ^ 3) (LgFloor_step (n, 0) 4)" by simp
  from LgFloor_step_inv [OF this]
  have "lg_inv n (2 * 2 ^ 2) (LgFloor_step (LgFloor_step (n, 0) 4) 3)" by simp
  from LgFloor_step_inv [OF this]
  have "lg_inv n (2 * 2 ^ 1) (LgFloor_step (LgFloor_step (LgFloor_step (n, 0) 4) 3) 2)" by simp
  from LgFloor_step_inv [OF this]
  have "lg_inv n (2 * 2 ^ 0) (LgFloor_step (LgFloor_step (LgFloor_step (LgFloor_step (n, 0) 4) 3) 2) 1)"
    by simp
  from LgFloor_step_inv [OF this] show ?thesis by simp
qed

lemma LgFloor_bounds:
  assumes "0 < n" "n < 2 ^ 32"
  shows "2 ^ LgFloor n \<le> n" and "n < 2 ^ Suc (LgFloor n)"
proof -
  let ?l = "LgFloor n"
  have "n div 2 ^ ?l = 1"
    using LgFloor_inv [OF assms] by (auto simp: lg_inv_def LgFloor_def)
  moreover have "n div 2 ^ ?l * 2 ^ ?l + n mod 2 ^ ?l = n" by (rule div_mult_mod_eq)
  moreover have "n mod 2 ^ ?l < 2 ^ ?l" by simp
  ultimately show "2 ^ ?l \<le> n" and "n < 2 ^ Suc ?l" by (simp_all, linarith+)
qed

lemma LgFloor_eqI:
  assumes "2 ^ k \<le> n" "n < 2 ^ Suc k" "n < 2 ^ 32"
  shows "LgFloor n = k"
proof -
  have n: "0 < n" using assms(1) by (meson less_le_trans zero_less_numeral zero_less_power)
  have "(2::nat) ^ k < 2 ^ Suc (LgFloor n)" "(2::nat) ^ LgFloor n < 2 ^ Suc k"
    using LgFloor_bounds [OF n assms(3)] assms by linarith+
  from this [THEN pow2_lessD] have "k < Suc (LgFloor n)" "LgFloor n < Suc k" .
  then show ?thesis by simp
qed

text \<open>The alignment of a size up to \<open>kMaxSize\<close>, with its cases spelled out.\<close>

definition size_alignment :: "nat \<Rightarrow> nat" where
  "size_alignment sz =
     (if sz < 16 then 8 else if sz < 128 then 16 else 2 ^ min 13 (LgFloor sz - 3))"

lemma power2_div8: "3 \<le> k \<Longrightarrow> (2::nat) ^ k div 8 = 2 ^ (k - 3)"
  using power_add [of "2::nat" 3 "k - 3"] by simp

lemma AlignmentForSize_eq:
  assumes "sz \<le> kMaxSize"
  shows "AlignmentForSize sz = Some (size_alignment sz)"
proof (cases "sz < 128")
  case True
  have "(8 AND 7 :: nat) = 0" "(16 AND 15 :: nat) = 0"
    using power2_and_pred [of 3] power2_and_pred [of 4] by simp_all
  then show ?thesis
    using True assms by (auto simp: AlignmentForSize_def size_alignment_def tc_consts)
next
  case False
  let ?l = "LgFloor sz"
  have sz: "0 < sz" "sz < 2 ^ 32" using False assms by (simp_all add: tc_consts)
  have "(2::nat) ^ 7 < 2 ^ Suc ?l" using LgFloor_bounds(2) [OF sz] False by simp
  from pow2_lessD [OF this] have l: "7 \<le> ?l" by simp
  have "(2::nat) ^ 4 \<le> 2 ^ (?l - 3)" using l by (intro power_increasing) auto
  moreover have "(if (2::nat) ^ (?l - 3) > 8192 then (8192::nat) else 2 ^ (?l - 3)) = 2 ^ min 13 (?l - 3)"
    using power_strict_increasing_iff [of "2::nat" 13 "?l - 3"] by (auto simp: min_def)
  ultimately show ?thesis
    using False assms l power2_and_pred [of "min 13 (?l - 3)"]
    by (auto simp: AlignmentForSize_def size_alignment_def tc_consts power2_div8 Let_def)
qed

lemma size_alignment_pos [simp]: "0 < size_alignment sz"
  by (simp add: size_alignment_def)

lemma LgFloor_ge7: "128 \<le> sz \<Longrightarrow> sz \<le> kMaxSize \<Longrightarrow> 7 \<le> LgFloor sz"
proof -
  assume sz: "128 \<le> sz" "sz \<le> kMaxSize"
  then have "(2::nat) ^ 7 < 2 ^ Suc (LgFloor sz)"
    using LgFloor_bounds(2) [of sz] by (simp add: tc_consts)
  from pow2_lessD [OF this] show ?thesis by simp
qed

lemma size_alignment_dvd8:
  assumes "sz \<le> kMaxSize"
  shows "8 dvd size_alignment sz"
proof (cases "sz < 128")
  case True
  then show ?thesis by (simp add: size_alignment_def)
next
  case False
  then have "3 \<le> min 13 (LgFloor sz - 3)" using LgFloor_ge7 [of sz] assms by simp
  then have "(2::nat) ^ 3 dvd 2 ^ min 13 (LgFloor sz - 3)" by (rule le_imp_power_dvd)
  with False show ?thesis by (simp add: size_alignment_def)
qed

lemma size_alignment_dvd128:
  assumes "1024 \<le> sz" "sz \<le> kMaxSize"
  shows "128 dvd size_alignment sz"
proof -
  have "(2::nat) ^ 10 < 2 ^ Suc (LgFloor sz)"
    using LgFloor_bounds(2) [of sz] assms by (simp add: tc_consts)
  from pow2_lessD [OF this] have "7 \<le> min 13 (LgFloor sz - 3)" by simp
  then have "(2::nat) ^ 7 dvd 2 ^ min 13 (LgFloor sz - 3)" by (rule le_imp_power_dvd)
  then show ?thesis using assms by (simp add: size_alignment_def)
qed

text \<open>
  The sizes the loop of \<^verbatim>\<open>Init\<close> visits are multiples of their own alignment; the next one is too, and
  the last one is \<open>kMaxSize\<close> itself.
\<close>

definition loop_size :: "nat \<Rightarrow> bool" where
  "loop_size sz \<longleftrightarrow> 8 \<le> sz \<and> sz \<le> kMaxSize \<and> size_alignment sz dvd sz"

lemma size_alignment_large:
  assumes "2 ^ k \<le> sz" "sz < 2 ^ Suc k" "7 \<le> k" "k < 20"
  shows "size_alignment sz = 2 ^ min 13 (k - 3)"
proof -
  have "(2::nat) ^ 7 \<le> 2 ^ k" "(2::nat) ^ Suc k \<le> 2 ^ 20"
    using assms by (intro power_increasing; simp)+
  then have "128 \<le> sz" "sz < 2 ^ 32" using assms by simp_all
  then show ?thesis using LgFloor_eqI [OF assms(1,2)] by (simp add: size_alignment_def)
qed

lemma loop_size_next:
  assumes "loop_size sz" "sz < kMaxSize"
  shows "loop_size (sz + size_alignment sz)"
proof (cases "sz < 128")
  case True
  have "sz < 16 \<or> 16 \<le> sz" by linarith
  then show ?thesis
  proof
    assume "sz < 16"
    with assms have "sz = 8" by (auto simp: loop_size_def size_alignment_def)
    then show ?thesis by (simp add: loop_size_def size_alignment_def tc_consts)
  next
    assume "16 \<le> sz"
    with True assms have a: "size_alignment sz = 16" "16 dvd sz" by (auto simp: loop_size_def size_alignment_def)
    have le: "sz + 16 \<le> 128" using True a(2) by (intro dvd_less_add_le) auto
    have "size_alignment 128 = 16" using size_alignment_large [of 7 128] by simp
    then show ?thesis using a le by (cases "sz + 16 = 128") (auto simp: loop_size_def size_alignment_def tc_consts)
  qed
next
  case False
  define k where "k = LgFloor sz"
  have b: "2 ^ k \<le> sz" "sz < 2 ^ Suc k"
    using LgFloor_bounds [of sz] False assms by (simp_all add: k_def tc_consts)
  have "(2::nat) ^ 7 < 2 ^ Suc k" "(2::nat) ^ k < 2 ^ 18" using b False assms by (simp_all add: tc_consts)
  from this [THEN pow2_lessD] have k: "7 \<le> k" "k < 18" by simp_all
  let ?a = "(2::nat) ^ min 13 (k - 3)"
  have a: "size_alignment sz = ?a" "?a dvd sz"
    using size_alignment_large [OF b] k assms by (simp_all add: loop_size_def)
  have d: "?a dvd 2 ^ j" if "k - 3 \<le> j" for j using that by (intro le_imp_power_dvd) auto
  have le: "sz + ?a \<le> 2 ^ Suc k" using b(2) a(2) d by (intro dvd_less_add_le) auto
  moreover have "(2::nat) ^ Suc k \<le> 2 ^ 18" using k by (intro power_increasing) auto
  ultimately have max: "sz + ?a \<le> kMaxSize" by (simp add: tc_consts)
  show ?thesis
  proof (cases "sz + ?a = 2 ^ Suc k")
    case True
    have "size_alignment (sz + ?a) = 2 ^ min 13 (k - 2)"
      using size_alignment_large [of "Suc k" "sz + ?a"] True k by simp
    moreover have "(2::nat) ^ min 13 (k - 2) dvd 2 ^ Suc k" by (intro le_imp_power_dvd) auto
    ultimately show ?thesis using True max a(1) False by (simp add: loop_size_def)
  next
    case neq: False
    have "size_alignment (sz + ?a) = ?a"
      using size_alignment_large [of k "sz + ?a"] neq le b k by simp
    then show ?thesis using a max False by (simp add: loop_size_def)
  qed
qed

section \<open>The span length of a class\<close>

lemma grow_while_total:
  assumes "0 < min_span" "min_span \<le> 2 ^ 40" "0 < sz" "sz \<le> 2 ^ 40" "psize < 2 ^ 62" "min_span dvd psize"
  shows "wpo (grow_while min_span sz psize)
    (\<lambda>p. psize \<le> p \<and> p \<le> max psize (8 * sz + min_span) \<and> p mod sz \<le> p div 8 \<and> min_span dvd p)"
  using assms
proof (induction "8 * sz - psize" arbitrary: psize rule: less_induct)
  case less
  show ?case
  proof (cases "psize mod sz > psize div 8")
    case False
    then show ?thesis using less.prems by (subst grow_while.simps) simp
  next
    case True
    have "psize mod sz < sz" using less.prems by simp
    then have small: "psize < 8 * sz" using True by linarith
    then have fits: "psize + min_span < 2 ^ 62" using less.prems by simp
    have "wpo (grow_while min_span sz (psize + min_span))
      (\<lambda>p. psize + min_span \<le> p \<and> p \<le> max (psize + min_span) (8 * sz + min_span) \<and> p mod sz \<le> p div 8 \<and>
           min_span dvd p)"
      using small fits less.prems by (intro less.hyps) auto
    then have "wpo (grow_while min_span sz (psize + min_span))
      (\<lambda>p. psize \<le> p \<and> p \<le> max psize (8 * sz + min_span) \<and> p mod sz \<le> p div 8 \<and> min_span dvd p)"
      by (rule wpo_conseq) (use small in auto)
    then show ?thesis using True fits by (subst grow_while.simps) simp
  qed
qed

lemma span_bytes_total:
  assumes "0 < min_span" "min_span \<le> 2 ^ 40" "0 < sz" "sz \<le> 2 ^ 40" "blocks \<le> 2 ^ 20"
    "psize < 2 ^ 61" "min_span dvd psize"
  shows "wpo (span_bytes min_span sz blocks psize)
    (\<lambda>p. psize < p \<and> p mod sz \<le> p div 8 \<and> blocks \<le> p div sz \<and> min_span dvd p \<and>
         p < max psize (max (8 * sz) (blocks * sz)) + 2 * min_span)"
  using assms
proof (induction "Suc (blocks * sz) - psize" arbitrary: psize rule: less_induct)
  case less
  let ?Q = "\<lambda>p. psize < p \<and> p mod sz \<le> p div 8 \<and> blocks \<le> p div sz \<and> min_span dvd p \<and>
         p < max psize (max (8 * sz) (blocks * sz)) + 2 * min_span"
  have "wpo (grow_while min_span sz (psize + min_span))
    (\<lambda>p. psize + min_span \<le> p \<and> p \<le> max (psize + min_span) (8 * sz + min_span) \<and> p mod sz \<le> p div 8 \<and>
       min_span dvd p)"
    using less.prems by (intro grow_while_total) auto
  then obtain p where p: "grow_while min_span sz (psize + min_span) = Some p" "psize + min_span \<le> p"
    "p \<le> max (psize + min_span) (8 * sz + min_span)" "p mod sz \<le> p div 8" "min_span dvd p"
    by (auto simp: wpo_iff)
  have w: "w64 (psize + min_span) = psize + min_span" using less.prems by simp
  have step: "span_bytes min_span sz blocks psize =
      (if p div sz < blocks then span_bytes min_span sz blocks p else Some p)"
    by (subst span_bytes.simps) (simp add: w p)
  show ?case
  proof (cases "p div sz < blocks")
    case False
    with p less.prems show ?thesis by (auto simp: step)
  next
    case True
    then have pb: "p < blocks * sz" using less.prems by (simp add: div_less_iff_less_mult)
    have "blocks * sz \<le> 2 ^ 20 * 2 ^ 40" using less.prems by (intro mult_le_mono) auto
    then have "wpo (span_bytes min_span sz blocks p)
      (\<lambda>q. p < q \<and> q mod sz \<le> q div 8 \<and> blocks \<le> q div sz \<and> min_span dvd q \<and>
           q < max p (max (8 * sz) (blocks * sz)) + 2 * min_span)"
      using pb p less.prems by (intro less.hyps) auto
    then have "wpo (span_bytes min_span sz blocks p) ?Q"
      by (rule wpo_conseq) (use p pb less.prems in auto)
    with True show ?thesis by (simp add: step)
  qed
qed

section \<open>The loop over the sizes\<close>

fun loop_ends_in :: "nat \<Rightarrow> nat \<Rightarrow> bool" where
  "loop_ends_in 0 sz = (kMaxSize < sz)"
| "loop_ends_in (Suc k) sz = (kMaxSize < sz \<or> loop_ends_in k (sz + size_alignment sz))"

lemma loop_ends_in_numeral:
  "loop_ends_in (numeral k) sz = (kMaxSize < sz \<or> loop_ends_in (pred_numeral k) (sz + size_alignment sz))"
  by (simp add: numeral_eq_Suc)

lemma loop_ends_in_105: "loop_ends_in 105 kAlignment"
  by (simp add: loop_ends_in_numeral size_alignment_def LgFloor_def LgFloor_step_def tc_consts Let_def)

text \<open>
  What the loop keeps of the tables after the size \<open>prev\<close>: the class sizes grow strictly, are the
  sizes the loop visited, and every class comes with a span length that fits it.
\<close>

definition good_size :: "nat \<Rightarrow> bool" where
  "good_size t \<longleftrightarrow> 0 < t \<and> t \<le> kMaxSize \<and> 8 dvd t \<and> (1024 < t \<longrightarrow> 128 dvd t)"

definition class_span_ok :: "int \<Rightarrow> nat \<Rightarrow> nat \<Rightarrow> nat \<Rightarrow> bool" where
  "class_span_ok flag min_span t np \<longleftrightarrow>
     (let bytes = np * kPageSize
      in min_span dvd bytes \<and> t \<le> bytes \<and> bytes mod t \<le> bytes div 8
         \<and> NumMoveSize flag t div 4 \<le> int (bytes div t))"

definition tables_inv :: "int \<Rightarrow> nat \<Rightarrow> nat \<Rightarrow> nat \<times> (nat \<Rightarrow> nat) \<times> (nat \<Rightarrow> nat) \<Rightarrow> bool" where
  "tables_inv flag min_span prev st = (case st of (sc, ts, tp) \<Rightarrow>
     1 \<le> sc \<and> (sc = 1 \<longrightarrow> prev = 0) \<and> (1 < sc \<longrightarrow> ts (sc - 1) = prev) \<and>
     (\<forall>c. 1 \<le> c \<and> c < sc \<longrightarrow> good_size (ts c) \<and> class_span_ok flag min_span (ts c) (tp c)) \<and>
     (\<forall>c. 1 \<le> c \<and> Suc c < sc \<longrightarrow> ts c < ts (Suc c)))"

lemma loop_size_good: "loop_size sz \<Longrightarrow> good_size sz"
  unfolding loop_size_def good_size_def
  using dvd_trans [OF size_alignment_dvd8] dvd_trans [OF size_alignment_dvd128, of sz sz] by auto

lemma NumMoveSize_bounds:
  assumes "0 < sz"
  shows "min 2 flag \<le> NumMoveSize flag sz" and "NumMoveSize flag sz \<le> flag" and "NumMoveSize flag sz \<le> 65536"
proof -
  define q where "q = 64 * 1024 div sz"
  have q: "q \<le> 65536" unfolding q_def by (rule order_trans [OF div_le_dividend]) simp
  show "min 2 flag \<le> NumMoveSize flag sz" "NumMoveSize flag sz \<le> flag" "NumMoveSize flag sz \<le> 65536"
    using assms q unfolding NumMoveSize_def Let_def q_def [symmetric] by auto
qed

lemma tables_inv_step:
  assumes inv: "tables_inv flag min_span prev (sc, ts, tp)" and "prev < sz" "good_size sz"
    and ok: "class_span_ok flag min_span sz (psize div 2 ^ kPageShift)" and room: "sc < kClassSizesMax"
  shows "wpo (add_size sz psize (sc, ts, tp))
    (\<lambda>st. tables_inv flag min_span sz st \<and> fst st \<le> Suc sc)"
proof -
  have mono: "ts c < sz" if "1 \<le> c" "c < sc" for c
  proof -
    have "ts c \<le> ts (sc - 1)"
    proof (cases "c = sc - 1")
      case False
      with that have "c < sc - 1" by linarith
      with inv that show ?thesis
        by (intro less_imp_le [OF strict_chain_less [of 1 sc ts c "sc - 1"]]) (auto simp: tables_inv_def)
    qed simp
    moreover have "ts (sc - 1) < sz" using inv that assms(2) by (auto simp: tables_inv_def)
    ultimately show ?thesis by simp
  qed
  show ?thesis
  proof (cases "sc > 1 \<and> psize div 2 ^ kPageShift = tp (sc - 1) \<and>
      psize div 2 ^ kPageShift * 2 ^ kPageShift div sz = tp (sc - 1) * 2 ^ kPageShift div ts (sc - 1)")
    case True
    then show ?thesis
      using assms mono by (auto simp: add_size_def tables_inv_def Let_def)
  next
    case False
    then have "add_size sz psize (sc, ts, tp) =
        Some (Suc sc, ts(sc := sz), tp(sc := psize div 2 ^ kPageShift))"
      using room by (auto simp: add_size_def Let_def)
    then show ?thesis
      using assms mono by (auto simp: tables_inv_def less_Suc_eq)
  qed
qed

lemma class_span_okI:
  assumes "p mod sz \<le> p div 8" "blocks \<le> p div sz" "min_span dvd p" "kPageSize dvd min_span" "0 < p" "0 < sz"
    "blocks = nat (NumMoveSize flag sz div 4)"
  shows "class_span_ok flag min_span sz (p div 2 ^ kPageShift)"
proof -
  have "kPageSize dvd p" using assms dvd_trans by blast
  then have bytes: "p div 2 ^ kPageShift * kPageSize = p" by (simp add: kPageSize_def)
  have "sz \<le> p"
  proof (rule ccontr)
    assume "\<not> sz \<le> p"
    then have "p mod sz = p" by simp
    with assms show False by linarith
  qed
  then show ?thesis using assms by (simp add: class_span_ok_def bytes) 
qed

lemma classes_loop_total:
  assumes "0 \<le> flag" "kPageSize dvd min_span" "0 < min_span" "min_span \<le> 2 ^ 40"
    and "loop_ends_in k sz" "loop_size sz \<or> kMaxSize < sz \<and> prev = kMaxSize" "prev < sz"
    and "tables_inv flag min_span prev st" "fst st + k \<le> kClassSizesMax"
  shows "wpo (classes_loop flag min_span sz st)
    (\<lambda>st'. tables_inv flag min_span kMaxSize st' \<and> fst st' \<le> fst st + k)"
  using assms(5-)
proof (induction k arbitrary: sz prev st)
  case 0
  then show ?case by (subst classes_loop.simps) (auto simp: loop_size_def)
next
  case (Suc k)
  show ?case
  proof (cases "kMaxSize < sz")
    case True
    with Suc.prems show ?thesis by (subst classes_loop.simps) (auto simp: loop_size_def)
  next
    case False
    then have sz: "loop_size sz" "sz \<le> kMaxSize" using Suc.prems by auto
    let ?a = "size_alignment sz" and ?b = "nat (NumMoveSize flag sz div 4)"
    have pos: "0 < sz" "sz \<le> 2 ^ 40" using sz by (auto simp: loop_size_def tc_consts)
    note nm = NumMoveSize_bounds [OF pos(1), of flag]
    have "0 \<le> NumMoveSize flag sz" using nm assms(1) by linarith
    then have b: "size_of_int (c_div (NumMoveSize flag sz) 4) = ?b" "?b \<le> 2 ^ 20" using nm by simp_all
    obtain p where p: "span_bytes min_span sz ?b 0 = Some p" "0 < p" "p mod sz \<le> p div 8" "?b \<le> p div sz"
        "min_span dvd p"
      using span_bytes_total [of min_span sz ?b 0] assms pos b(2) by (auto simp: wpo_iff)
    have "wpo (add_size sz p st) (\<lambda>st'. tables_inv flag min_span sz st' \<and> fst st' \<le> Suc (fst st))"
      using tables_inv_step [of flag min_span prev "fst st" "fst (snd st)" "snd (snd st)" sz p]
        class_span_okI [of p sz ?b min_span flag] Suc.prems loop_size_good [OF sz(1)] p pos assms(2)
      by simp
    then obtain st' where st': "add_size sz p st = Some st'" "tables_inv flag min_span sz st'"
        "fst st' \<le> Suc (fst st)" by (auto simp: wpo_iff)
    have "wpo (classes_loop flag min_span (sz + ?a) st')
        (\<lambda>st''. tables_inv flag min_span kMaxSize st'' \<and> fst st'' \<le> fst st' + k)"
    proof (rule Suc.IH [of _ sz])
      show "loop_size (sz + ?a) \<or> kMaxSize < sz + ?a \<and> sz = kMaxSize"
        using loop_size_next [OF sz(1)] sz(2) by (cases "sz = kMaxSize") auto
    qed (use Suc.prems False st' in auto)
    then have "wpo (classes_loop flag min_span (sz + ?a) st')
        (\<lambda>st''. tables_inv flag min_span kMaxSize st'' \<and> fst st'' \<le> fst st + Suc k)"
      by (rule wpo_conseq) (use st'(3) in auto)
    moreover have "?a dvd sz" using sz(1) by (simp add: loop_size_def)
    ultimately show ?thesis
      by (subst classes_loop.simps) (simp add: sz AlignmentForSize_eq b p st')
  qed
qed

section \<open>The class array\<close>

lemmas ClassIndex_defs = ClassIndex_def SmallSizeClass_def LargeSizeClass_def tc_consts

lemma ClassIndex_le_iff:
  assumes "good_size t"
  shows "ClassIndex s \<le> ClassIndex t \<longleftrightarrow> s \<le> t"
proof -
  obtain k where k: "t = 8 * k" using assms by (auto simp: good_size_def)
  show ?thesis
  proof (cases "t \<le> 1024")
    case True
    with k show ?thesis by (auto simp: ClassIndex_defs)
  next
    case False
    with assms obtain j where j: "t = 128 * j" by (auto simp: good_size_def)
    with False show ?thesis by (auto simp: ClassIndex_defs)
  qed
qed

lemma ClassIndex_round8: "ClassIndex (8 * ((s + 7) div 8)) = ClassIndex s"
proof (cases "s \<le> 1024")
  case True
  then have "(s + 7) div 8 < 129" by (intro less_mult_imp_div_less) simp
  then have "8 * ((s + 7) div 8) \<le> 1024" by simp
  with True show ?thesis by (simp add: ClassIndex_defs)
next
  case False
  then have "\<not> 8 * ((s + 7) div 8) \<le> 1024" by linarith
  moreover have "(15487 + 8 * ((s + 7) div 8)) div 128 = (15487 + s) div 128"
  proof -
    have "(7 + (1935 + (s + 7) div 8) * 8) div 8 = 1935 + (s + 7) div 8" by (subst div_mult_self1) auto
    moreover have "(s + 7 + 1935 * 8) div 8 = 1935 + (s + 7) div 8" by (subst div_mult_self1) auto
    ultimately have "(15487 + 8 * ((s + 7) div 8)) div 8 = (15487 + s) div 8" by (simp add: algebra_simps)
    then show ?thesis
      using div_mult2_eq [of "15487 + 8 * ((s + 7) div 8)" 8 16] div_mult2_eq [of "15487 + s" 8 16] by simp
  qed
  ultimately show ?thesis using False by (simp add: ClassIndex_defs)
qed

lemma ClassIndex_bound: "s \<le> kMaxSize \<Longrightarrow> ClassIndex s < kClassArraySize"
  by (simp add: ClassIndex_defs) linarith

lemma fill_class_keep: "arr i = c \<Longrightarrow> fill_class arr c s m i = c"
proof (induction arr c s m rule: fill_class.induct)
  case (1 arr c s m)
  have "fill_class (arr(ClassIndex s := c)) c (s + kAlignment) m i = c" if "s \<le> m"
    using "1.prems" by (intro "1.IH" [OF that]) simp
  then show ?case using "1.prems" by (subst fill_class.simps) simp
qed

lemma fill_class_hit:
  "s \<le> t \<Longrightarrow> t \<le> m \<Longrightarrow> 8 dvd t - s \<Longrightarrow> fill_class arr c s m (ClassIndex t) = c"
proof (induction arr c s m rule: fill_class.induct)
  case (1 arr c s m)
  show ?case
  proof (cases "t = s")
    case True
    with "1.prems" show ?thesis by (subst fill_class.simps) (simp add: fill_class_keep)
  next
    case False
    with "1.prems" have "8 \<le> t - s" by (intro dvd_imp_le) auto
    moreover have "8 dvd t - s - 8" by (rule dvd_diff_nat) (use "1.prems" in auto)
    ultimately have "s + kAlignment \<le> t" "8 dvd t - (s + kAlignment)"
      using "1.prems" by (auto simp: kAlignment_def)
    then have "fill_class (arr(ClassIndex s := c)) c (s + kAlignment) m (ClassIndex t) = c"
      using "1.prems" by (intro "1.IH") auto
    then show ?thesis using "1.prems" by (subst fill_class.simps) simp
  qed
qed

lemma fill_class_other:
  "(\<And>t. s \<le> t \<Longrightarrow> ClassIndex t \<noteq> i) \<Longrightarrow> fill_class arr c s m i = arr i"
proof (induction arr c s m rule: fill_class.induct)
  case (1 arr c s m)
  show ?case
  proof (cases "s \<le> m")
    case True
    have "fill_class (arr(ClassIndex s := c)) c (s + kAlignment) m i = (arr(ClassIndex s := c)) i"
      using "1.prems" by (intro "1.IH" [OF True]) simp
    moreover have "ClassIndex s \<noteq> i" using "1.prems" by simp
    ultimately show ?thesis using True by (subst fill_class.simps) simp
  qed (subst fill_class.simps, simp)
qed

text \<open>The table of class sizes as the loops need it: increasing sizes that end index blocks.\<close>

definition size_table :: "(nat \<Rightarrow> nat) \<Rightarrow> nat \<Rightarrow> bool" where
  "size_table to_size n \<longleftrightarrow>
     (\<forall>d. 1 \<le> d \<and> d < n \<longrightarrow> good_size (to_size d)) \<and>
     (\<forall>d. 1 \<le> d \<and> Suc d < n \<longrightarrow> to_size d < to_size (Suc d))"

lemma size_table_less:
  "size_table to_size n \<Longrightarrow> 1 \<le> c \<Longrightarrow> c < d \<Longrightarrow> d < n \<Longrightarrow> to_size c < to_size d"
  using strict_chain_less [of 1 n to_size c d] by (simp add: size_table_def)

lemma good_size_add8: "good_size s \<Longrightarrow> good_size t \<Longrightarrow> s < t \<Longrightarrow> s + 8 \<le> t"
  by (rule dvd_less_add_le) (auto simp: good_size_def)

lemma fill_classes_other:
  assumes "size_table to_size n" "1 \<le> c" "\<And>t. next_size \<le> t \<Longrightarrow> ClassIndex t \<noteq> i"
    and "c < n \<Longrightarrow> next_size \<le> to_size c"
  shows "fill_classes to_size n arr c next_size i = arr i"
  using assms
proof (induction to_size n arr c next_size rule: fill_classes.induct)
  case (1 to_size n arr c next_size)
  show ?case
  proof (cases "c < n")
    case True
    then have le: "next_size \<le> to_size c" using "1.prems" by simp
    have "to_size c + 8 \<le> to_size (c + 1)" if "c + 1 < n"
      using that "1.prems"(1,2) by (intro good_size_add8) (auto simp: size_table_def)
    then have "fill_classes to_size n (fill_class arr c next_size (to_size c)) (c + 1) (to_size c + kAlignment) i
        = fill_class arr c next_size (to_size c) i"
      using "1.prems" le by (intro "1.IH" [OF True]) (simp_all add: kAlignment_def)
    also have "\<dots> = arr i" using "1.prems"(3) by (rule fill_class_other)
    finally show ?thesis using True by (subst fill_classes.simps) simp
  qed (subst fill_classes.simps, simp)
qed

lemma fill_classes_hit:
  assumes "size_table to_size n" "1 \<le> c" "c \<le> d" "d < n"
    and "next_size = (if c = 1 then 0 else to_size (c - 1) + 8)"
    and "8 dvd s" "s \<le> to_size d" "1 < d \<Longrightarrow> to_size (d - 1) < s"
  shows "fill_classes to_size n arr c next_size (ClassIndex s) = d"
  using assms
proof (induction to_size n arr c next_size rule: fill_classes.induct)
  case (1 to_size n arr c next_size)
  have cn: "c < n" using "1.prems" by simp
  let ?arr = "fill_class arr c next_size (to_size c)"
  have "fill_classes to_size n ?arr (c + 1) (to_size c + kAlignment) (ClassIndex s) = d"
  proof (cases "c = d")
    case False
    with "1.prems" cn show ?thesis by (intro "1.IH") (auto simp: kAlignment_def)
  next
    case True
    have good: "good_size (to_size c)" using "1.prems"(1,2) cn by (simp add: size_table_def)
    have "8 dvd next_size" "next_size \<le> s"
    proof -
      have prev: "good_size (to_size (c - 1))" if "c \<noteq> 1"
      proof -
        from that "1.prems"(2) have "1 \<le> c - 1" "c - 1 < n" using cn by auto
        with "1.prems"(1) show ?thesis by (simp add: size_table_def)
      qed
      then show "8 dvd next_size" using "1.prems"(5) by (auto simp: good_size_def)
      show "next_size \<le> s"
      proof (cases "c = 1")
        case False
        then have "8 dvd to_size (c - 1)" "to_size (c - 1) < s"
          using "1.prems" True prev by (auto simp: good_size_def)
        then show ?thesis using dvd_less_add_le [of 8 "to_size (c - 1)" s] "1.prems"(5,6) False by simp
      qed (use "1.prems"(5) in simp)
    qed
    then have hit: "?arr (ClassIndex s) = c"
      using "1.prems" True by (intro fill_class_hit) (auto intro: dvd_diff_nat)
    have "ClassIndex t \<noteq> ClassIndex s" if "to_size c + 8 \<le> t" for t
      using ClassIndex_le_iff [OF good, of t] ClassIndex_le_iff [OF good, of s] that "1.prems"(7) True by auto
    moreover have "to_size c + 8 \<le> to_size (c + 1)" if "c + 1 < n"
      using that "1.prems"(1,2) by (intro good_size_add8) (auto simp: size_table_def)
    ultimately show ?thesis
      using "1.prems"(1,2) hit True by (subst fill_classes_other) (auto simp: kAlignment_def)
  qed
  then show ?case using cn by (subst fill_classes.simps) simp
qed

section \<open>Init\<close>

text \<open>The contract of the finished tables.\<close>

definition size_map_inv :: "int \<Rightarrow> nat \<Rightarrow> size_map \<Rightarrow> bool" where
  "size_map_inv flag min_span sm \<longleftrightarrow>
     1 < num_size_classes sm \<and> num_size_classes sm \<le> 106 \<and>
     size_table (class_to_size sm) (num_size_classes sm) \<and>
     class_to_size sm (num_size_classes sm - 1) = kMaxSize \<and>
     (\<forall>c. 1 \<le> c \<and> c < num_size_classes sm \<longrightarrow>
        class_span_ok flag min_span (class_to_size sm c) (class_to_pages sm c)) \<and>
     (\<forall>c s. 1 \<le> c \<and> c < num_size_classes sm \<and> s \<le> class_to_size sm c \<and>
        (1 < c \<longrightarrow> class_to_size sm (c - 1) < s) \<longrightarrow> SizeClass sm s = c)"

lemma min_span_size_for_props:
  assumes "native \<le> 2 ^ 40"
  shows "kPageSize dvd min_span_size_for native" "0 < min_span_size_for native" "min_span_size_for native \<le> 2 ^ 40"
  using assms by (auto simp: min_span_size_for_def Let_def tc_consts max_def)

lemma Init_arrays_total:
  assumes "0 \<le> flag" "kPageSize dvd min_span" "0 < min_span" "min_span \<le> 2 ^ 40"
  shows "wpo (Init_arrays flag min_span sm)
    (\<lambda>sm'. size_map_inv flag min_span sm' \<and> min_span_size_in_pages sm' = min_span_size_in_pages sm)"
proof -
  let ?st0 = "(1, class_to_size sm, class_to_pages sm)"
  have "loop_size kAlignment" by (simp add: loop_size_def size_alignment_def tc_consts)
  moreover have "tables_inv flag min_span 0 ?st0" by (simp add: tables_inv_def)
  ultimately have "wpo (classes_loop flag min_span kAlignment ?st0)
      (\<lambda>st. tables_inv flag min_span kMaxSize st \<and> fst st \<le> fst ?st0 + 105)"
    using assms loop_ends_in_105
    by (intro classes_loop_total [where prev = 0]) (auto simp: tc_consts)
  then obtain n ts tp where loop: "classes_loop flag min_span kAlignment ?st0 = Some (n, ts, tp)"
      and inv: "tables_inv flag min_span kMaxSize (n, ts, tp)" and n: "n \<le> 106"
    by (auto simp: wpo_iff)
  have table: "size_table ts n" using inv by (auto simp: tables_inv_def size_table_def)
  have "n \<noteq> 1" using inv by (auto simp: tables_inv_def tc_consts)
  then have n1: "1 < n" using inv by (auto simp: tables_inv_def)
  define arr where "arr = fill_classes ts n (class_array sm) 1 0"
  have "arr (ClassIndex s) = c" if "1 \<le> c" "c < n" "s \<le> ts c" "1 < c \<longrightarrow> ts (c - 1) < s" for c s
  proof -
    have c8: "8 dvd ts c" using table that by (simp add: size_table_def good_size_def)
    then have "8 * ((s + 7) div 8) \<le> ts c" using that(3) by (auto simp: dvd_def)
    moreover have "s \<le> 8 * ((s + 7) div 8)" by linarith
    ultimately have "arr (ClassIndex (8 * ((s + 7) div 8))) = c"
      unfolding arr_def using that by (intro fill_classes_hit [OF table]) auto
    then show ?thesis by (simp add: ClassIndex_round8)
  qed
  then show ?thesis
    using inv n n1 table by (simp add: Init_arrays_def loop [unfolded One_nat_def] size_map_inv_def tables_inv_def SizeClass_def arr_def)
qed

lemma size_class_exists:
  assumes inv: "size_map_inv flag min_span sm" and s: "s \<le> kMaxSize"
  obtains c where "SizeClass sm s = c" "1 \<le> c" "c < num_size_classes sm" "s \<le> class_to_size sm c"
    "1 < c \<longrightarrow> class_to_size sm (c - 1) < s"
proof -
  let ?n = "num_size_classes sm" and ?P = "\<lambda>c. 1 \<le> c \<and> s \<le> class_to_size sm c"
  define c where "c = (LEAST c. ?P c)"
  have last: "?P (?n - 1)" using inv s by (auto simp: size_map_inv_def)
  then have c: "?P c" unfolding c_def by (rule LeastI)
  have "c \<le> ?n - 1" unfolding c_def using last by (rule Least_le)
  then have "c < ?n" using inv by (auto simp: size_map_inv_def)
  moreover have "class_to_size sm (c - 1) < s" if "1 < c"
  proof (rule ccontr)
    assume "\<not> ?thesis"
    with that have "?P (c - 1)" by auto
    then have "c \<le> c - 1" unfolding c_def by (rule Least_le)
    with that show False by simp
  qed
  moreover from this c \<open>c < ?n\<close> have "SizeClass sm s = c" using inv by (auto simp: size_map_inv_def)
  ultimately show thesis using c that by blast
qed

lemma size_map_inv_class_ok:
  assumes "size_map_inv flag min_span sm" "s \<le> kMaxSize"
  shows "size_class_ok sm s"
proof -
  obtain c where c: "SizeClass sm s = c" "1 \<le> c" "c < num_size_classes sm" "s \<le> class_to_size sm c"
      "1 < c \<longrightarrow> class_to_size sm (c - 1) < s"
    using size_class_exists [OF assms] by blast
  then have "good_size (class_to_size sm c)" using assms(1) by (auto simp: size_map_inv_def size_table_def)
  with c show ?thesis by (auto simp: size_class_ok_def good_size_def Let_def)
qed

lemma double_check_passes: "size_map_inv flag min_span sm \<Longrightarrow> double_check sm s"
proof (induction sm s rule: double_check.induct)
  case (1 sm sz)
  then show ?case
    using size_map_inv_class_ok [OF "1.prems"] by (subst double_check.simps) simp
qed

lemma SizeMap_Init_cases:
  assumes "0 \<le> InitTCMallocTransferNumObjects flag0 envval" "native \<le> 2 ^ 40"
  obtains sm' where "size_map_inv (InitTCMallocTransferNumObjects flag0 envval) (min_span_size_for native) sm'"
    "Init_arrays (InitTCMallocTransferNumObjects flag0 envval) (min_span_size_for native)
       (sm\<lparr>min_span_size_in_pages := min_span_size_for native div kPageSize\<rparr>) = Some sm'"
    "SizeMap_Init flag0 envval native sm = (if natural_alignment_ok sm' then
       Some (sm'\<lparr>num_objects_to_move := (\<lambda>cl. if 1 \<le> cl \<and> cl < num_size_classes sm'
          then NumMoveSize (InitTCMallocTransferNumObjects flag0 envval) (class_to_size sm' cl)
          else num_objects_to_move sm' cl)\<rparr>) else None)"
proof -
  let ?f = "InitTCMallocTransferNumObjects flag0 envval" and ?m = "min_span_size_for native"
  let ?sm = "sm\<lparr>min_span_size_in_pages := ?m div kPageSize\<rparr>"
  obtain sm' where sm': "Init_arrays ?f ?m ?sm = Some sm'" "size_map_inv ?f ?m sm'"
    using Init_arrays_total [OF assms(1) min_span_size_for_props [OF assms(2)], of ?sm] by (auto simp: wpo_iff)
  moreover have "ClassIndex 0 = 0" "ClassIndex kMaxSize < kClassArraySize"
    by (simp_all add: ClassIndex_bound) (simp add: ClassIndex_defs)
  ultimately show thesis
    using double_check_passes [OF sm'(2)]
    by (intro that [OF sm'(2,1)]) (simp add: SizeMap_Init_def Let_def ByteSizeForClass_def cong: if_cong)
qed

end
