(* ===== verification/SizeMapDefault.thy ===== *)
theory SizeMapDefault
  imports SizeMap
begin

text \<open>
  The size map of the default configuration (no \<^verbatim>\<open>TCMALLOC_TRANSFER_NUM_OBJ\<close>, native pages of at most
  8 KiB): \<^verbatim>\<open>SizeMap::Init\<close> of \<^verbatim>\<open>src/common.cc\<close> is run inside the logic, on a list of classes
  instead of the tables, and its table of 85 classes is carried over to the model of \<^verbatim>\<open>SizeMap\<close>.
  The properties of the size map that its clients use are stated at the end.
\<close>

section \<open>The default configuration\<close>

lemma classes_loop_step:
  "sz \<le> kMaxSize \<Longrightarrow> AlignmentForSize sz = Some a \<Longrightarrow> sz mod a = 0 \<Longrightarrow>
   span_bytes ms sz (size_of_int (c_div (NumMoveSize flag sz) 4)) 0 = Some p \<Longrightarrow> add_size sz p st = Some st' \<Longrightarrow>
   classes_loop flag ms sz st = classes_loop flag ms (sz + a) st'"
  by (subst classes_loop.simps) simp

lemma classes_loop_stop: "kMaxSize < sz \<Longrightarrow> classes_loop flag ms sz st = Some st"
  by (subst classes_loop.simps) simp

lemma span_bytes_step:
  "grow_while ms sz (w64 (p + ms)) = Some q \<Longrightarrow>
   span_bytes ms sz b p = (if q div sz < b then span_bytes ms sz b q else Some q)"
  by (subst span_bytes.simps) simp

lemma NumMoveSize_eval:
  "0 < sz \<Longrightarrow> 64 * 1024 div sz = q \<Longrightarrow> NumMoveSize flag sz = min flag (max 2 (int q))"
  by (auto simp: NumMoveSize_def Let_def)

lemma add_size_eval:
  "p div 2 ^ kPageShift = mp \<Longrightarrow> tp (sc - 1) = lp \<Longrightarrow> ts (sc - 1) = ls \<Longrightarrow>
   add_size sz p (sc, ts, tp) =
     (if sc > 1 \<and> mp = lp \<and> mp * 2 ^ kPageShift div sz = lp * 2 ^ kPageShift div ls
      then Some (sc, ts(sc - 1 := sz), tp)
      else if sc < kClassSizesMax then Some (sc + 1, ts(sc := sz), tp(sc := mp)) else None)"
  by (auto simp: add_size_def Let_def)

lemma size_alignment_eval_small: "sz < 16 \<Longrightarrow> size_alignment sz = 8" "16 \<le> sz \<Longrightarrow> sz < 128 \<Longrightarrow> size_alignment sz = 16"
  by (simp_all add: size_alignment_def)

lemma size_alignment_eval7: "128 \<le> sz \<Longrightarrow> sz < 256 \<Longrightarrow> size_alignment sz = 16"
  using size_alignment_large [of 7 sz] by simp

lemma size_alignment_eval8: "256 \<le> sz \<Longrightarrow> sz < 512 \<Longrightarrow> size_alignment sz = 32"
  using size_alignment_large [of 8 sz] by simp

lemma size_alignment_eval9: "512 \<le> sz \<Longrightarrow> sz < 1024 \<Longrightarrow> size_alignment sz = 64"
  using size_alignment_large [of 9 sz] by simp

lemma size_alignment_eval10: "1024 \<le> sz \<Longrightarrow> sz < 2048 \<Longrightarrow> size_alignment sz = 128"
  using size_alignment_large [of 10 sz] by simp

lemma size_alignment_eval11: "2048 \<le> sz \<Longrightarrow> sz < 4096 \<Longrightarrow> size_alignment sz = 256"
  using size_alignment_large [of 11 sz] by simp

lemma size_alignment_eval12: "4096 \<le> sz \<Longrightarrow> sz < 8192 \<Longrightarrow> size_alignment sz = 512"
  using size_alignment_large [of 12 sz] by simp

lemma size_alignment_eval13: "8192 \<le> sz \<Longrightarrow> sz < 16384 \<Longrightarrow> size_alignment sz = 1024"
  using size_alignment_large [of 13 sz] by simp

lemma size_alignment_eval14: "16384 \<le> sz \<Longrightarrow> sz < 32768 \<Longrightarrow> size_alignment sz = 2048"
  using size_alignment_large [of 14 sz] by simp

lemma size_alignment_eval15: "32768 \<le> sz \<Longrightarrow> sz < 65536 \<Longrightarrow> size_alignment sz = 4096"
  using size_alignment_large [of 15 sz] by simp

lemma size_alignment_eval16: "65536 \<le> sz \<Longrightarrow> sz < 131072 \<Longrightarrow> size_alignment sz = 8192"
  using size_alignment_large [of 16 sz] by simp

lemma size_alignment_eval17: "131072 \<le> sz \<Longrightarrow> sz < 262144 \<Longrightarrow> size_alignment sz = 8192"
  using size_alignment_large [of 17 sz] by simp

lemma size_alignment_eval18: "262144 \<le> sz \<Longrightarrow> sz < 524288 \<Longrightarrow> size_alignment sz = 8192"
  using size_alignment_large [of 18 sz] by simp

lemmas size_alignment_eval = size_alignment_eval_small
  size_alignment_eval7 size_alignment_eval8 size_alignment_eval9 size_alignment_eval10
  size_alignment_eval11 size_alignment_eval12 size_alignment_eval13 size_alignment_eval14
  size_alignment_eval15 size_alignment_eval16 size_alignment_eval17 size_alignment_eval18

text \<open>The loop on the list of classes, newest first, as (size, pages) pairs.\<close>

definition add_size_list :: "nat \<Rightarrow> nat \<Rightarrow> (nat \<times> nat) list \<Rightarrow> (nat \<times> nat) list" where
  "add_size_list sz mp ls = (case ls of [] \<Rightarrow> [(sz, mp)]
     | (s, lp) # r \<Rightarrow> if mp = lp \<and> mp * 2 ^ kPageShift div sz = lp * 2 ^ kPageShift div s
                     then (sz, lp) # r else (sz, mp) # ls)"

definition table_list :: "(nat \<times> nat) list \<Rightarrow> nat \<times> (nat \<Rightarrow> nat) \<times> (nat \<Rightarrow> nat) \<Rightarrow> bool" where
  "table_list ls st = (case st of (sc, ts, tp) \<Rightarrow> sc = Suc (length ls) \<and>
     (\<forall>i < length ls. ts (Suc i) = fst (rev ls ! i) \<and> tp (Suc i) = snd (rev ls ! i)))"

lemma add_size_list:
  assumes "table_list ls st" "length ls < 127"
  shows "wpo (add_size sz p st) (table_list (add_size_list sz (p div 2 ^ kPageShift) ls))"
proof -
  obtain sc ts tp where st: "st = (sc, ts, tp)" by (cases st)
  show ?thesis
  proof (cases ls)
    case Nil
    with assms st show ?thesis by (simp add: add_size_def table_list_def add_size_list_def tc_consts)
  next
    case (Cons x r)
    obtain s lp where x: "x = (s, lp)" by (cases x)
    have "ts (Suc (length r)) = s" "tp (Suc (length r)) = lp" "sc = Suc (Suc (length r))"
      and old: "\<forall>i < length r. ts (Suc i) = fst (rev r ! i) \<and> tp (Suc i) = snd (rev r ! i)"
      using assms(1) by (auto simp: table_list_def st Cons x nth_append)
    moreover have "\<not> Suc (length r) < length r" by simp
    ultimately show ?thesis
      using assms(2)
      by (simp add: add_size_def table_list_def add_size_list_def st Cons x tc_consts Let_def nth_append less_Suc_eq)
        (cases r; auto)
  qed
qed

inductive classes_run :: "int \<Rightarrow> nat \<Rightarrow> nat \<Rightarrow> nat \<Rightarrow> (nat \<times> nat) list \<Rightarrow> (nat \<times> nat) list \<Rightarrow> bool" where
  stop: "kMaxSize < sz \<Longrightarrow> classes_run flag ms k sz ls ls"
| step: "sz \<le> kMaxSize \<Longrightarrow> size_alignment sz = a \<Longrightarrow> sz mod a = 0 \<Longrightarrow>
    span_bytes ms sz (size_of_int (c_div (NumMoveSize flag sz) 4)) 0 = Some p \<Longrightarrow>
    classes_run flag ms k (sz + a) (add_size_list sz (p div 2 ^ kPageShift) ls) ls' \<Longrightarrow>
    classes_run flag ms (Suc k) sz ls ls'"

lemma classes_run_step:
  "sz \<le> kMaxSize \<Longrightarrow> size_alignment sz = a \<Longrightarrow> sz mod a = 0 \<Longrightarrow>
    span_bytes ms sz (size_of_int (c_div (NumMoveSize flag sz) 4)) 0 = Some p \<Longrightarrow>
    classes_run flag ms (Suc k) sz ls ls' =
    classes_run flag ms k (sz + a) (add_size_list sz (p div 2 ^ kPageShift) ls) ls'"
  by (auto intro: classes_run.step elim: classes_run.cases)

lemma classes_run_step_numeral:
  "sz \<le> kMaxSize \<Longrightarrow> size_alignment sz = a \<Longrightarrow> sz mod a = 0 \<Longrightarrow>
    span_bytes ms sz (size_of_int (c_div (NumMoveSize flag sz) 4)) 0 = Some p \<Longrightarrow>
    classes_run flag ms (numeral n) sz ls ls' =
    classes_run flag ms (pred_numeral n) (sz + a) (add_size_list sz (p div 2 ^ kPageShift) ls) ls'"
  by (simp add: numeral_eq_Suc [of n] classes_run_step)

lemma classes_run_stop: "kMaxSize < sz \<Longrightarrow> classes_run flag ms k sz ls ls' = (ls' = ls)"
  by (auto intro: classes_run.stop elim: classes_run.cases)

lemma classes_run_sound:
  "classes_run flag ms k sz ls ls' \<Longrightarrow> table_list ls st \<Longrightarrow> length ls + k < 128 \<Longrightarrow>
   wpo (classes_loop flag ms sz st) (table_list ls')"
proof (induction arbitrary: st rule: classes_run.induct)
  case (stop sz flag ms k ls)
  then show ?case by (simp add: classes_loop_stop)
next
  case (step sz a ms flag p k ls ls')
  have "wpo (add_size sz p st) (table_list (add_size_list sz (p div 2 ^ kPageShift) ls))"
    using step.prems by (intro add_size_list) auto
  then obtain st' where st': "add_size sz p st = Some st'"
      "table_list (add_size_list sz (p div 2 ^ kPageShift) ls) st'" by (auto simp: wpo_iff)
  have "length (add_size_list sz (p div 2 ^ kPageShift) ls) \<le> Suc (length ls)"
    by (auto simp: add_size_list_def split: list.split)
  then have "wpo (classes_loop flag ms (sz + a) st') (table_list ls')"
    using st' step.prems by (intro step.IH) auto
  then show ?case
    using step.hyps classes_loop_step [of sz a ms flag p st st'] st' AlignmentForSize_eq [of sz] by simp
qed

text \<open>The natural-alignment check on the list of classes, oldest first.\<close>

fun natural_ok :: "nat \<Rightarrow> (nat \<times> nat) list \<Rightarrow> bool" where
  "natural_ok prev [] = True"
| "natural_ok prev ((s, np) # r) =
     (list_all (\<lambda>a. prev < 8192 \<and> prev < s div a * a \<longrightarrow> s mod a = 0)
        [16, 32, 64, 128, 256, 512, 1024, 2048, 4096, 8192] \<and> natural_ok s r)"

lemma natural_ok_nth:
  "natural_ok prev ls \<Longrightarrow> i < length ls \<Longrightarrow> a \<in> {16, 32, 64, 128, 256, 512, 1024, 2048, 4096, 8192} \<Longrightarrow>
   p = (if i = 0 then prev else fst (ls ! (i - 1))) \<Longrightarrow> p < 8192 \<Longrightarrow> p < fst (ls ! i) div a * a \<Longrightarrow>
   fst (ls ! i) mod a = 0"
proof (induction prev ls arbitrary: i p rule: natural_ok.induct)
  case (2 prev s np r)
  show ?case
  proof (cases i)
    case 0
    with "2.prems" show ?thesis by auto
  next
    case (Suc j)
    have "fst (r ! j) mod a = 0"
      using "2.prems" Suc by (intro "2.IH") (auto simp: nth_Cons split: nat.split)
    with Suc show ?thesis by simp
  qed
qed simp

lemma less_10_cases:
  "i < (10::nat) \<Longrightarrow> i = 0 \<or> i = 1 \<or> i = 2 \<or> i = 3 \<or> i = 4 \<or> i = 5 \<or> i = 6 \<or> i = 7 \<or> i = 8 \<or> i = 9"
  by (simp add: eval_nat_numeral less_Suc_eq)

lemma natural_ok_sound:
  assumes inv: "size_map_inv flag ms sm"
    and tl: "table_list ls (num_size_classes sm, class_to_size sm, class_to_pages sm)"
    and ok: "natural_ok 0 (rev ls)"
  shows "natural_alignment_ok sm"
proof -
  have "class_to_size sm (SizeClass sm (k * a)) mod a = 0"
    if i: "i < 10" and a: "a = 16 * 2 ^ i" and k: "1 \<le> k" "k < 8192 div a" for i k a
  proof -
    let ?s = "k * a"
    have apos: "0 < a" "16 \<le> a" using a by simp_all
    have "Suc k * a \<le> 8192 div a * a" using k by (intro mult_le_mono) auto
    also have "\<dots> \<le> 8192" by (rule div_times_less_eq_dividend)
    finally have s: "?s < 8192" using apos by simp
    obtain c where c: "SizeClass sm ?s = c" "1 \<le> c" "c < num_size_classes sm" "?s \<le> class_to_size sm c"
        "1 < c \<longrightarrow> class_to_size sm (c - 1) < ?s"
      using size_class_exists [OF inv, of ?s] s by (auto simp: tc_consts)
    have len: "c - 1 < length (rev ls)" using c tl by (auto simp: table_list_def)
    have cur: "class_to_size sm c = fst (rev ls ! (c - 1))"
      using tl len c(2) by (auto simp: table_list_def dest!: spec [of _ "c - 1"])
    define p where "p = (if c - 1 = 0 then 0 else fst (rev ls ! (c - 1 - 1)))"
    have "p < ?s"
    proof (cases "c = 1")
      case False
      with c(2) obtain d where d: "c = Suc (Suc d)" by (metis One_nat_def Suc_le_D not0_implies_Suc)
      then have "class_to_size sm (Suc d) = fst (rev ls ! d)"
        using tl len by (auto simp: table_list_def)
      with c(5) d show ?thesis by (simp add: p_def)
    qed (use k apos in \<open>simp add: p_def\<close>)
    moreover have "?s \<le> class_to_size sm c div a * a" 
      using c(4) apos by (metis div_le_mono div_mult_self_is_m mult_le_mono1)
    moreover have "a \<in> {16, 32, 64, 128, 256, 512, 1024, 2048, 4096, 8192}"
      using less_10_cases [OF i] a by (elim disjE) simp_all
    ultimately have "fst (rev ls ! (c - 1)) mod a = 0"
      using s by (intro natural_ok_nth [OF ok len _ p_def]) (auto simp: cur)
    then show ?thesis by (simp add: c cur)
  qed
  then show ?thesis
    by (auto simp: natural_alignment_ok_def list_all_iff tc_consts)
qed

definition default_class_list :: "(nat \<times> nat) list" where
  "default_class_list = rev
    [(8, 1), (16, 1), (32, 1), (48, 1), (64, 1), (80, 1), (96, 1), (112, 1), (128, 1), (144, 1), (160, 1),
     (176, 1), (192, 1), (208, 1), (224, 1), (240, 1), (256, 1), (288, 1), (320, 1), (352, 1), (384, 1),
     (416, 1), (448, 1), (480, 1), (512, 1), (576, 1), (640, 1), (704, 1), (768, 1), (896, 1), (1024, 1),
     (1152, 2), (1280, 2), (1408, 2), (1536, 2), (1792, 2), (2048, 2), (2304, 2), (2560, 2), (2816, 3),
     (3072, 2), (3328, 3), (4096, 2), (4608, 3), (5120, 2), (6144, 3), (6656, 5), (8192, 2), (9216, 5),
     (10240, 4), (12288, 3), (13312, 5), (16384, 2), (20480, 5), (24576, 3), (26624, 7), (32768, 4),
     (40960, 5), (49152, 6), (57344, 7), (65536, 8), (73728, 9), (81920, 10), (90112, 11), (98304, 12),
     (106496, 13), (114688, 14), (122880, 15), (131072, 16), (139264, 17), (147456, 18), (155648, 19),
     (163840, 20), (172032, 21), (180224, 22), (188416, 23), (196608, 24), (204800, 25), (212992, 26),
     (221184, 27), (229376, 28), (237568, 29), (245760, 30), (253952, 31), (262144, 32)]"

lemma default_classes: "classes_run 32 8192 105 8 [] default_class_list"
  by (simp add: classes_run_step_numeral classes_run_step classes_run_stop span_bytes_step grow_while.simps
    size_alignment_eval NumMoveSize_eval add_size_list_def tc_consts default_class_list_def)

lemma default_natural_ok: "natural_ok 0 (rev default_class_list)"
  by (simp add: default_class_list_def)

lemma default_init_arrays:
  assumes "Init_arrays 32 8192 sm = Some sm'"
  shows "table_list default_class_list (num_size_classes sm', class_to_size sm', class_to_pages sm')"
proof -
  have "table_list [] (1, class_to_size sm, class_to_pages sm)" by (simp add: table_list_def)
  then have "wpo (classes_loop 32 8192 kAlignment (1, class_to_size sm, class_to_pages sm)) (table_list default_class_list)"
    using classes_run_sound [OF default_classes] by (simp add: kAlignment_def)
  then show ?thesis
    using assms by (auto simp: Init_arrays_def wpo_iff)
qed

lemma default_flag: "InitTCMallocTransferNumObjects 0 None = 32"
  by (simp add: InitTCMallocTransferNumObjects_def kDefaultTransferNumObjecs_def)

lemma default_min_span: "native \<le> kPageSize \<Longrightarrow> min_span_size_for native = 8192"
  by (simp add: min_span_size_for_def tc_consts max_def)

lemma default_SizeMap_Init:
  assumes "native \<le> kPageSize"
  obtains sm' where "SizeMap_Init 0 None native sm = Some sm'"
    "table_list default_class_list (num_size_classes sm', class_to_size sm', class_to_pages sm')"
proof -
  have "(0::int) \<le> 32" "native \<le> 2 ^ 40"
    using assms by (simp_all add: tc_consts)
  then obtain sm' where sm': "size_map_inv 32 8192 sm'"
      "Init_arrays 32 8192 (sm\<lparr>min_span_size_in_pages := 8192 div kPageSize\<rparr>) = Some sm'"
      "SizeMap_Init 0 None native sm = (if natural_alignment_ok sm' then
       Some (sm'\<lparr>num_objects_to_move := (\<lambda>cl. if 1 \<le> cl \<and> cl < num_size_classes sm'
          then NumMoveSize 32 (class_to_size sm' cl) else num_objects_to_move sm' cl)\<rparr>) else None)"
    by (rule SizeMap_Init_cases [of 0 None native sm, unfolded default_min_span [OF assms] default_flag])
  note tl = default_init_arrays [OF sm'(2)]
  show thesis
    by (rule that, subst sm'(3), subst if_P [OF natural_ok_sound [OF sm'(1) tl default_natural_ok]], rule refl)
      (use tl in simp)
qed

section \<open>Properties\<close>

lemma size_map_inv_num_objects:
  "size_map_inv flag ms (sm\<lparr>num_objects_to_move := f\<rparr>) = size_map_inv flag ms sm"
  by (simp add: size_map_inv_def SizeClass_def)

lemma natural_alignment_num_objects:
  "natural_alignment_ok (sm\<lparr>num_objects_to_move := f\<rparr>) = natural_alignment_ok sm"
  by (simp add: natural_alignment_ok_def SizeClass_def)

lemma SizeMap_Init_facts:
  assumes "SizeMap_Init flag0 envval native sm = Some sm'"
    and "0 \<le> InitTCMallocTransferNumObjects flag0 envval" "native \<le> 2 ^ 40"
  shows SizeMap_Init_inv:
      "size_map_inv (InitTCMallocTransferNumObjects flag0 envval) (min_span_size_for native) sm'"
    and SizeMap_Init_natural: "natural_alignment_ok sm'"
    and SizeMap_Init_moves: "\<And>c. 1 \<le> c \<Longrightarrow> c < num_size_classes sm' \<Longrightarrow> num_objects_to_move sm' c =
       NumMoveSize (InitTCMallocTransferNumObjects flag0 envval) (class_to_size sm' c)"
proof -
  let ?f = "InitTCMallocTransferNumObjects flag0 envval"
  let ?upd = "\<lambda>sm''. sm''\<lparr>num_objects_to_move := (\<lambda>cl. if 1 \<le> cl \<and> cl < num_size_classes sm''
          then NumMoveSize ?f (class_to_size sm'' cl) else num_objects_to_move sm'' cl)\<rparr>"
  obtain sm'' where sm'': "size_map_inv ?f (min_span_size_for native) sm''"
      "SizeMap_Init flag0 envval native sm = (if natural_alignment_ok sm'' then Some (?upd sm'') else None)"
    using assms(2,3) by (rule SizeMap_Init_cases)
  with assms(1) have upd: "sm' = ?upd sm''" and nat: "natural_alignment_ok sm''"
    by (simp_all split: if_splits)
  show "size_map_inv ?f (min_span_size_for native) sm'" "natural_alignment_ok sm'"
    using sm''(1) nat unfolding upd by (simp_all only: size_map_inv_num_objects natural_alignment_num_objects)
  show "num_objects_to_move sm' c = NumMoveSize ?f (class_to_size sm' c)"
    if "1 \<le> c" "c < num_size_classes sm'" for c
    using that unfolding upd by simp
qed

lemma GetSizeClass_SizeClass:
  "GetSizeClass sm s = (if s \<le> kMaxSize then Some (SizeClass sm s) else None)"
  by (auto simp: GetSizeClass_def ClassIndexMaybe_def SizeClass_def ClassIndex_defs)

definition zero_size_map :: size_map where
  "zero_size_map = \<lparr>class_array = (\<lambda>_. 0), num_objects_to_move = (\<lambda>_. 0), class_to_size = (\<lambda>_. 0),
     class_to_pages = (\<lambda>_. 0), min_span_size_in_pages = 0, num_size_classes = 0\<rparr>"

lemma default_exists: "\<exists>sm'. SizeMap_Init 0 None 4096 zero_size_map = Some sm'"
  by (rule default_SizeMap_Init [of 4096 zero_size_map]) (simp add: tc_consts, blast)

lemma size_table_mono:
  assumes "size_table ts n" "1 \<le> c" "c \<le> d" "d < n"
  shows "ts c \<le> ts d"
proof (cases "c = d")
  case False
  then have "c < d" using assms by simp
  then have "ts c < ts d" by (rule size_table_less [OF assms(1,2) _ assms(4)])
  then show ?thesis by simp
qed simp

lemma size_table_below:
  assumes "size_table ts n" "c < n"
  shows "(1 < c \<longrightarrow> ts (c - 1) < s) \<longleftrightarrow> (\<forall>d. 1 \<le> d \<and> d < c \<longrightarrow> ts d < s)"
proof
  assume *: "1 < c \<longrightarrow> ts (c - 1) < s"
  show "\<forall>d. 1 \<le> d \<and> d < c \<longrightarrow> ts d < s"
  proof (intro allI impI)
    fix d assume d: "1 \<le> d \<and> d < c"
    then have "d \<le> c - 1" "c - 1 < n" "1 < c" using assms(2) by auto
    then have "ts d \<le> ts (c - 1)" using d by (intro size_table_mono [OF assms(1)]) blast+
    also have "\<dots> < s" using * \<open>1 < c\<close> by blast
    finally show "ts d < s" .
  qed
next
  assume "\<forall>d. 1 \<le> d \<and> d < c \<longrightarrow> ts d < s"
  from spec [OF this, of "c - 1"] show "1 < c \<longrightarrow> ts (c - 1) < s" by auto
qed

lemma SizeClass_iff:
  assumes inv: "size_map_inv flag min_span sm" and "s \<le> kMaxSize"
  shows "SizeClass sm s = c \<longleftrightarrow> 1 \<le> c \<and> c < num_size_classes sm \<and> s \<le> class_to_size sm c \<and>
      (1 < c \<longrightarrow> class_to_size sm (c - 1) < s)" (is "_ \<longleftrightarrow> ?R c")
proof
  assume "SizeClass sm s = c"
  then show "?R c" by (auto intro: size_class_exists [OF assms])
next
  assume "?R c"
  then show "SizeClass sm s = c" using inv unfolding size_map_inv_def by blast
qed

lemma size_map_inv_max:
  assumes "size_map_inv flag min_span sm" "1 \<le> c" "c < num_size_classes sm"
  shows "class_to_size sm c \<le> kMaxSize"
  using assms size_table_mono [of "class_to_size sm" "num_size_classes sm" c "num_size_classes sm - 1"]
  by (simp add: size_map_inv_def)

lemma GetSizeClass_iff:
  assumes inv: "size_map_inv flag min_span sm"
  shows "GetSizeClass sm s = Some c \<longleftrightarrow> 1 \<le> c \<and> c < num_size_classes sm \<and> s \<le> class_to_size sm c \<and>
      (\<forall>d. 1 \<le> d \<and> d < c \<longrightarrow> class_to_size sm d < s)" (is "_ \<longleftrightarrow> ?R")
proof (cases "s \<le> kMaxSize")
  case True
  have table: "size_table (class_to_size sm) (num_size_classes sm)" using inv by (simp add: size_map_inv_def)
  have "GetSizeClass sm s = Some c \<longleftrightarrow> SizeClass sm s = c" using True by (simp add: GetSizeClass_SizeClass)
  also have "\<dots> \<longleftrightarrow> ?R"
    unfolding SizeClass_iff [OF inv True] using size_table_below [OF table, of c s] by blast
  finally show ?thesis .
next
  case False
  with size_map_inv_max [OF inv, of c] show ?thesis by (auto simp: GetSizeClass_SizeClass)
qed

text \<open>
  C11. Best fit: once \<^verbatim>\<open>SizeMap::Init\<close> has succeeded, \<^verbatim>\<open>GetSizeClass\<close> answers for exactly the sizes up
  to \<^verbatim>\<open>kMaxSize\<close> = 256 KiB, and its answer is the smallest class whose objects are large enough.
\<close>

theorem size_class_best_fit:
  assumes "SizeMap_Init flag0 envval native sm = Some sm'"
    and "0 \<le> InitTCMallocTransferNumObjects flag0 envval" "native \<le> 2 ^ 40"
  shows "GetSizeClass sm' s = Some c \<longleftrightarrow>
    1 \<le> c \<and> c < num_size_classes sm' \<and> s \<le> ByteSizeForClass sm' c \<and>
    (\<forall>d. 1 \<le> d \<and> d < c \<longrightarrow> ByteSizeForClass sm' d < s)"
  unfolding ByteSizeForClass_def by (rule GetSizeClass_iff [OF SizeMap_Init_inv [OF assms]])

theorem size_class_best_fit_witness:
  "\<exists>sm'. SizeMap_Init 0 None 4096 zero_size_map = Some sm' \<and>
     (GetSizeClass sm' 100 = Some 8 \<longleftrightarrow> 1 \<le> (8::nat) \<and> 8 < num_size_classes sm' \<and>
      100 \<le> ByteSizeForClass sm' 8 \<and> (\<forall>d. 1 \<le> d \<and> d < 8 \<longrightarrow> ByteSizeForClass sm' d < 100))"
proof -
  obtain sm' where sm': "SizeMap_Init 0 None 4096 zero_size_map = Some sm'" using default_exists by blast
  show ?thesis
    by (intro exI [of _ sm'] conjI sm' size_class_best_fit [OF sm']) (simp_all add: default_flag)
qed

text \<open>
  C12. Spans of a class: in every initialised size map a span of class \<open>c\<close> is a whole number of minimum
  spans, holds at least one object and at least a quarter of a transfer batch, and wastes at most one
  eighth of its bytes; the batch itself has at least 2 objects when the flag allows it and never
  more than the flag.
\<close>

theorem span_of_class_ok:
  assumes "SizeMap_Init flag0 envval native sm = Some sm'"
    and "0 \<le> InitTCMallocTransferNumObjects flag0 envval" "native \<le> 2 ^ 40"
    and "1 \<le> c" "c < num_size_classes sm'"
  shows "let bytes = class_to_pages sm' c * kPageSize; obj = ByteSizeForClass sm' c;
             batch = num_objects_to_move sm' c
         in min_span_size_for native dvd bytes \<and> 1 \<le> bytes div obj \<and> bytes mod obj \<le> bytes div 8 \<and>
            batch div 4 \<le> int (bytes div obj) \<and>
            min 2 (InitTCMallocTransferNumObjects flag0 envval) \<le> batch \<and>
            batch \<le> InitTCMallocTransferNumObjects flag0 envval"
proof -
  let ?t = "class_to_size sm' c" and ?f = "InitTCMallocTransferNumObjects flag0 envval"
  note inv = SizeMap_Init_inv [OF assms(1-3)]
  have t: "0 < ?t" and span: "class_span_ok ?f (min_span_size_for native) ?t (class_to_pages sm' c)"
    using inv assms(4,5) by (simp_all add: size_map_inv_def size_table_def good_size_def)
  then have "1 \<le> class_to_pages sm' c * kPageSize div ?t"
    by (simp add: class_span_ok_def Let_def Suc_le_eq div_greater_zero_iff)
  with span show ?thesis
    using NumMoveSize_bounds(1,2) [OF t, of ?f] SizeMap_Init_moves [OF assms]
    by (simp add: class_span_ok_def Let_def ByteSizeForClass_def)
qed

theorem span_of_class_ok_witness:
  "\<exists>sm'. SizeMap_Init 0 None 4096 zero_size_map = Some sm' \<and> 8 < num_size_classes sm' \<and>
     (let bytes = class_to_pages sm' 8 * kPageSize; obj = ByteSizeForClass sm' 8;
          batch = num_objects_to_move sm' 8
      in min_span_size_for 4096 dvd bytes \<and> 1 \<le> bytes div obj \<and> bytes mod obj \<le> bytes div 8 \<and>
         batch div 4 \<le> int (bytes div obj) \<and> min 2 (InitTCMallocTransferNumObjects 0 None) \<le> batch \<and>
         batch \<le> InitTCMallocTransferNumObjects 0 None)"
proof -
  obtain sm' where sm': "SizeMap_Init 0 None 4096 zero_size_map = Some sm'"
      "table_list default_class_list (num_size_classes sm', class_to_size sm', class_to_pages sm')"
    by (rule default_SizeMap_Init [of 4096 zero_size_map]) (simp add: tc_consts)
  then have n: "8 < num_size_classes sm'" by (simp add: table_list_def default_class_list_def)
  show ?thesis
    by (intro exI [of _ sm'] conjI sm'(1) n span_of_class_ok [OF sm'(1)]) (simp_all add: default_flag n)
qed



text \<open>
  C14. The sanity checks of \<^verbatim>\<open>SizeMap::Init\<close>: with a non-negative transfer flag the loops of \<^verbatim>\<open>Init\<close> end, no
  table is overrun and no check fires except possibly the natural-alignment check; with the defaults
  that one passes too and \<^verbatim>\<open>Init\<close> yields the 85 classes of the shipped configuration.
\<close>

theorem default_init_succeeds:
  assumes "native \<le> kPageSize"
  shows "\<exists>sm'. SizeMap_Init 0 None native sm = Some sm' \<and> num_size_classes sm' = 86 \<and>
    (\<forall>i < 85. (class_to_size sm' (Suc i), class_to_pages sm' (Suc i)) = rev default_class_list ! i)"
proof -
  obtain sm' where "SizeMap_Init 0 None native sm = Some sm'"
      "table_list default_class_list (num_size_classes sm', class_to_size sm', class_to_pages sm')"
    using assms by (rule default_SizeMap_Init)
  moreover have "length default_class_list = 85" by (simp add: default_class_list_def)
  ultimately show ?thesis by (auto simp: table_list_def)
qed

theorem default_init_succeeds_witness:
  "\<exists>sm'. SizeMap_Init 0 None 4096 zero_size_map = Some sm' \<and> num_size_classes sm' = 86 \<and>
    (\<forall>i < 85. (class_to_size sm' (Suc i), class_to_pages sm' (Suc i)) = rev default_class_list ! i)"
  by (rule default_init_succeeds) (simp add: tc_consts)

end
