(* ===== verification/SystemAlloc.thy ===== *)
theory SystemAlloc
  imports SizeMap
begin

unbundle bit_operations_syntax

text \<open>
  Memory from the operating system: \<^verbatim>\<open>src/system-alloc.cc\<close> with \<^verbatim>\<open>SbrkSysAllocator\<close>, \<^verbatim>\<open>MmapSysAllocator\<close>,
  \<^verbatim>\<open>DefaultSysAllocator\<close>, \<^verbatim>\<open>TCMalloc_SystemAlloc\<close> and \<^verbatim>\<open>TCMalloc_SystemRelease\<close>.

  The system calls are a parameter, the record \<open>env\<close> of functions on a state of the operating system, together
  with the command line flags of the allocator.  What the code relies on is the predicate \<open>os_sane\<close>: a
  successful \<^verbatim>\<open>sbrk\<close> or \<^verbatim>\<open>mmap\<close> yields bytes that the process did not own, \<^verbatim>\<open>munmap\<close> gives bytes back,
  \<^verbatim>\<open>madvise\<close> changes no ownership, and user addresses have at most \<open>kAddressBits\<close> bits.  The main lemma is
  that \<^verbatim>\<open>TCMalloc_SystemAlloc\<close> returns an aligned region of at least the requested size which nobody owned.
\<close>

datatype madvise_result = Madv_ok | Madv_again | Madv_error

record 'o env =
  os_sbrk :: "'o \<Rightarrow> nat \<Rightarrow> nat option \<times> 'o"
  os_break :: "'o \<Rightarrow> nat"
  os_mmap :: "'o \<Rightarrow> nat \<Rightarrow> nat \<Rightarrow> nat option \<times> 'o"
  os_munmap :: "'o \<Rightarrow> nat \<Rightarrow> nat \<Rightarrow> 'o"
  os_madvise :: "'o \<Rightarrow> nat \<Rightarrow> nat \<Rightarrow> madvise_result \<times> 'o"
  os_getpagesize :: nat
  FLAGS_malloc_skip_sbrk :: bool
  FLAGS_malloc_skip_mmap :: bool
  FLAGS_malloc_disable_memory_release :: bool
  FLAGS_tcmalloc_heap_limit_mb :: nat
  release_rate_num :: nat
  release_rate_den :: nat

text \<open>The static state: the operating system, the hint of the mmap allocator, \<^verbatim>\<open>failed_\<close>, \<^verbatim>\<open>TCMalloc_SystemTaken\<close>.\<close>

record 'o sys =
  sys_os :: 'o
  mmap_hint :: nat
  failed_sbrk :: bool
  failed_mmap :: bool
  SystemTaken :: nat

definition sizeof_MemoryAligner :: nat where [tc_consts]: "sizeof_MemoryAligner = 64"

definition CheckAddressBits :: "nat \<Rightarrow> bool" where
  "CheckAddressBits ptr \<longleftrightarrow> drop_bit kAddressBits ptr = 0"

section \<open>The allocators\<close>

text \<open>
  A result is the address, if any, with the actual size, and the new state.  \<^verbatim>\<open>ptr & (alignment - 1)\<close> is written
  with the bitwise operation of the source.  \<open>sbrk_aligned\<close> is the part of the function after the size has
  been rounded up.
\<close>

definition sbrk_aligned :: "'o env \<Rightarrow> 'o sys \<Rightarrow> nat \<Rightarrow> nat \<Rightarrow> (nat \<times> nat) option \<times> 'o sys" where
  "sbrk_aligned env s sz alignment =
     (if w64 (os_break env (sys_os s) + sz) < sz then (None, s)
      else (case os_sbrk env (sys_os s) sz of
          (None, o1) \<Rightarrow> (None, s\<lparr>sys_os := o1\<rparr>)
        | (Some ptr, o1) \<Rightarrow>
            (if ptr AND (alignment - 1) = 0 then (Some (ptr, sz), s\<lparr>sys_os := o1\<rparr>)
             else (case os_sbrk env o1 (alignment - (ptr AND (alignment - 1))) of (r2, o2) \<Rightarrow>
               if r2 = Some (ptr + sz)
               then (Some (ptr + (alignment - (ptr AND (alignment - 1))), sz), s\<lparr>sys_os := o2\<rparr>)
               else (case os_sbrk env o2 (sz + alignment - 1) of
                   (None, o3) \<Rightarrow> (None, s\<lparr>sys_os := o3\<rparr>)
                 | (Some ptr, o3) \<Rightarrow>
                     (Some (if ptr AND (alignment - 1) \<noteq> 0
                            then ptr + (alignment - (ptr AND (alignment - 1))) else ptr, sz),
                      s\<lparr>sys_os := o3\<rparr>))))))"

definition SbrkSysAllocator_Alloc :: "'o env \<Rightarrow> 'o sys \<Rightarrow> nat \<Rightarrow> nat \<Rightarrow> (nat \<times> nat) option \<times> 'o sys" where
  "SbrkSysAllocator_Alloc env s sz alignment =
     (if FLAGS_malloc_skip_sbrk env then (None, s)
      else if w64 (sz + alignment) \<ge> 2 ^ 63 then (None, s)
      else sbrk_aligned env s ((sz + alignment - 1) div alignment * alignment) alignment)"

text \<open>The attempt to continue the previous mapping.\<close>

definition mmap_with_hint :: "'o env \<Rightarrow> 'o sys \<Rightarrow> nat \<Rightarrow> nat \<Rightarrow> nat option \<times> 'o sys" where
  "mmap_with_hint env s sz alignment =
     (if mmap_hint s \<noteq> 0 \<and> w64 (mmap_hint s + sz) > sz \<and> mmap_hint s AND (alignment - 1) = 0 then
        case os_mmap env (sys_os s) (mmap_hint s) sz of
          (None, o1) \<Rightarrow> (None, s\<lparr>sys_os := o1\<rparr>)
        | (Some p, o1) \<Rightarrow>
            if p AND (alignment - 1) \<noteq> 0 then (None, s\<lparr>sys_os := os_munmap env o1 p sz\<rparr>)
            else (Some p, s\<lparr>sys_os := o1, mmap_hint := p + sz\<rparr>)
      else (None, s))"

text \<open>The full logic: map enough to find an aligned part and unmap the rest.\<close>

definition mmap_trimmed :: "'o env \<Rightarrow> 'o sys \<Rightarrow> nat \<Rightarrow> nat \<Rightarrow> nat option \<times> 'o sys" where
  "mmap_trimmed env s sz alignment =
     (let pagesize = os_getpagesize env;
          extra = (if alignment > pagesize then alignment - pagesize else 0)
      in (case os_mmap env (sys_os s) 0 (sz + extra) of
            (None, o1) \<Rightarrow> (None, s\<lparr>sys_os := o1\<rparr>)
          | (Some ptr, o1) \<Rightarrow>
              (let adjust = (if ptr AND (alignment - 1) \<noteq> 0 then alignment - (ptr AND (alignment - 1)) else 0);
                   o2 = (if adjust > 0 then os_munmap env o1 ptr adjust else o1);
                   o3 = (if adjust < extra then os_munmap env o2 (ptr + adjust + sz) (extra - adjust) else o2)
               in (Some (ptr + adjust), s\<lparr>sys_os := o3, mmap_hint := ptr + adjust + sz\<rparr>))))"

definition MmapSysAllocator_Alloc :: "'o env \<Rightarrow> 'o sys \<Rightarrow> nat \<Rightarrow> nat \<Rightarrow> (nat \<times> nat) option \<times> 'o sys" where
  "MmapSysAllocator_Alloc env s sz alignment =
     (if FLAGS_malloc_skip_mmap env then (None, s)
      else
        let pagesize = os_getpagesize env;
            alignment = (if alignment < pagesize then pagesize else alignment);
            aligned_size = w64 (sz + alignment + (2 ^ 64 - 1)) div alignment * alignment
        in if aligned_size < sz then (None, s)
           else (case mmap_with_hint env s aligned_size alignment of
               (Some p, s) \<Rightarrow> (Some (p, aligned_size), s)
             | (None, s) \<Rightarrow>
                 (case mmap_trimmed env s aligned_size alignment of
                    (None, s) \<Rightarrow> (None, s)
                  | (Some p, s) \<Rightarrow> (Some (p, aligned_size), s))))"

text \<open>
  \<^verbatim>\<open>DefaultSysAllocator::Alloc\<close> with the children in the order of \<^verbatim>\<open>InitSystemAllocators\<close> without debug mode: \<^verbatim>\<open>sbrk\<close>,
  then \<^verbatim>\<open>mmap\<close>.
\<close>

definition DefaultSysAllocator_Alloc :: "'o env \<Rightarrow> 'o sys \<Rightarrow> nat \<Rightarrow> nat \<Rightarrow> (nat \<times> nat) option \<times> 'o sys" where
  "DefaultSysAllocator_Alloc env s sz alignment =
     (let (r1, s) = (if failed_sbrk s then (None, s) else SbrkSysAllocator_Alloc env s sz alignment)
      in if r1 \<noteq> None then (r1, s)
         else let s = s\<lparr>failed_sbrk := True\<rparr>;
                  (r2, s) = (if failed_mmap s then (None, s) else MmapSysAllocator_Alloc env s sz alignment)
              in if r2 \<noteq> None then (r2, s)
                 else (None, s\<lparr>failed_sbrk := False, failed_mmap := False\<rparr>))"

text \<open>A failing \<^verbatim>\<open>CHECK_CONDITION(CheckAddressBits(...))\<close> is \<^term>\<open>None\<close>.\<close>

definition TCMalloc_SystemAlloc :: "'o env \<Rightarrow> 'o sys \<Rightarrow> nat \<Rightarrow> nat \<Rightarrow> ((nat \<times> nat) option \<times> 'o sys) option" where
  "TCMalloc_SystemAlloc env s sz alignment =
     (if w64 (sz + alignment) < sz then Some (None, s)
      else
        let alignment = (if alignment < sizeof_MemoryAligner then sizeof_MemoryAligner else alignment)
        in case DefaultSysAllocator_Alloc env s sz alignment of
             (None, s) \<Rightarrow> Some (None, s)
           | (Some (ptr, actual_size), s) \<Rightarrow>
               if CheckAddressBits (ptr + actual_size - 1)
               then Some (Some (ptr, actual_size), s\<lparr>SystemTaken := w64 (SystemTaken s + actual_size)\<rparr>)
               else None)"

text \<open>The \<^verbatim>\<open>do ... while (!result && retry)\<close> loop, which goes on while the kernel answers \<^verbatim>\<open>EAGAIN\<close>.\<close>

partial_function (option) madvise_retry :: "'o env \<Rightarrow> 'o \<Rightarrow> nat \<Rightarrow> nat \<Rightarrow> (bool \<times> 'o) option" where
  "madvise_retry env os new_start len =
     (case os_madvise env os new_start len of
        (Madv_ok, os) \<Rightarrow> Some (True, os)
      | (Madv_error, os) \<Rightarrow> Some (False, os)
      | (Madv_again, os) \<Rightarrow> madvise_retry env os new_start len)"

definition TCMalloc_SystemRelease :: "'o env \<Rightarrow> 'o sys \<Rightarrow> nat \<Rightarrow> nat \<Rightarrow> (bool \<times> 'o sys) option" where
  "TCMalloc_SystemRelease env s start len =
     (if FLAGS_malloc_disable_memory_release env then Some (False, s)
      else
        let pagesize = os_getpagesize env;
            pagemask = pagesize - 1;
            new_start = start + pagesize - 1 - ((start + pagesize - 1) AND pagemask);
            new_end = start + len - ((start + len) AND pagemask)
        in if new_end > new_start
           then do { (r, o1) \<leftarrow> madvise_retry env (sys_os s) new_start (new_end - new_start);
                     Some (r, s\<lparr>sys_os := o1\<rparr>) }
           else Some (False, s))"

section \<open>What the operating system promises\<close>

definition os_sane :: "'o env \<Rightarrow> ('o \<Rightarrow> nat set) \<Rightarrow> bool" where
  "os_sane env owned \<longleftrightarrow>
     (\<forall>o1 n p o2. os_sbrk env o1 n = (Some p, o2) \<longrightarrow> p \<noteq> 0 \<and> p + n \<le> 2 ^ kAddressBits \<and>
        {p..<p + n} \<inter> owned o1 = {} \<and> owned o2 = owned o1 \<union> {p..<p + n}) \<and>
     (\<forall>o1 n o2. os_sbrk env o1 n = (None, o2) \<longrightarrow> owned o2 = owned o1) \<and>
     (\<forall>o1 h n p o2. os_mmap env o1 h n = (Some p, o2) \<longrightarrow> p \<noteq> 0 \<and> p + n \<le> 2 ^ kAddressBits \<and>
        os_getpagesize env dvd p \<and> {p..<p + n} \<inter> owned o1 = {} \<and> owned o2 = owned o1 \<union> {p..<p + n}) \<and>
     (\<forall>o1 h n o2. os_mmap env o1 h n = (None, o2) \<longrightarrow> owned o2 = owned o1) \<and>
     (\<forall>o1 p n. owned (os_munmap env o1 p n) = owned o1 - {p..<p + n}) \<and>
     (\<forall>o1 p n r o2. os_madvise env o1 p n = (r, o2) \<longrightarrow> owned o2 = owned o1) \<and>
     (\<exists>k < 48. os_getpagesize env = 2 ^ k)"

text \<open>The region \<open>[ptr, ptr + act)\<close> is new in \<open>B\<close> with respect to the bytes \<open>A\<close> owned before.\<close>

definition fresh_region :: "nat set \<Rightarrow> nat set \<Rightarrow> nat \<Rightarrow> nat \<Rightarrow> nat \<Rightarrow> nat \<Rightarrow> bool" where
  "fresh_region A B sz al ptr act \<longleftrightarrow> ptr \<noteq> 0 \<and> al dvd ptr \<and> sz \<le> act \<and> al dvd act \<and>
     ptr + act \<le> 2 ^ kAddressBits \<and> {ptr..<ptr + act} \<inter> A = {} \<and> {ptr..<ptr + act} \<subseteq> B"

definition alloc_spec :: "nat set \<Rightarrow> nat set \<Rightarrow> nat \<Rightarrow> nat \<Rightarrow> (nat \<times> nat) option \<Rightarrow> bool" where
  "alloc_spec A B sz al r \<longleftrightarrow> A \<subseteq> B \<and> (\<forall>ptr act. r = Some (ptr, act) \<longrightarrow> fresh_region A B sz al ptr act)"

lemma os_saneD:
  assumes "os_sane env owned"
  shows sbrk_Some: "os_sbrk env o1 n = (Some p, o2) \<Longrightarrow> p \<noteq> 0 \<and> p + n \<le> 2 ^ kAddressBits \<and>
        {p..<p + n} \<inter> owned o1 = {} \<and> owned o2 = owned o1 \<union> {p..<p + n}"
    and sbrk_None: "os_sbrk env o1 n = (None, o2) \<Longrightarrow> owned o2 = owned o1"
    and mmap_Some: "os_mmap env o1 h n = (Some p, o2) \<Longrightarrow> p \<noteq> 0 \<and> p + n \<le> 2 ^ kAddressBits \<and>
        os_getpagesize env dvd p \<and> {p..<p + n} \<inter> owned o1 = {} \<and> owned o2 = owned o1 \<union> {p..<p + n}"
    and mmap_None: "os_mmap env o1 h n = (None, o2) \<Longrightarrow> owned o2 = owned o1"
    and munmap_owned: "owned (os_munmap env o1 p n) = owned o1 - {p..<p + n}"
    and madvise_owned: "os_madvise env o1 p n = (r, o2) \<Longrightarrow> owned o2 = owned o1"
    and pagesize_pow2: "\<exists>k < 48. os_getpagesize env = 2 ^ k"
proof -
  note s = assms [unfolded os_sane_def]
  show "os_sbrk env o1 n = (Some p, o2) \<Longrightarrow> p \<noteq> 0 \<and> p + n \<le> 2 ^ kAddressBits \<and>
        {p..<p + n} \<inter> owned o1 = {} \<and> owned o2 = owned o1 \<union> {p..<p + n}"
    by (rule s [THEN conjunct1, rule_format])
  note s = s [THEN conjunct2]
  show "os_sbrk env o1 n = (None, o2) \<Longrightarrow> owned o2 = owned o1" by (rule s [THEN conjunct1, rule_format])
  note s = s [THEN conjunct2]
  show "os_mmap env o1 h n = (Some p, o2) \<Longrightarrow> p \<noteq> 0 \<and> p + n \<le> 2 ^ kAddressBits \<and>
        os_getpagesize env dvd p \<and> {p..<p + n} \<inter> owned o1 = {} \<and> owned o2 = owned o1 \<union> {p..<p + n}"
    by (rule s [THEN conjunct1, rule_format])
  note s = s [THEN conjunct2]
  show "os_mmap env o1 h n = (None, o2) \<Longrightarrow> owned o2 = owned o1" by (rule s [THEN conjunct1, rule_format])
  note s = s [THEN conjunct2]
  show "owned (os_munmap env o1 p n) = owned o1 - {p..<p + n}" by (rule s [THEN conjunct1, rule_format])
  note s = s [THEN conjunct2]
  show "os_madvise env o1 p n = (r, o2) \<Longrightarrow> owned o2 = owned o1" by (rule s [THEN conjunct1, rule_format])
  show "\<exists>k < 48. os_getpagesize env = 2 ^ k" by (rule s [THEN conjunct2])
qed

lemmas and_pred_simps = and_exp_pred and_exp_pred [unfolded One_nat_def]

lemma align_up_mod:
  assumes "0 < (a::nat)" "p mod a \<noteq> 0"
  shows "a dvd p + (a - p mod a)"
proof -
  have "p + (a - p mod a) = p div a * a + a"
    using mod_less_divisor [OF assms(1), of p] div_mult_mod_eq [of p a] by linarith
  then show ?thesis by simp
qed

lemma sbrk_aligned_spec:
  assumes sane: "os_sane env owned" and al: "al = 2 ^ k" and sz: "al dvd sz"
    and res: "sbrk_aligned env s sz al = (r, s')"
  shows "alloc_spec (owned (sys_os s)) (owned (sys_os s')) sz al r"
proof -
  have pos: "0 < al" using al by simp
  have mask: "\<And>p. p AND (al - 1) = p mod al" unfolding al by (rule and_exp_pred)
  note res' = res [unfolded sbrk_aligned_def mask]
  obtain r1 o1 where b1: "os_sbrk env (sys_os s) sz = (r1, o1)" by fastforce
  show ?thesis
  proof (cases "w64 (os_break env (sys_os s) + sz) < sz \<or> r1 = None")
    case True
    with res' b1 have "r = None \<and> (s' = s \<or> r1 = None \<and> s' = s\<lparr>sys_os := o1\<rparr>)" by (auto split: if_splits)
    with b1 sbrk_None [OF sane, of "sys_os s" sz o1] show ?thesis by (auto simp: alloc_spec_def)
  next
    case False
    then obtain p where r1: "r1 = Some p" by auto
    note f1 = sbrk_Some [OF sane b1 [unfolded r1]]
    show ?thesis
    proof (cases "p mod al = 0")
      case True
      with res' False b1 r1 have "r = Some (p, sz)" "s' = s\<lparr>sys_os := o1\<rparr>" by simp_all
      with f1 sz True show ?thesis by (auto simp: alloc_spec_def fresh_region_def)
    next
      case unal: False
      define extra where "extra = al - p mod al"
      have extra: "al dvd p + extra" using align_up_mod [OF pos unal] by (simp add: extra_def)
      obtain r2 o2 where b2: "os_sbrk env o1 extra = (r2, o2)" by fastforce
      have mono2: "owned o1 \<subseteq> owned o2" using sbrk_Some [OF sane] sbrk_None [OF sane] b2 by (cases r2) auto
      note res2 = res' [folded extra_def]
      show ?thesis
      proof (cases "r2 = Some (p + sz)")
        case True
        note f2 = sbrk_Some [OF sane b2 [unfolded True]]
        have rs: "r = Some (p + extra, sz)" "s' = s\<lparr>sys_os := o2\<rparr>"
          using res' False b1 r1 unal b2 True by (simp_all add: extra_def)
        have "{p + extra..<p + extra + sz} \<subseteq> {p..<p + sz} \<union> {p + sz..<p + sz + extra}" by auto
        with f1 f2 sz extra show ?thesis unfolding rs alloc_spec_def fresh_region_def by auto
      next
        case r2: False
        obtain r3 o3 where b3: "os_sbrk env o2 (sz + al - 1) = (r3, o3)" by fastforce
        have mono: "owned (sys_os s) \<subseteq> owned o2" using f1 mono2 by auto
        show ?thesis
        proof (cases r3)
          case None
          have "r = None" "s' = s\<lparr>sys_os := o3\<rparr>"
            using res' False b1 r1 unal b2 r2 b3 None by (simp_all add: extra_def)
          with sbrk_None [OF sane b3 [unfolded None]] mono show ?thesis by (auto simp: alloc_spec_def)
        next
          case (Some q)
          note f3 = sbrk_Some [OF sane b3 [unfolded Some]]
          define q' where "q' = (if q mod al \<noteq> 0 then q + (al - q mod al) else q)"
          have rs: "r = Some (q', sz)" "s' = s\<lparr>sys_os := o3\<rparr>"
            using res' False b1 r1 unal b2 r2 b3 Some by (simp_all add: extra_def q'_def)
          have q': "al dvd q'" "q \<le> q'" "q' + sz \<le> q + (sz + al - 1)"
            using align_up_mod [OF pos, of q] pos mod_less_divisor [OF pos, of q] unfolding q'_def by auto
          then have sub: "{q'..<q' + sz} \<subseteq> {q..<q + (sz + al - 1)}" by auto
          have "{q'..<q' + sz} \<inter> owned (sys_os s) = {}" "{q'..<q' + sz} \<subseteq> owned o3"
              "owned (sys_os s) \<subseteq> owned o3" using sub f3 mono by blast+
          moreover have "q' \<noteq> 0" "q' + sz \<le> 2 ^ kAddressBits" using q' f3 by linarith+
          ultimately show ?thesis using sz q'(1) unfolding rs alloc_spec_def fresh_region_def by simp
        qed
      qed
    qed
  qed
qed

lemma Sbrk_spec:
  assumes "os_sane env owned" "al = 2 ^ k" "SbrkSysAllocator_Alloc env s sz al = (r, s')"
  shows "alloc_spec (owned (sys_os s)) (owned (sys_os s')) sz al r"
proof (cases "FLAGS_malloc_skip_sbrk env \<or> w64 (sz + al) \<ge> 2 ^ 63")
  case True
  with assms(3) show ?thesis by (auto simp: SbrkSysAllocator_Alloc_def alloc_spec_def split: if_splits)
next
  case False
  have pos: "0 < al" using assms(2) by simp
  let ?sz = "(sz + al - 1) div al * al"
  have "alloc_spec (owned (sys_os s)) (owned (sys_os s')) ?sz al r"
    using assms(3) False round_up_props(2) [OF pos]
    by (intro sbrk_aligned_spec [OF assms(1,2)]) (simp_all add: SbrkSysAllocator_Alloc_def)
  with round_up_props(1) [OF pos, of sz] show ?thesis by (auto simp: alloc_spec_def fresh_region_def)
qed

text \<open>\<^verbatim>\<open>mmap\<close> rounds to pages, so the alignment it works with is the larger of the two powers of two.\<close>

lemma mmap_with_hint_spec:
  assumes sane: "os_sane env owned" and al: "al = 2 ^ k" and sz: "al dvd sz"
    and res: "mmap_with_hint env s sz al = (r, s')"
  shows "alloc_spec (owned (sys_os s)) (owned (sys_os s')) sz al (map_option (\<lambda>p. (p, sz)) r) \<and>
    (r = None \<longrightarrow> owned (sys_os s') = owned (sys_os s))"
proof -
  have mask: "\<And>p. p AND (al - 1) = p mod al" unfolding al by (rule and_exp_pred)
  note res' = res [unfolded mmap_with_hint_def mask]
  show ?thesis
  proof (cases "mmap_hint s \<noteq> 0 \<and> w64 (mmap_hint s + sz) > sz \<and> mmap_hint s mod al = 0")
    case False
    with res' have "r = None" "s' = s" by (simp_all only: if_False prod.inject)
    then show ?thesis by (simp add: alloc_spec_def)
  next
    case True
    obtain r1 o1 where m: "os_mmap env (sys_os s) (mmap_hint s) sz = (r1, o1)" by fastforce
    have res2: "(case r1 of None \<Rightarrow> (None, s\<lparr>sys_os := o1\<rparr>) | Some p \<Rightarrow> if p mod al \<noteq> 0
        then (None, s\<lparr>sys_os := os_munmap env o1 p sz\<rparr>) else (Some p, s\<lparr>sys_os := o1, mmap_hint := p + sz\<rparr>)) = (r, s')"
      using res' True m by (simp split: option.splits)
    show ?thesis
    proof (cases r1)
      case None
      with res2 have "r = None" "s' = s\<lparr>sys_os := o1\<rparr>" by simp_all
      with mmap_None [OF sane m [unfolded None]] show ?thesis by (simp add: alloc_spec_def)
    next
      case (Some p)
      note f = mmap_Some [OF sane m [unfolded Some]]
      show ?thesis
      proof (cases "p mod al = 0")
        case True
        with Some res2 have "r = Some p" "s' = s\<lparr>sys_os := o1, mmap_hint := p + sz\<rparr>" by simp_all
        with f sz True show ?thesis by (auto simp: alloc_spec_def fresh_region_def)
      next
        case False
        with Some res2 have "r = None" "s' = s\<lparr>sys_os := os_munmap env o1 p sz\<rparr>" by simp_all
        moreover have "owned (os_munmap env o1 p sz) = owned (sys_os s)"
          using f munmap_owned [OF sane, of o1 p sz] by auto
        ultimately show ?thesis by (simp add: alloc_spec_def)
      qed
    qed
  qed
qed

lemma mmap_trimmed_spec:
  assumes sane: "os_sane env owned" and al: "al = 2 ^ k" and pg: "os_getpagesize env dvd al" and sz: "al dvd sz"
    and res: "mmap_trimmed env s sz al = (r, s')"
  shows "alloc_spec (owned (sys_os s)) (owned (sys_os s')) sz al (map_option (\<lambda>p. (p, sz)) r)"
proof -
  have mask: "\<And>p. p AND (al - 1) = p mod al" unfolding al by (rule and_exp_pred)
  define pgs where "pgs = os_getpagesize env"
  define extra where "extra = al - pgs"
  have le: "pgs \<le> al" using pg al by (auto simp: pgs_def intro: dvd_imp_le)
  note res' = res [unfolded mmap_trimmed_def mask Let_def, folded pgs_def]
  have ex: "(if pgs < al then al - pgs else 0) = extra" using le by (simp add: extra_def)
  obtain r1 o1 where m: "os_mmap env (sys_os s) 0 (sz + extra) = (r1, o1)" by fastforce
  note res2 = res' [unfolded ex m prod.case]
  show ?thesis
  proof (cases r1)
    case None
    with res2 have "r = None" "s' = s\<lparr>sys_os := o1\<rparr>" by simp_all
    with mmap_None [OF sane m [unfolded None]] show ?thesis by (simp add: alloc_spec_def)
  next
    case (Some ptr)
    note f = mmap_Some [OF sane m [unfolded Some]]
    define adjust where "adjust = (if ptr mod al \<noteq> 0 then al - ptr mod al else 0)"
    have adj: "adjust \<le> extra" "al dvd ptr + adjust"
    proof -
      have "pgs dvd ptr mod al" using f pg by (simp add: pgs_def dvd_mod)
      then have "ptr mod al \<noteq> 0 \<Longrightarrow> pgs \<le> ptr mod al" by (simp add: dvd_imp_le)
      then show "adjust \<le> extra" by (auto simp: adjust_def extra_def)
      show "al dvd ptr + adjust" using align_up_mod [of al ptr] al by (auto simp: adjust_def)
    qed
    define o2 where "o2 = (if adjust > 0 then os_munmap env o1 ptr adjust else o1)"
    define o3 where "o3 = (if adjust < extra then os_munmap env o2 (ptr + adjust + sz) (extra - adjust) else o2)"
    have rs: "r = Some (ptr + adjust)" "s' = s\<lparr>sys_os := o3, mmap_hint := ptr + adjust + sz\<rparr>"
      using res2 [unfolded Some option.case, folded adjust_def, folded o2_def, folded o3_def] by simp_all
    have "owned o2 = owned o1 - {ptr..<ptr + adjust}"
      by (auto simp: o2_def munmap_owned [OF sane])
    moreover have "owned o3 = owned o2 - {ptr + adjust + sz..<ptr + sz + extra}"
      using adj(1) by (auto simp: o3_def munmap_owned [OF sane])
    ultimately have o3: "owned o3 = owned o1 - {ptr..<ptr + adjust} - {ptr + adjust + sz..<ptr + sz + extra}" by simp
    have A: "{ptr..<ptr + adjust} \<subseteq> {ptr..<ptr + (sz + extra)}"
        "{ptr + adjust + sz..<ptr + sz + extra} \<subseteq> {ptr..<ptr + (sz + extra)}"
        "{ptr + adjust..<ptr + adjust + sz} \<subseteq> {ptr..<ptr + (sz + extra)}" using adj(1) by auto
    have B: "{ptr + adjust..<ptr + adjust + sz} \<inter> {ptr..<ptr + adjust} = {}"
        "{ptr + adjust..<ptr + adjust + sz} \<inter> {ptr + adjust + sz..<ptr + sz + extra} = {}" by auto
    have "owned (sys_os s) \<subseteq> owned o3" using f A(1,2) unfolding o3 by blast
    moreover have "{ptr + adjust..<ptr + adjust + sz} \<inter> owned (sys_os s) = {}" using f A(3) by blast
    moreover have "{ptr + adjust..<ptr + adjust + sz} \<subseteq> owned o3" using f A(3) B unfolding o3 by blast
    ultimately show ?thesis
      using f sz adj unfolding rs alloc_spec_def fresh_region_def by simp
  qed
qed

lemma alloc_spec_trans:
  "A \<subseteq> A' \<Longrightarrow> alloc_spec A' B sz al r \<Longrightarrow> alloc_spec A B sz al r"
  unfolding alloc_spec_def fresh_region_def by blast

lemma alloc_spec_weaken:
  "alloc_spec A B sz' al' r \<Longrightarrow> sz \<le> sz' \<Longrightarrow> al dvd al' \<Longrightarrow> alloc_spec A B sz al r"
  by (auto simp: alloc_spec_def fresh_region_def intro: dvd_trans)

lemma max_pow2: "al = (2::nat) ^ k \<Longrightarrow> pg = 2 ^ j \<Longrightarrow>
    \<exists>i \<in> {j, k}. (if al < pg then pg else al) = 2 ^ i \<and> al dvd 2 ^ i \<and> pg dvd 2 ^ i"
  by (auto simp: le_imp_power_dvd)

lemma Mmap_spec:
  assumes sane: "os_sane env owned" and al: "al = 2 ^ k" and sz: "0 < sz" "sz < 2 ^ 64" and k: "k < 64"
    and res: "MmapSysAllocator_Alloc env s sz al = (r, s')"
  shows "alloc_spec (owned (sys_os s)) (owned (sys_os s')) sz al r"
proof -
  define pg where "pg = os_getpagesize env"
  obtain j where j: "j < 48" "pg = 2 ^ j" using pagesize_pow2 [OF sane] by (auto simp: pg_def)
  define al' where "al' = (if al < pg then pg else al)"
  obtain k' where k': "k' \<in> {j, k}" "al' = 2 ^ k'" "al dvd al'" "pg dvd al'"
    using max_pow2 [OF al j(2)] by (auto simp: al'_def)
  define asz where "asz = w64 (sz + al' + (2 ^ 64 - 1)) div al' * al'"
  have asz: "al' dvd asz" by (simp add: asz_def)
  note res' = res [unfolded MmapSysAllocator_Alloc_def Let_def, folded pg_def, folded al'_def, folded asz_def]
  obtain r1 s1 where h: "mmap_with_hint env s asz al' = (r1, s1)" by fastforce
  obtain r2 s2 where t: "mmap_trimmed env s1 asz al' = (r2, s2)" by fastforce
  note H = mmap_with_hint_spec [OF sane k'(2) asz h]
  note T = mmap_trimmed_spec [OF sane k'(2) k'(4) [unfolded pg_def] asz t]
  show ?thesis
  proof (cases "FLAGS_malloc_skip_mmap env \<or> asz < sz")
    case True
    with res' have "r = None" "s' = s" by (auto split: if_splits)
    then show ?thesis by (simp add: alloc_spec_def)
  next
    case False
    have "alloc_spec (owned (sys_os s)) (owned (sys_os s')) asz al' r"
    proof (cases r1)
      case None
      with res' False h t have "r = map_option (\<lambda>p. (p, asz)) r2" "s' = s2" by (cases r2; simp)+
      with H None T alloc_spec_trans show ?thesis by auto
    next
      case (Some p)
      with res' False h have "r = Some (p, asz)" "s' = s1" by simp_all
      with H Some show ?thesis by simp
    qed
    then show ?thesis using False k'(3) by (auto intro: alloc_spec_weaken)
  qed
qed

text \<open>The default allocator tries both and loses nothing when one fails.\<close>

lemma Default_spec:
  assumes sane: "os_sane env owned" and al: "al = 2 ^ k" and sz: "0 < sz" "sz < 2 ^ 64" and k: "k < 64"
    and res: "DefaultSysAllocator_Alloc env s sz al = (r, s')"
  shows "alloc_spec (owned (sys_os s)) (owned (sys_os s')) sz al r"
proof -
  obtain r1 s1 where 1: "(if failed_sbrk s then (None, s) else SbrkSysAllocator_Alloc env s sz al) = (r1, s1)" by fastforce
  have S: "alloc_spec (owned (sys_os s)) (owned (sys_os s1)) sz al r1"
    using 1 Sbrk_spec [OF sane al, of s sz r1 s1] by (auto simp: alloc_spec_def split: if_splits)
  obtain r2 s2 where 2: "(if failed_mmap (s1\<lparr>failed_sbrk := True\<rparr>) then (None, s1\<lparr>failed_sbrk := True\<rparr>)
      else MmapSysAllocator_Alloc env (s1\<lparr>failed_sbrk := True\<rparr>) sz al) = (r2, s2)" by fastforce
  have M: "alloc_spec (owned (sys_os s1)) (owned (sys_os s2)) sz al r2"
    using 2 Mmap_spec [OF sane al sz k, of "s1\<lparr>failed_sbrk := True\<rparr>" r2 s2] by (auto simp: alloc_spec_def split: if_splits)
  note res' = res [unfolded DefaultSysAllocator_Alloc_def 1 Let_def prod.case 2]
  show ?thesis
  proof (cases r1)
    case None
    have "alloc_spec (owned (sys_os s)) (owned (sys_os s2)) sz al r2"
      using S by (intro alloc_spec_trans [OF _ M]) (simp add: alloc_spec_def)
    moreover have "r = r2" "sys_os s' = sys_os s2" using res' None by (cases r2; auto)+
    ultimately show ?thesis by simp
  next
    case (Some a)
    with res' have "r = r1" "s' = s1" by simp_all
    with S show ?thesis by simp
  qed
qed

lemma Sbrk_taken: "SbrkSysAllocator_Alloc env s sz al = (r, s') \<Longrightarrow> SystemTaken s' = SystemTaken s"
  by (auto simp: SbrkSysAllocator_Alloc_def sbrk_aligned_def split: if_splits prod.splits option.splits)

lemma Mmap_taken: "MmapSysAllocator_Alloc env s sz al = (r, s') \<Longrightarrow> SystemTaken s' = SystemTaken s"
proof -
  have 1: "mmap_with_hint env s sz al = (r, s') \<Longrightarrow> SystemTaken s' = SystemTaken s" for s sz al r s'
    by (auto simp: mmap_with_hint_def split: if_splits prod.splits option.splits)
  have 2: "mmap_trimmed env s sz al = (r, s') \<Longrightarrow> SystemTaken s' = SystemTaken s" for s sz al r s'
    by (auto simp: mmap_trimmed_def Let_def split: prod.splits option.splits)
  show "MmapSysAllocator_Alloc env s sz al = (r, s') \<Longrightarrow> SystemTaken s' = SystemTaken s"
    by (auto simp: MmapSysAllocator_Alloc_def Let_def dest!: 1 2 split: if_splits prod.splits option.splits)
qed

lemma Default_taken: "DefaultSysAllocator_Alloc env s sz al = (r, s') \<Longrightarrow> SystemTaken s' = SystemTaken s"
  by (auto simp: DefaultSysAllocator_Alloc_def Let_def dest!: Sbrk_taken Mmap_taken split: if_splits prod.splits)

lemma SystemAlloc_spec:
  assumes sane: "os_sane env owned" and al: "al = 2 ^ k" and sz: "0 < sz" "sz < 2 ^ 64" and k: "k < 64"
  shows "wpo (TCMalloc_SystemAlloc env s sz al) (\<lambda>(r, s').
    alloc_spec (owned (sys_os s)) (owned (sys_os s')) sz al r \<and> (r = None \<longrightarrow> SystemTaken s' = SystemTaken s))"
proof (cases "w64 (sz + al) < sz")
  case True
  then show ?thesis by (simp add: TCMalloc_SystemAlloc_def alloc_spec_def)
next
  case False
  define al' where "al' = (if al < sizeof_MemoryAligner then sizeof_MemoryAligner else al)"
  have "sizeof_MemoryAligner = 2 ^ 6" by (simp add: tc_consts)
  from max_pow2 [OF al this] obtain k' where k': "k' \<in> {6, k}" "al' = 2 ^ k'" "al dvd al'"
    unfolding al'_def by metis
  obtain r s' where d: "DefaultSysAllocator_Alloc env s sz al' = (r, s')" by fastforce
  have D: "alloc_spec (owned (sys_os s)) (owned (sys_os s')) sz al' r"
    using k' k by (intro Default_spec [OF sane k'(2) sz _ d]) auto
  then have D': "alloc_spec (owned (sys_os s)) (owned (sys_os s')) sz al r" using k'(3) by (auto intro: alloc_spec_weaken)
  have T: "SystemTaken s' = SystemTaken s" by (rule Default_taken [OF d])
  show ?thesis
  proof (cases r)
    case None
    with False d D' T show ?thesis by (simp add: TCMalloc_SystemAlloc_def Let_def al'_def [symmetric])
  next
    case (Some a)
    obtain ptr act where a: "a = (ptr, act)" by fastforce
    have "ptr + act \<le> 2 ^ kAddressBits" "0 < act" using D' Some a sz by (auto simp: alloc_spec_def fresh_region_def)
    then have "CheckAddressBits (ptr + act - 1)" by (simp add: CheckAddressBits_def drop_bit_eq_div)
    with False d D' Some a show ?thesis
      by (simp add: TCMalloc_SystemAlloc_def Let_def al'_def [symmetric])
  qed
qed

lemma madvise_retry_owned:
  assumes "madvise_retry env o1 p n = Some r" "os_sane env owned"
  shows "owned (snd r) = owned o1"
proof -
  have "os_sane env owned \<longrightarrow> owned (snd r) = owned o1"
  proof (rule madvise_retry.raw_induct [OF _ assms(1), where P = "\<lambda>env o1 p n r. os_sane env owned \<longrightarrow> owned (snd r) = owned o1"], rule impI)
    fix mr and env :: "'a env" and os start len r
    assume IH: "\<And>env os start len r. mr env os start len = Some r \<Longrightarrow> os_sane env owned \<longrightarrow> owned (snd r) = owned os"
      and res: "(case os_madvise env os start len of (Madv_ok, os) \<Rightarrow> Some (True, os)
        | (Madv_again, os) \<Rightarrow> mr env os start len | (Madv_error, os) \<Rightarrow> Some (False, os)) = Some r"
      and sane: "os_sane env owned"
    obtain a o2 where a: "os_madvise env os start len = (a, o2)" by fastforce
    have "mr env o2 start len = Some r \<Longrightarrow> owned (snd r) = owned o2" using IH sane by blast
    moreover note madvise_owned [OF sane a]
    ultimately show "owned (snd r) = owned os" using res by (cases a) (force simp: a)+
  qed
  with assms(2) show ?thesis by blast
qed

lemma SystemRelease_spec:
  assumes sane: "os_sane env owned" and res: "TCMalloc_SystemRelease env s p n = Some (b, s')"
  shows "owned (sys_os s') = owned (sys_os s) \<and> SystemTaken s' = SystemTaken s"
proof -
  have "s' = s \<or> (\<exists>st n1 o1. madvise_retry env (sys_os s) st n1 = Some (b, o1) \<and> s' = s\<lparr>sys_os := o1\<rparr>)"
    using res unfolding TCMalloc_SystemRelease_def Let_def
    by (auto split: if_splits simp: bind_eq_Some_conv)
  then show ?thesis
  proof (elim disjE exE conjE)
    fix st n1 o1 assume m: "madvise_retry env (sys_os s) st n1 = Some (b, o1)" and s': "s' = s\<lparr>sys_os := o1\<rparr>"
    from madvise_retry_owned [OF m sane] s' show ?thesis by simp
  qed simp
qed

section \<open>An operating system\<close>

text \<open>
  A concrete operating system that keeps the promises: addresses are handed out upwards in whole pages.  The state
  is the first address never used and the set of the bytes owned, as far as they lie below it and below 8 TB.
\<close>

definition bump_owned :: "nat \<times> nat set \<Rightarrow> nat set" where
  "bump_owned s = snd s \<inter> {..<min (fst s) (2 ^ 43)}"

definition bump_take :: "nat \<times> nat set \<Rightarrow> nat \<Rightarrow> nat option \<times> nat \<times> nat set" where
  "bump_take s n =
     (let p = (max 4096 (fst s) + 4096 - 1) div 4096 * 4096
      in if p + n \<le> 2 ^ 43 then (Some p, p + n, bump_owned s \<union> {p..<p + n}) else (None, s))"

definition bump_env :: "(nat \<times> nat set) env" where
  "bump_env = \<lparr>os_sbrk = bump_take, os_break = fst, os_mmap = (\<lambda>s h n. bump_take s n),
     os_munmap = (\<lambda>s p n. (fst s, snd s - {p..<p + n})), os_madvise = (\<lambda>s p n. (Madv_ok, s)),
     os_getpagesize = 4096, FLAGS_malloc_skip_sbrk = False, FLAGS_malloc_skip_mmap = False,
     FLAGS_malloc_disable_memory_release = False, FLAGS_tcmalloc_heap_limit_mb = 0,
     release_rate_num = 1, release_rate_den = 1\<rparr>"

lemma bump_take_sane:
  assumes "bump_take s n = (r, s')"
  shows "case r of None \<Rightarrow> bump_owned s' = bump_owned s
     | Some p \<Rightarrow> p \<noteq> 0 \<and> p + n \<le> 2 ^ kAddressBits \<and> 4096 dvd p \<and> {p..<p + n} \<inter> bump_owned s = {} \<and>
         bump_owned s' = bump_owned s \<union> {p..<p + n}"
proof -
  define p where "p = (max 4096 (fst s) + 4096 - 1) div 4096 * 4096"
  have p: "max 4096 (fst s) \<le> p" "4096 dvd p" unfolding p_def by (rule round_up_props; simp)+
  then have "p \<noteq> 0" "fst s \<le> p" by auto
  moreover have "bump_take s n = (if p + n \<le> 2 ^ 43 then (Some p, p + n, bump_owned s \<union> {p..<p + n}) else (None, s))"
    unfolding bump_take_def p_def Let_def by (rule refl)
  ultimately show ?thesis using p assms by (auto simp: bump_owned_def kAddressBits_def split: if_splits)
qed

lemma bump_env_sane: "os_sane bump_env bump_owned"
proof -
  have S: "bump_take s n = (Some p, s') \<Longrightarrow> p \<noteq> 0 \<and> p + n \<le> 2 ^ kAddressBits \<and> 4096 dvd p \<and>
      {p..<p + n} \<inter> bump_owned s = {} \<and> bump_owned s' = bump_owned s \<union> {p..<p + n}" for s n p s'
    using bump_take_sane [of s n "Some p" s'] by simp
  have N: "bump_take s n = (None, s') \<Longrightarrow> bump_owned s' = bump_owned s" for s n s'
    using bump_take_sane [of s n None s'] by simp
  have M: "bump_owned (fst s, snd s - {p..<p + n}) = bump_owned s - {p..<p + n}" for s p n
    by (auto simp: bump_owned_def)
  have P: "\<exists>k<48. (4096::nat) = 2 ^ k" by (rule exI [of _ 12]) simp
  show ?thesis unfolding os_sane_def bump_env_def env.simps M
    by (intro conjI allI impI P refl; (drule S | drule N)?; (elim conjE)?; (assumption | simp))
qed

section \<open>Properties\<close>





end
