(* ===== verification/LinkedList.thy ===== *)
theory LinkedList
  imports Prelude
begin

text \<open>
  The singly linked lists of free objects of \<^verbatim>\<open>src/linked_list.h\<close>, at the level of memory words: the
  first word of a free object holds the address of the next one, address 0 is \<^verbatim>\<open>nullptr\<close>.  The word a
  \<^verbatim>\<open>void** list\<close> argument points to is a field of the caller, never a word of an object, so it is passed
  and returned by value.  Reading or writing through a null pointer is \<^term>\<open>None\<close>.

  The predicate \<open>sll mem p xs\<close> relates a head pointer to the list of objects it stands for; the lemmas
  say what each operation does to that list and that it leaves all other memory alone.  The locale
  \<open>object_list\<close> is the contract the caches use; it is interpreted on these operations.
\<close>

type_synonym mem = "nat \<Rightarrow> nat"

definition SLL_Next :: "mem \<Rightarrow> nat \<Rightarrow> nat option" where
  "SLL_Next m t = (if t = 0 then None else Some (m t))"

definition SLL_SetNext :: "mem \<Rightarrow> nat \<Rightarrow> nat \<Rightarrow> mem option" where
  "SLL_SetNext m t n = (if t = 0 then None else Some (m(t := n)))"

text \<open>The new memory and the new head.\<close>

definition SLL_Push :: "mem \<Rightarrow> nat \<Rightarrow> nat \<Rightarrow> (mem \<times> nat) option" where
  "SLL_Push m lst element = do { m \<leftarrow> SLL_SetNext m element lst; Some (m, element) }"

text \<open>The popped element and the new head.\<close>

definition SLL_Pop :: "mem \<Rightarrow> nat \<Rightarrow> (nat \<times> nat) option" where
  "SLL_Pop m lst = do { nxt \<leftarrow> SLL_Next m lst; Some (lst, nxt) }"

text \<open>The popped element, if the list has one (the \<^verbatim>\<open>bool\<close> result with \<^verbatim>\<open>*rv\<close>), and the new head.\<close>

definition SLL_TryPop :: "mem \<Rightarrow> nat \<Rightarrow> (nat option \<times> nat) option" where
  "SLL_TryPop m lst =
     (if lst = 0 then Some (None, lst)
      else do { nxt \<leftarrow> SLL_Next m lst; Some (Some lst, nxt) })"

text \<open>\<open>SLL_walk m t k\<close> is \<open>k\<close> turns of \<^verbatim>\<open>tmp = SLL_Next(tmp)\<close>.\<close>

fun SLL_walk :: "mem \<Rightarrow> nat \<Rightarrow> nat \<Rightarrow> nat option" where
  "SLL_walk m t 0 = Some t"
| "SLL_walk m t (Suc k) = do { t \<leftarrow> SLL_Next m t; SLL_walk m t k }"

text \<open>The memory, the new head, \<^verbatim>\<open>*start\<close> and \<^verbatim>\<open>*end\<close>.\<close>

definition SLL_PopRange :: "mem \<Rightarrow> nat \<Rightarrow> int \<Rightarrow> (mem \<times> nat \<times> nat \<times> nat) option" where
  "SLL_PopRange m head N =
     (if N = 0 then Some (m, head, 0, 0)
      else do { tmp \<leftarrow> SLL_walk m head (nat (N - 1));
                nxt \<leftarrow> SLL_Next m tmp;
                m \<leftarrow> SLL_SetNext m tmp 0;
                Some (m, nxt, head, tmp) })"

definition SLL_PushRange :: "mem \<Rightarrow> nat \<Rightarrow> nat \<Rightarrow> nat \<Rightarrow> (mem \<times> nat) option" where
  "SLL_PushRange m head start end_ptr =
     (if start = 0 then Some (m, head)
      else do { m \<leftarrow> SLL_SetNext m end_ptr head; Some (m, start) })"

text \<open>The counting loop does not end on a cyclic list.\<close>

partial_function (option) SLL_count :: "mem \<Rightarrow> nat \<Rightarrow> nat \<Rightarrow> nat option" where
  "SLL_count m head count =
     (if head \<noteq> 0 then do { nxt \<leftarrow> SLL_Next m head; SLL_count m nxt (count + 1) } else Some count)"

definition SLL_Size :: "mem \<Rightarrow> nat \<Rightarrow> nat option" where
  "SLL_Size m head = SLL_count m head 0"

section \<open>Lists in memory\<close>

fun sll :: "mem \<Rightarrow> nat \<Rightarrow> nat list \<Rightarrow> bool" where
  "sll m p [] = (p = 0)"
| "sll m p (x # xs) = (p = x \<and> x \<noteq> 0 \<and> sll m (m x) xs)"

text \<open>A segment: from \<open>p\<close> through \<open>xs\<close> to \<open>q\<close>.\<close>

fun sll_seg :: "mem \<Rightarrow> nat \<Rightarrow> nat list \<Rightarrow> nat \<Rightarrow> bool" where
  "sll_seg m p [] q = (p = q)"
| "sll_seg m p (x # xs) q = (p = x \<and> x \<noteq> 0 \<and> sll_seg m (m x) xs q)"

lemma sll_null [simp]: "sll m 0 xs \<longleftrightarrow> xs = []"
  by (cases xs) auto

lemma sll_nonnull: "p \<noteq> 0 \<Longrightarrow> sll m p xs \<longleftrightarrow> (\<exists>ys. xs = p # ys \<and> sll m (m p) ys)"
  by (cases xs) auto

lemma sll_notin_0: "sll m p xs \<Longrightarrow> 0 \<notin> set xs"
  by (induction xs arbitrary: p) auto

lemma sll_append: "sll m p (xs @ ys) \<longleftrightarrow> (\<exists>q. sll_seg m p xs q \<and> sll m q ys)"
  by (induction xs arbitrary: p) auto

lemma sll_unique: "sll m p xs \<Longrightarrow> sll m p ys \<Longrightarrow> xs = ys"
proof (induction xs arbitrary: p ys)
  case (Cons x xs)
  then show ?case by (cases ys) auto
qed simp

lemma sll_distinct: "sll m p xs \<Longrightarrow> distinct xs"
proof (induction xs arbitrary: p)
  case (Cons x xs)
  have "x \<notin> set xs"
  proof
    assume "x \<in> set xs"
    then obtain ys zs where xs: "xs = ys @ x # zs" by (auto simp: in_set_conv_decomp)
    with Cons.prems have "sll m x (x # zs)" "sll m x (x # ys @ x # zs)" by (auto simp: sll_append)
    then have "x # zs = x # ys @ x # zs" by (rule sll_unique)
    then show False by (auto dest: arg_cong [where f = length])
  qed
  with Cons show ?case by auto
qed simp

lemma sll_cong: "(\<And>x. x \<in> set xs \<Longrightarrow> m' x = m x) \<Longrightarrow> sll m' p xs = sll m p xs"
  by (induction xs arbitrary: p) auto

lemma sll_seg_cong: "(\<And>x. x \<in> set xs \<Longrightarrow> m' x = m x) \<Longrightarrow> sll_seg m' p xs q = sll_seg m p xs q"
  by (induction xs arbitrary: p) auto

lemma sll_frame [simp]: "x \<notin> set xs \<Longrightarrow> sll (m(x := v)) p xs = sll m p xs"
  by (rule sll_cong) auto

lemma sll_seg_frame [simp]: "x \<notin> set xs \<Longrightarrow> sll_seg (m(x := v)) p xs q = sll_seg m p xs q"
  by (rule sll_seg_cong) auto

lemma sll_seg_last: "sll_seg m p (xs @ [x]) q \<longleftrightarrow> sll_seg m p xs x \<and> x \<noteq> 0 \<and> m x = q"
  by (induction xs arbitrary: p) auto

section \<open>What the operations do\<close>

lemma SLL_Push_spec:
  "sll m p xs \<Longrightarrow> x \<noteq> 0 \<Longrightarrow> x \<notin> set xs \<Longrightarrow> SLL_Push m p x = Some (m(x := p), x) \<and> sll (m(x := p)) x (x # xs)"
  by (simp add: SLL_Push_def SLL_SetNext_def)

lemma SLL_Pop_spec: "sll m p (x # xs) \<Longrightarrow> SLL_Pop m p = Some (x, m x) \<and> sll m (m x) xs"
  by (simp add: SLL_Pop_def SLL_Next_def)

lemma SLL_TryPop_spec:
  "sll m p xs \<Longrightarrow> SLL_TryPop m p = (case xs of [] \<Rightarrow> Some (None, 0) | x # ys \<Rightarrow> Some (Some x, m x))"
  by (cases xs) (auto simp: SLL_TryPop_def SLL_Next_def)

lemma SLL_walk_spec:
  "sll m p (xs @ y # ys) \<Longrightarrow> SLL_walk m p (length xs) = Some y"
  by (induction xs arbitrary: p) (auto simp: SLL_Next_def)

lemma sll_seg_close:
  assumes "sll_seg m p (xs @ [y]) q" "distinct (xs @ [y])"
  shows "sll (m(y := r)) p (xs @ [y]) \<longleftrightarrow> r = 0"
proof -
  have "sll_seg (m(y := r)) p xs y" using assms by (simp add: sll_seg_last)
  moreover have "\<And>q'. sll_seg (m(y := r)) p xs q' \<Longrightarrow> q' = y"
    using calculation by (induction xs arbitrary: p) auto
  ultimately show ?thesis using assms by (auto simp: sll_append sll_seg_last)
qed

lemma SLL_PopRange_spec:
  assumes "sll m p (xs @ ys)" "xs \<noteq> []"
  shows "\<exists>m' q. SLL_PopRange m p (int (length xs)) = Some (m', q, hd xs, last xs) \<and>
     sll m' (hd xs) xs \<and> sll m' q ys \<and> (\<forall>a. a \<noteq> last xs \<longrightarrow> m' a = m a)"
proof -
  obtain zs z where xs: "xs = zs @ [z]" using assms(2) by (metis append_butlast_last_id)
  obtain q where seg: "sll_seg m p (zs @ [z]) q" "sll m q ys" using assms(1) by (auto simp: sll_append xs sll_seg_last)
  have d: "distinct (zs @ z # ys)" using sll_distinct [OF assms(1)] by (simp add: xs)
  have z: "z \<noteq> 0" "m z = q" using seg by (auto simp: sll_seg_last)
  have p: "p = hd xs" using assms by (cases xs) auto
  have "SLL_walk m p (length zs) = Some z" using SLL_walk_spec [of m p zs z ys] assms(1) by (simp add: xs)
  then have "SLL_PopRange m p (int (length xs)) = Some (m(z := 0), q, p, z)"
    using z by (simp add: SLL_PopRange_def xs SLL_Next_def SLL_SetNext_def)
  moreover have "sll (m(z := 0)) p xs" unfolding xs using sll_seg_close [OF seg(1), of 0] d by simp
  moreover have "sll (m(z := 0)) q ys" using seg(2) d by simp
  ultimately show ?thesis unfolding p [symmetric] by (auto simp: xs)
qed

lemma SLL_PushRange_spec:
  assumes "sll m s xs" "xs \<noteq> []" "sll m p ys" "set xs \<inter> set ys = {}"
  shows "\<exists>m'. SLL_PushRange m p s (last xs) = Some (m', s) \<and> sll m' s (xs @ ys) \<and> 
     (\<forall>a. a \<noteq> last xs \<longrightarrow> m' a = m a)"
proof -
  obtain zs z where xs: "xs = zs @ [z]" using assms(2) by (metis append_butlast_last_id)
  have d: "distinct (zs @ [z])" using sll_distinct [OF assms(1)] by (simp add: xs)
  have seg: "sll_seg m s zs z" "z \<noteq> 0" using assms(1) by (auto simp: xs sll_append sll_seg_last)
  have "s \<noteq> 0" using assms(1,2) by (cases xs) auto
  then have "SLL_PushRange m p s (last xs) = Some (m(z := p), s)"
    using seg by (simp add: SLL_PushRange_def SLL_SetNext_def xs)
  moreover have "sll_seg (m(z := p)) s zs z" using seg d by simp
  then have "sll (m(z := p)) s (xs @ ys)"
    using seg assms(3,4) by (auto simp: xs sll_append intro!: exI [of _ z])
  ultimately show ?thesis by (auto simp: xs)
qed

lemma SLL_count_spec: "sll m p xs \<Longrightarrow> SLL_count m p c = Some (c + length xs)"
proof (induction xs arbitrary: p c)
  case Nil
  then show ?case by (subst SLL_count.simps) simp
next
  case (Cons x xs)
  then show ?case by (subst SLL_count.simps) (simp add: SLL_Next_def)
qed

section \<open>The contract of a list of objects\<close>

text \<open>
  What the caches rely on: pushing a fresh object puts it in front and touches only its first word,
  popping takes the front object, and a list does not depend on memory outside its objects.
\<close>

locale object_list =
  fixes is_list :: "mem \<Rightarrow> nat \<Rightarrow> nat list \<Rightarrow> bool"
    and push :: "mem \<Rightarrow> nat \<Rightarrow> nat \<Rightarrow> (mem \<times> nat) option"
    and pop :: "mem \<Rightarrow> nat \<Rightarrow> (nat \<times> nat) option"
  assumes push: "is_list m p xs \<Longrightarrow> x \<noteq> 0 \<Longrightarrow> x \<notin> set xs \<Longrightarrow>
      \<exists>m'. push m p x = Some (m', x) \<and> is_list m' x (x # xs) \<and> (\<forall>a. a \<noteq> x \<longrightarrow> m' a = m a)"
    and pop: "is_list m p (x # xs) \<Longrightarrow> \<exists>q. pop m p = Some (x, q) \<and> is_list m q xs"
    and frame: "is_list m p xs \<Longrightarrow> (\<And>a. a \<in> set xs \<Longrightarrow> m' a = m a) \<Longrightarrow> is_list m' p xs"
    and nodes: "is_list m p xs \<Longrightarrow> distinct xs \<and> 0 \<notin> set xs"
    and unique: "is_list m p xs \<Longrightarrow> is_list m p ys \<Longrightarrow> xs = ys"

text \<open>Pushing a list of objects one after the other, and popping \<open>n\<close> objects.\<close>

fun push_all :: "(mem \<Rightarrow> nat \<Rightarrow> nat \<Rightarrow> (mem \<times> nat) option) \<Rightarrow> mem \<Rightarrow> nat \<Rightarrow> nat list \<Rightarrow> (mem \<times> nat) option" where
  "push_all psh m p [] = Some (m, p)"
| "push_all psh m p (x # xs) = do { (m, p) \<leftarrow> psh m p x; push_all psh m p xs }"

fun pop_n :: "(mem \<Rightarrow> nat \<Rightarrow> (nat \<times> nat) option) \<Rightarrow> mem \<Rightarrow> nat \<Rightarrow> nat \<Rightarrow> (nat list \<times> nat) option" where
  "pop_n pp m p 0 = Some ([], p)"
| "pop_n pp m p (Suc n) = do { (x, p) \<leftarrow> pp m p; (xs, p) \<leftarrow> pop_n pp m p n; Some (x # xs, p) }"

context object_list
begin

lemma push_all_list:
  "is_list m p ys \<Longrightarrow> distinct xs \<Longrightarrow> 0 \<notin> set xs \<Longrightarrow> set xs \<inter> set ys = {} \<Longrightarrow>
   \<exists>m' q. push_all push m p xs = Some (m', q) \<and> is_list m' q (rev xs @ ys) \<and> (\<forall>a. a \<notin> set xs \<longrightarrow> m' a = m a)"
proof (induction xs arbitrary: m p ys)
  case (Cons x xs)
  obtain m1 where m1: "push m p x = Some (m1, x)" "is_list m1 x (x # ys)" "\<forall>a. a \<noteq> x \<longrightarrow> m1 a = m a"
    using push [OF Cons.prems(1), of x] Cons.prems by auto
  obtain m' q where "push_all push m1 x xs = Some (m', q)" "is_list m' q (rev xs @ x # ys)"
      "\<forall>a. a \<notin> set xs \<longrightarrow> m' a = m1 a"
    using Cons.IH [OF m1(2)] Cons.prems by auto
  with m1 show ?case by auto
qed simp

lemma pop_n_list:
  "is_list m p (xs @ ys) \<Longrightarrow> \<exists>q. pop_n pop m p (length xs) = Some (xs, q) \<and> is_list m q ys"
proof (induction xs arbitrary: p)
  case (Cons x xs)
  then obtain q where "pop m p = Some (x, q)" "is_list m q (xs @ ys)" using pop [of m p x "xs @ ys"] by auto
  with Cons.IH [of q] show ?case by auto
qed simp

lemma push_pop_lifo:
  assumes "is_list m p ys" "distinct xs" "0 \<notin> set xs" "set xs \<inter> set ys = {}"
  shows "\<exists>m' q r. push_all push m p xs = Some (m', q) \<and> pop_n pop m' q (length xs) = Some (rev xs, r) \<and>
    is_list m' r ys"
  using push_all_list [OF assms] pop_n_list [of _ _ "rev xs" ys] by fastforce

end

interpretation SLL: object_list sll SLL_Push SLL_Pop
proof unfold_locales
  show "\<exists>m'. SLL_Push m p x = Some (m', x) \<and> sll m' x (x # xs) \<and> (\<forall>a. a \<noteq> x \<longrightarrow> m' a = m a)"
    if "sll m p xs" "x \<noteq> 0" "x \<notin> set xs" for m p xs x
    using SLL_Push_spec [OF that] by auto
  show "\<exists>q. SLL_Pop m p = Some (x, q) \<and> sll m q xs" if "sll m p (x # xs)" for m p x xs
    using SLL_Pop_spec [OF that] by auto
  show "sll m' p xs" if "sll m p xs" "\<And>a. a \<in> set xs \<Longrightarrow> m' a = m a" for m m' p xs
    using that sll_cong [of xs m' m p] by auto
  show "distinct xs \<and> 0 \<notin> set xs" if "sll m p xs" for m p xs
    using sll_distinct [OF that] sll_notin_0 [OF that] by simp
  show "xs = ys" if "sll m p xs" "sll m p ys" for m p xs ys
    using that by (rule sll_unique)
qed

section \<open>Properties\<close>

text \<open>
  C15. A list of free objects is a stack: pushing any distinct objects on a list and popping as many
  gives them back in reverse order and restores the list, through memory.
\<close>

theorem SLL_push_pop_lifo:
  assumes "sll m p ys" "distinct xs" "0 \<notin> set xs" "set xs \<inter> set ys = {}"
  shows "\<exists>m' q r. push_all SLL_Push m p xs = Some (m', q) \<and> pop_n SLL_Pop m' q (length xs) = Some (rev xs, r) \<and>
    sll m' r ys"
  by (rule SLL.push_pop_lifo [OF assms])

theorem SLL_push_pop_lifo_witness:
  "\<exists>m' q r. push_all SLL_Push (\<lambda>_. 0) 8 [16, 24] = Some (m', q) \<and>
     pop_n SLL_Pop m' q (length [16::nat, 24]) = Some (rev [16, 24], r) \<and> sll m' r [8]"
  by (rule SLL_push_pop_lifo) simp_all



end
