(* ===== verification/MetaAlloc.thy ===== *)
theory MetaAlloc
  imports SystemAlloc LinkedList
begin

unbundle bit_operations_syntax

text \<open>
  Memory for the allocator's own data: \<^verbatim>\<open>MetaDataAlloc\<close> of common.cc, a bump allocator over 8 MB chunks from the system,
  and \<^verbatim>\<open>PageHeapAllocator\<close> of page\_heap\_allocator.h, a free list of objects of one size carved from it.

  \<open>meta_inv\<close> says that the rest of the chunk belongs to the process and overlaps no byte handed out before;
  \<open>pha_inv\<close> says that the live objects, the free objects and the uncarved area of one allocator are pairwise disjoint
  and lie in the bytes handed out.  The contract of an allocator of objects is the locale \<open>object_allocator\<close>.
\<close>

section \<open>MetaDataAlloc\<close>

record 'o meta =
  meta_sys :: "'o sys"
  metadata_system_bytes :: nat
  metadata_chunk_alloc :: nat
  metadata_chunk_avail :: nat

definition kMetadataAllocChunkSize :: nat where [tc_consts]: "kMetadataAllocChunkSize = 8 * 1024 * 1024"

definition kMetadataAllignment :: nat where "kMetadataAllignment = sizeof_MemoryAligner"

text \<open>The null pointer is 0; \<^term>\<open>None\<close> is a failed check in \<^verbatim>\<open>TCMalloc_SystemAlloc\<close>.\<close>

definition MetaDataAlloc :: "'o env \<Rightarrow> 'o meta \<Rightarrow> nat \<Rightarrow> (nat \<times> 'o meta) option" where
  "MetaDataAlloc env m bytes =
     (if bytes \<ge> kMetadataAllocChunkSize then do {
        (r, s) \<leftarrow> TCMalloc_SystemAlloc env (meta_sys m) bytes kMetadataAllignment;
        (case r of
           None \<Rightarrow> Some (0, m\<lparr>meta_sys := s\<rparr>)
         | Some (rv, _) \<Rightarrow>
             Some (rv, m\<lparr>meta_sys := s, metadata_system_bytes := w64 (metadata_system_bytes m + bytes)\<rparr>)) }
      else do {
        let alignment = nat ((- int (metadata_chunk_alloc m)) AND (int kMetadataAllignment - 1));
        (ok, alignment, m) \<leftarrow>
          (if metadata_chunk_avail m < bytes + alignment then do {
             (r, s) \<leftarrow> TCMalloc_SystemAlloc env (meta_sys m) kMetadataAllocChunkSize kMetadataAllignment;
             (case r of
                None \<Rightarrow> Some (False, alignment, m\<lparr>meta_sys := s\<rparr>)
              | Some (ptr, real_size) \<Rightarrow>
                  Some (True, 0, m\<lparr>meta_sys := s, metadata_chunk_alloc := ptr, metadata_chunk_avail := real_size\<rparr>)) }
           else Some (True, alignment, m));
        if ok then
          let rv = metadata_chunk_alloc m + alignment;
              bytes = bytes + alignment
          in Some (rv, m\<lparr>metadata_chunk_alloc := metadata_chunk_alloc m + bytes,
                         metadata_chunk_avail := metadata_chunk_avail m - bytes,
                         metadata_system_bytes := w64 (metadata_system_bytes m + bytes)\<rparr>)
        else Some (0, m) })"

section \<open>PageHeapAllocator\<close>

text \<open>
  The allocator of objects of \<open>sz\<close> bytes (\<^verbatim>\<open>sizeof(T)\<close>).  \<open>links\<close> holds the first word of the freed objects.
  Running out of metadata memory is a crash.
\<close>

record pha =
  free_area :: nat
  free_avail :: nat
  free_list :: nat
  inuse :: int
  links :: mem

definition kAllocIncrement :: nat where [tc_consts]: "kAllocIncrement = 128 * 1024"

definition PHA_New :: "'o env \<Rightarrow> nat \<Rightarrow> pha \<Rightarrow> 'o meta \<Rightarrow> (nat \<times> pha \<times> 'o meta) option" where
  "PHA_New env sz a m =
     (if free_list a \<noteq> 0 then
        Some (free_list a, a\<lparr>free_list := links a (free_list a), inuse := int32_of (inuse a + 1)\<rparr>, m)
      else do {
        (a, m) \<leftarrow>
          (if free_avail a < sz then do {
             (p, m) \<leftarrow> MetaDataAlloc env m kAllocIncrement;
             (if p = 0 then None else Some (a\<lparr>free_area := p, free_avail := kAllocIncrement\<rparr>, m)) }
           else Some (a, m));
        Some (free_area a, a\<lparr>free_area := free_area a + sz, free_avail := free_avail a - sz,
                             inuse := int32_of (inuse a + 1)\<rparr>, m) })"

definition PHA_Delete :: "pha \<Rightarrow> nat \<Rightarrow> pha" where
  "PHA_Delete a p = a\<lparr>links := (links a)(p := free_list a), free_list := p, inuse := int32_of (inuse a - 1)\<rparr>"

definition PHA_Init :: "'o env \<Rightarrow> nat \<Rightarrow> mem \<Rightarrow> 'o meta \<Rightarrow> (pha \<times> 'o meta) option" where
  "PHA_Init env sz l m = do {
     (p, a, m) \<leftarrow> PHA_New env sz \<lparr>free_area = 0, free_avail = 0, free_list = 0, inuse = 0, links = l\<rparr> m;
     Some (PHA_Delete a p, m) }"

section \<open>The bytes handed out\<close>

abbreviation bytes_at :: "nat \<Rightarrow> nat \<Rightarrow> nat set" where
  "bytes_at p n \<equiv> {p..<p + n}"

definition meta_inv :: "('o \<Rightarrow> nat set) \<Rightarrow> nat set \<Rightarrow> 'o meta \<Rightarrow> bool" where
  "meta_inv owned H m \<longleftrightarrow>
     H \<subseteq> owned (sys_os (meta_sys m)) \<and>
     bytes_at (metadata_chunk_alloc m) (metadata_chunk_avail m) \<subseteq> owned (sys_os (meta_sys m)) - H \<and>
     metadata_chunk_alloc m + metadata_chunk_avail m \<le> 2 ^ kAddressBits \<and>
     (metadata_chunk_avail m \<noteq> 0 \<longrightarrow> metadata_chunk_alloc m \<noteq> 0)"

lemma meta_invI:
  assumes "H \<subseteq> owned (sys_os (meta_sys m))"
    "bytes_at (metadata_chunk_alloc m) (metadata_chunk_avail m) \<subseteq> owned (sys_os (meta_sys m)) - H"
    "metadata_chunk_alloc m + metadata_chunk_avail m \<le> 2 ^ kAddressBits"
    "metadata_chunk_avail m \<noteq> 0 \<Longrightarrow> metadata_chunk_alloc m \<noteq> 0"
  shows "meta_inv owned H m"
  using assms by (simp add: meta_inv_def)

lemma neg_and_align: "nat ((- int x) AND (int kMetadataAllignment - 1)) = (64 - x mod 64) mod 64"
proof -
  have "int kMetadataAllignment - 1 = mask 6" by (simp add: kMetadataAllignment_def tc_consts mask_eq_exp_minus_1)
  then have "(- int x) AND (int kMetadataAllignment - 1) = (- int x) mod 64"
    by (simp flip: take_bit_eq_mask add: take_bit_eq_mod)
  also have "\<dots> = int ((64 - x mod 64) mod 64)"
  proof (cases "x mod 64 = 0")
    case True
    then have "int x mod 64 = 0" by (metis of_nat_0 of_nat_mod of_nat_numeral)
    with True show ?thesis by (simp add: zmod_zminus1_eq_if)
  next
    case False
    then have "int (x mod 64) \<noteq> 0" by linarith
    moreover have "int x mod 64 = int (x mod 64)" by (simp add: zmod_int)
    moreover have "x mod 64 < 64" by simp
    ultimately show ?thesis using False by (simp only: zmod_zminus1_eq_if) (simp add: of_nat_diff)
  qed
  finally show ?thesis by simp
qed

lemma align_64: "64 dvd x + (64 - x mod 64) mod (64::nat)" "(64 - x mod 64) mod (64::nat) < 64"
  using align_up_mod [of 64 x] by (cases "x mod 64 = 0") auto

text \<open>Bytes taken directly from the system are added to the bytes handed out.\<close>

lemma meta_inv_system:
  assumes "meta_inv owned H m" "fresh_region (owned (sys_os (meta_sys m))) (owned (sys_os s)) sz al p n"
    "owned (sys_os (meta_sys m)) \<subseteq> owned (sys_os s)"
  shows "meta_inv owned (H \<union> bytes_at p n) (m\<lparr>meta_sys := s\<rparr>)"
  using assms unfolding meta_inv_def fresh_region_def by (simp; blast)

lemma meta_inv_mono:
  assumes "meta_inv owned H m" "owned (sys_os (meta_sys m)) \<subseteq> owned (sys_os s)"
  shows "meta_inv owned H (m\<lparr>meta_sys := s\<rparr>)"
  using assms unfolding meta_inv_def by (simp; blast)

text \<open>The bump step on a chunk.\<close>

lemma meta_bump:
  assumes "meta_inv owned H m" "0 < bytes" "bytes + al \<le> metadata_chunk_avail m" "64 dvd metadata_chunk_alloc m + al"
  defines "p \<equiv> metadata_chunk_alloc m + al"
  shows "p \<noteq> 0 \<and> 64 dvd p \<and> p + bytes \<le> 2 ^ kAddressBits \<and> bytes_at p bytes \<inter> H = {} \<and>
    meta_inv owned (H \<union> bytes_at p bytes)
      (m\<lparr>metadata_chunk_alloc := metadata_chunk_alloc m + (bytes + al),
        metadata_chunk_avail := metadata_chunk_avail m - (bytes + al), metadata_system_bytes := x\<rparr>)"
proof -
  let ?c = "metadata_chunk_alloc m" and ?n = "metadata_chunk_avail m"
  have i: "H \<subseteq> owned (sys_os (meta_sys m))" "bytes_at ?c ?n \<subseteq> owned (sys_os (meta_sys m)) - H"
    "?c + ?n \<le> 2 ^ kAddressBits" "?n \<noteq> 0 \<longrightarrow> ?c \<noteq> 0"
    using assms(1) by (auto simp: meta_inv_def)
  have sub: "bytes_at p bytes \<subseteq> bytes_at ?c ?n" "bytes_at (?c + (bytes + al)) (?n - (bytes + al)) \<subseteq> bytes_at ?c ?n"
    "bytes_at (?c + (bytes + al)) (?n - (bytes + al)) \<inter> bytes_at p bytes = {}"
    using assms(3) by (auto simp: p_def)
  show ?thesis using i sub assms(2-4) unfolding meta_inv_def p_def by (auto simp: subset_iff)
qed

text \<open>What a call promises: null, or aligned bytes that were not handed out before.\<close>

definition meta_post :: "('o \<Rightarrow> nat set) \<Rightarrow> nat set \<Rightarrow> 'o meta \<Rightarrow> nat \<Rightarrow> nat \<Rightarrow> 'o meta \<Rightarrow> bool" where
  "meta_post owned H m bytes p m' \<longleftrightarrow>
     owned (sys_os (meta_sys m)) \<subseteq> owned (sys_os (meta_sys m')) \<and>
     (if p = 0 then meta_inv owned H m'
      else 64 dvd p \<and> p + bytes \<le> 2 ^ kAddressBits \<and> bytes_at p bytes \<inter> H = {} \<and>
        meta_inv owned (H \<union> bytes_at p bytes) m')"

lemma meta_postI:
  assumes "owned (sys_os (meta_sys m)) \<subseteq> owned (sys_os (meta_sys m'))"
    and "p \<noteq> 0 \<and> 64 dvd p \<and> p + bytes \<le> 2 ^ kAddressBits \<and> bytes_at p bytes \<inter> H = {} \<and> meta_inv owned (H \<union> bytes_at p bytes) m'"
  shows "meta_post owned H m bytes p m'"
  using assms by (simp add: meta_post_def)

lemma meta_inv_cong:
  assumes "meta_inv owned H m" "meta_sys m' = meta_sys m" "metadata_chunk_alloc m' = metadata_chunk_alloc m"
    "metadata_chunk_avail m' = metadata_chunk_avail m"
  shows "meta_inv owned H m'"
  using assms by (simp add: meta_inv_def)

lemma meta_inv_less: "meta_inv owned H m \<Longrightarrow> H' \<subseteq> H \<Longrightarrow> meta_inv owned H' m"
  unfolding meta_inv_def by blast

lemma meta_system_cases:
  assumes "os_sane env owned" "0 < n" "n < 2 ^ 64"
  obtains s where "TCMalloc_SystemAlloc env s0 n kMetadataAllignment = Some (None, s)" "owned (sys_os s0) \<subseteq> owned (sys_os s)"
  | ptr act s where "TCMalloc_SystemAlloc env s0 n kMetadataAllignment = Some (Some (ptr, act), s)"
      "owned (sys_os s0) \<subseteq> owned (sys_os s)" "fresh_region (owned (sys_os s0)) (owned (sys_os s)) n 64 ptr act"
proof -
  have al: "kMetadataAllignment = 2 ^ 6" "kMetadataAllignment = 64" by (simp_all add: kMetadataAllignment_def tc_consts)
  from SystemAlloc_spec [OF assms(1) al(1) assms(2,3), of s0]
  obtain r s where rs: "TCMalloc_SystemAlloc env s0 n kMetadataAllignment = Some (r, s)"
      "alloc_spec (owned (sys_os s0)) (owned (sys_os s)) n 64 r"
    by (auto elim!: wpoE simp: al(2))
  show ?thesis
  proof (cases r)
    case None
    with rs that(1) show ?thesis by (auto simp: alloc_spec_def)
  next
    case (Some a)
    with rs that(2) show ?thesis by (cases a) (auto simp: alloc_spec_def)
  qed
qed

lemma MetaDataAlloc_large:
  assumes sane: "os_sane env owned" and inv: "meta_inv owned H m" and b: "0 < bytes" "bytes < 2 ^ 64"
    and large: "bytes \<ge> kMetadataAllocChunkSize"
  shows "wpo (MetaDataAlloc env m bytes) (\<lambda>(p, m'). meta_post owned H m bytes p m')"
proof (cases rule: meta_system_cases [OF sane b, of "meta_sys m"])
  case (1 s)
  then show ?thesis using large meta_inv_mono [OF inv 1(2)] by (simp add: MetaDataAlloc_def meta_post_def)
next
  case (2 ptr act s)
  let ?m = "m\<lparr>meta_sys := s, metadata_system_bytes := w64 (metadata_system_bytes m + bytes)\<rparr>"
  have sub: "bytes_at ptr bytes \<subseteq> bytes_at ptr act" and f: "ptr \<noteq> 0" "64 dvd ptr" "ptr + bytes \<le> 2 ^ kAddressBits"
    using 2(3) by (simp_all add: fresh_region_def)
  have "bytes_at ptr act \<inter> H = {}" using 2(3) inv unfolding fresh_region_def meta_inv_def by blast
  with sub have d: "bytes_at ptr bytes \<inter> H = {}" by blast
  have "meta_inv owned (H \<union> bytes_at ptr act) (m\<lparr>meta_sys := s\<rparr>)" by (rule meta_inv_system [OF inv 2(3,2)])
  then have "meta_inv owned (H \<union> bytes_at ptr bytes) (m\<lparr>meta_sys := s\<rparr>)" by (rule meta_inv_less) (use sub in blast)
  then have "meta_inv owned (H \<union> bytes_at ptr bytes) ?m" by (rule meta_inv_cong) simp_all
  with d f have "meta_post owned H m bytes ptr ?m" by (intro meta_postI) (simp_all add: 2)
  with 2 large show ?thesis by (simp add: MetaDataAlloc_def)
qed

lemma MetaDataAlloc_small:
  assumes sane: "os_sane env owned" and inv: "meta_inv owned H m" and b: "0 < bytes" "bytes < kMetadataAllocChunkSize"
  shows "wpo (MetaDataAlloc env m bytes) (\<lambda>(p, m'). meta_post owned H m bytes p m')"
proof -
  define al where "al = nat ((- int (metadata_chunk_alloc m)) AND (int kMetadataAllignment - 1))"
  have al: "64 dvd metadata_chunk_alloc m + al" unfolding al_def neg_and_align by (rule align_64)
  show ?thesis
  proof (cases "metadata_chunk_avail m < bytes + al")
    case False
    then have "bytes + al \<le> metadata_chunk_avail m" by simp
    from meta_postI [OF _ meta_bump [OF inv b(1) this al]] False b show ?thesis
      by (simp add: MetaDataAlloc_def al_def [symmetric] Let_def)
  next
    case True
    have c: "0 < kMetadataAllocChunkSize" "kMetadataAllocChunkSize < 2 ^ 64" by (simp_all add: tc_consts)
    show ?thesis
    proof (cases rule: meta_system_cases [OF sane c, of "meta_sys m"])
      case (1 s)
      then show ?thesis using True b meta_inv_mono [OF inv 1(2)]
        by (simp add: MetaDataAlloc_def al_def [symmetric] Let_def meta_post_def)
    next
      case (2 ptr act s)
      let ?m = "m\<lparr>meta_sys := s, metadata_chunk_alloc := ptr, metadata_chunk_avail := act\<rparr>"
      have "H \<subseteq> owned (sys_os (meta_sys m))" using inv by (simp add: meta_inv_def)
      with 2 have "H \<subseteq> owned (sys_os s)" "bytes_at ptr act \<subseteq> owned (sys_os s) - H" by (simp_all add: fresh_region_def) blast+
      with 2 have i: "meta_inv owned H ?m" by (intro meta_invI) (simp_all add: fresh_region_def)
      have "bytes + 0 \<le> metadata_chunk_avail ?m" "64 dvd metadata_chunk_alloc ?m + 0"
        using 2 b by (simp_all add: fresh_region_def)
      from meta_postI [OF _ meta_bump [OF i b(1) this], of m] True 2 b show ?thesis
        by (simp add: MetaDataAlloc_def al_def [symmetric] Let_def)
    qed
  qed
qed

lemma MetaDataAlloc_spec:
  assumes "os_sane env owned" "meta_inv owned H m" "0 < bytes" "bytes < 2 ^ 64"
  shows "wpo (MetaDataAlloc env m bytes) (\<lambda>(p, m'). meta_post owned H m bytes p m')"
  using MetaDataAlloc_large [OF assms] MetaDataAlloc_small [OF assms(1-3)] by (cases "bytes < kMetadataAllocChunkSize") auto

section \<open>Objects\<close>

text \<open>
  The allocator for objects of \<open>sz\<close> bytes with the live objects \<open>L\<close> and the free objects \<open>F\<close>: every object and the
  uncarved area are made of bytes handed out by \<^verbatim>\<open>MetaDataAlloc\<close>, and no two of them overlap.
\<close>

definition objs_ok :: "nat \<Rightarrow> nat set \<Rightarrow> nat set \<Rightarrow> nat \<Rightarrow> nat \<Rightarrow> bool" where
  "objs_ok sz H X lo n \<longleftrightarrow>
     (\<forall>p \<in> X. bytes_at p sz \<subseteq> H - bytes_at lo n) \<and>
     (\<forall>p \<in> X. \<forall>q \<in> X. p \<noteq> q \<longrightarrow> bytes_at p sz \<inter> bytes_at q sz = {}) \<and>
     bytes_at lo n \<subseteq> H \<and> (n \<noteq> 0 \<longrightarrow> lo \<noteq> 0)"

definition pha_rep :: "nat \<Rightarrow> pha \<Rightarrow> nat set \<Rightarrow> nat set \<Rightarrow> nat list \<Rightarrow> bool" where
  "pha_rep sz a H L F \<longleftrightarrow>
     sll (links a) (free_list a) F \<and> L \<inter> set F = {} \<and> 0 \<notin> L \<and> objs_ok sz H (L \<union> set F) (free_area a) (free_avail a)"

definition pha_inv :: "nat \<Rightarrow> pha \<Rightarrow> nat set \<Rightarrow> nat set \<Rightarrow> bool" where
  "pha_inv sz a H L \<longleftrightarrow> (\<exists>F. pha_rep sz a H L F)"

text \<open>There is room for \<open>k\<close> objects without asking for more memory.\<close>

definition pha_room :: "nat \<Rightarrow> pha \<Rightarrow> nat \<Rightarrow> bool" where
  "pha_room sz a k \<longleftrightarrow> (\<exists>F. sll (links a) (free_list a) F \<and> k \<le> length F + free_avail a div sz)"

lemma objs_ok_mono: "objs_ok sz H X lo n \<Longrightarrow> H \<subseteq> H' \<Longrightarrow> objs_ok sz H' X lo n"
  unfolding objs_ok_def by blast

lemma objs_ok_carve:
  assumes "objs_ok sz H X lo n" "0 < sz" "sz \<le> n"
  shows "lo \<notin> X" "objs_ok sz H (insert lo X) (lo + sz) (n - sz)"
proof -
  have i: "\<forall>p \<in> X. bytes_at p sz \<subseteq> H - bytes_at lo n" "\<forall>p \<in> X. \<forall>q \<in> X. p \<noteq> q \<longrightarrow> bytes_at p sz \<inter> bytes_at q sz = {}"
    "bytes_at lo n \<subseteq> H" "n \<noteq> 0 \<longrightarrow> lo \<noteq> 0"
    using assms(1) by (simp_all add: objs_ok_def)
  have sub: "bytes_at lo sz \<subseteq> bytes_at lo n" "bytes_at (lo + sz) (n - sz) \<subseteq> bytes_at lo n"
    "bytes_at lo sz \<inter> bytes_at (lo + sz) (n - sz) = {}"
    using assms(3) by auto
  have d: "bytes_at q sz \<inter> bytes_at lo sz = {}" if "q \<in> X" for q using i(1) that sub(1) by blast
  have "lo \<in> bytes_at lo sz" using assms(2) by simp
  then show "lo \<notin> X" using d by blast
  have "bytes_at p sz \<subseteq> H - bytes_at (lo + sz) (n - sz)" if "p \<in> insert lo X" for p
    using that i(1,3) sub by blast
  moreover have "bytes_at p sz \<inter> bytes_at q sz = {}" if "p \<in> insert lo X" "q \<in> insert lo X" "p \<noteq> q" for p q
    using that i(2) d by blast
  moreover have "bytes_at (lo + sz) (n - sz) \<subseteq> H" using i(3) sub(2) by blast
  ultimately show "objs_ok sz H (insert lo X) (lo + sz) (n - sz)"
    unfolding objs_ok_def using assms(2) by (intro conjI ballI impI) simp_all
qed

text \<open>A new area replaces the rest of the old one.\<close>

lemma objs_ok_new_area:
  assumes "objs_ok sz H X lo n" "bytes_at p k \<inter> H = {}" "p \<noteq> 0"
  shows "objs_ok sz (H \<union> bytes_at p k) X p k"
  using assms unfolding objs_ok_def by blast

lemma pha_inv_mono: "pha_inv sz a H L \<Longrightarrow> H \<subseteq> H' \<Longrightarrow> pha_inv sz a H' L"
  unfolding pha_inv_def pha_rep_def using objs_ok_mono by blast

text \<open>
  The state of the metadata next to \<open>R\<close>, bytes of the process that serve other purposes (the pages of the heap):
  the objects of the allocator lie outside of them.
\<close>

definition alloc_inv :: "('o \<Rightarrow> nat set) \<Rightarrow> nat \<Rightarrow> nat set \<Rightarrow> pha \<Rightarrow> 'o meta \<Rightarrow> nat set \<Rightarrow> bool" where
  "alloc_inv owned sz R a m L \<longleftrightarrow> (\<exists>H. pha_inv sz a H L \<and> H \<inter> R = {} \<and> meta_inv owned (H \<union> R) m)"

lemma alloc_inv_system:
  assumes "alloc_inv owned sz R a m L" "owned (sys_os (meta_sys m)) \<subseteq> owned (sys_os s)"
    "fresh_region (owned (sys_os (meta_sys m))) (owned (sys_os s)) n al p k"
  shows "alloc_inv owned sz (R \<union> bytes_at p k) a (m\<lparr>meta_sys := s\<rparr>) L" "bytes_at p k \<inter> R = {}"
proof -
  obtain H where H: "pha_inv sz a H L" "H \<inter> R = {}" "meta_inv owned (H \<union> R) m" using assms(1) by (auto simp: alloc_inv_def)
  have d: "bytes_at p k \<inter> (H \<union> R) = {}" using assms(3) H(3) unfolding fresh_region_def meta_inv_def by blast
  then show "bytes_at p k \<inter> R = {}" by blast
  have "meta_inv owned (H \<union> (R \<union> bytes_at p k)) (m\<lparr>meta_sys := s\<rparr>)"
    using meta_inv_system [OF H(3) assms(3,2)] by (simp add: Un_assoc)
  moreover have "H \<inter> (R \<union> bytes_at p k) = {}" using H(2) d by blast
  ultimately show "alloc_inv owned sz (R \<union> bytes_at p k) a (m\<lparr>meta_sys := s\<rparr>) L"
    using H(1) by (auto simp only: alloc_inv_def)
qed

lemma alloc_inv_sys_mono:
  assumes "alloc_inv owned sz R a m L" "owned (sys_os (meta_sys m)) \<subseteq> owned (sys_os s)"
  shows "alloc_inv owned sz R a (m\<lparr>meta_sys := s\<rparr>) L"
  using assms meta_inv_mono unfolding alloc_inv_def by blast

lemma alloc_inv_owned: "alloc_inv owned sz R a m L \<Longrightarrow> R \<subseteq> owned (sys_os (meta_sys m))"
  unfolding alloc_inv_def meta_inv_def by blast

lemma alloc_inv_MetaDataAlloc:
  assumes "os_sane env owned" "alloc_inv owned sz R a m L" "0 < bytes" "bytes < 2 ^ 64"
  shows "wpo (MetaDataAlloc env m bytes) (\<lambda>(p, m'). alloc_inv owned sz R a m' L)"
proof -
  obtain H where H: "pha_inv sz a H L" "H \<inter> R = {}" "meta_inv owned (H \<union> R) m"
    using assms(2) by (auto simp: alloc_inv_def)
  show ?thesis
  proof (rule wpo_conseq [OF MetaDataAlloc_spec [OF assms(1) H(3) assms(3,4)]], clarify)
    fix p m' assume post: "meta_post owned (H \<union> R) m bytes p m'"
    show "alloc_inv owned sz R a m' L"
    proof (cases "p = 0")
      case True
      with post H show ?thesis by (auto simp: meta_post_def alloc_inv_def)
    next
      case False
      let ?H = "H \<union> bytes_at p bytes"
      have "meta_inv owned (?H \<union> R) m'" "bytes_at p bytes \<inter> (H \<union> R) = {}"
        using post False by (simp_all add: meta_post_def Un_ac)
      moreover from this H(2) have "?H \<inter> R = {}" by blast
      moreover have "pha_inv sz a ?H L" using H(1) by (rule pha_inv_mono) simp
      ultimately show ?thesis by (auto simp only: alloc_inv_def)
    qed
  qed
qed

lemma PHA_New_pop:
  assumes "alloc_inv owned sz R a m L" "free_list a \<noteq> 0"
  defines "p \<equiv> free_list a" and "a' \<equiv> a\<lparr>free_list := links a (free_list a), inuse := int32_of (inuse a + 1)\<rparr>"
  shows "p \<notin> L \<and> p \<noteq> 0 \<and> alloc_inv owned sz R a' m (insert p L) \<and> (\<forall>k. pha_room sz a (Suc k) \<longrightarrow> pha_room sz a' k)"
proof -
  obtain H F where H: "pha_rep sz a H L F" "H \<inter> R = {}" "meta_inv owned (H \<union> R) m"
    using assms(1) by (auto simp: alloc_inv_def pha_inv_def)
  obtain F' where F: "F = p # F'" "sll (links a) (links a p) F'"
    using H(1) assms(2) by (auto simp: pha_rep_def sll_nonnull p_def)
  have "distinct F" using H(1) by (auto simp: pha_rep_def dest: sll_distinct)
  then have "pha_rep sz a' H (insert p L) F'" using H(1) F assms(2) by (auto simp: pha_rep_def a'_def p_def)
  moreover have "p \<notin> L" using H(1) F by (auto simp: pha_rep_def)
  moreover have "pha_room sz a' k" if "pha_room sz a (Suc k)" for k
  proof -
    have "sll (links a) (free_list a) F" using H(1) by (simp add: pha_rep_def)
    with that have "Suc k \<le> length F + free_avail a div sz" by (auto simp: pha_room_def dest: sll_unique)
    with F show ?thesis by (auto simp: pha_room_def a'_def p_def intro!: exI [of _ F'])
  qed
  ultimately show ?thesis using H(2,3) assms(2) by (auto simp: alloc_inv_def pha_inv_def p_def)
qed

lemma PHA_New_carve:
  assumes "alloc_inv owned sz R a m L" "free_list a = 0" "0 < sz" "sz \<le> free_avail a"
  defines "p \<equiv> free_area a" and
    "a' \<equiv> a\<lparr>free_area := free_area a + sz, free_avail := free_avail a - sz, inuse := int32_of (inuse a + 1)\<rparr>"
  shows "p \<notin> L \<and> p \<noteq> 0 \<and> alloc_inv owned sz R a' m (insert p L) \<and> (\<forall>k. pha_room sz a (Suc k) \<longrightarrow> pha_room sz a' k)"
proof -
  obtain H F where H: "pha_rep sz a H L F" "H \<inter> R = {}" "meta_inv owned (H \<union> R) m"
    using assms(1) by (auto simp: alloc_inv_def pha_inv_def)
  have F: "F = []" using H(1) assms(2) by (simp add: pha_rep_def)
  have o: "objs_ok sz H L (free_area a) (free_avail a)" using H(1) F by (simp add: pha_rep_def)
  have nz: "p \<noteq> 0" using o assms(3,4) by (simp add: objs_ok_def p_def)
  note c = objs_ok_carve [OF o assms(3,4)]
  have "pha_rep sz a' H (insert p L) []" using H(1) F c nz assms(2) by (simp add: pha_rep_def a'_def p_def)
  moreover have "pha_room sz a' k" if "pha_room sz a (Suc k)" for k
  proof -
    have "(free_avail a - sz) div sz + 1 = free_avail a div sz"
      using assms(3,4) by (metis Suc_eq_plus1 le_div_geq)
    with that show ?thesis using assms(2) by (auto simp: pha_room_def a'_def)
  qed
  ultimately show ?thesis using H(2,3) c(1) nz by (auto simp: alloc_inv_def pha_inv_def p_def)
qed

lemma PHA_Delete_spec:
  assumes "alloc_inv owned sz R a m L" "p \<in> L"
  shows "alloc_inv owned sz R (PHA_Delete a p) m (L - {p})" "pha_room sz a k \<Longrightarrow> pha_room sz (PHA_Delete a p) (Suc k)"
proof -
  obtain H F where H: "pha_rep sz a H L F" "H \<inter> R = {}" "meta_inv owned (H \<union> R) m"
    using assms(1) by (auto simp: alloc_inv_def pha_inv_def)
  have p: "p \<noteq> 0" "p \<notin> set F" using H(1) assms(2) by (auto simp: pha_rep_def)
  have s: "sll (links (PHA_Delete a p)) (free_list (PHA_Delete a p)) (p # F)"
    using H(1) p by (simp add: PHA_Delete_def pha_rep_def)
  have "L - {p} \<union> set (p # F) = L \<union> set F" using assms(2) by auto
  then have "pha_rep sz (PHA_Delete a p) H (L - {p}) (p # F)"
    using H(1) s unfolding pha_rep_def by (auto simp: PHA_Delete_def)
  with H(2,3) show "alloc_inv owned sz R (PHA_Delete a p) m (L - {p})" by (auto simp: alloc_inv_def pha_inv_def)
  show "pha_room sz (PHA_Delete a p) (Suc k)" if "pha_room sz a k"
  proof -
    have "sll (links a) (free_list a) F" using H(1) by (simp add: pha_rep_def)
    with that have "k \<le> length F + free_avail a div sz" by (auto simp: pha_room_def dest: sll_unique)
    with s show ?thesis unfolding pha_room_def by (intro exI [of _ "p # F"]) (simp add: PHA_Delete_def)
  qed
qed

lemma PHA_New_spec:
  assumes sane: "os_sane env owned" and inv: "alloc_inv owned sz R a m L" and sz: "0 < sz" "sz \<le> kAllocIncrement"
    and room: "f \<or> pha_room sz a 1"
  shows "wpf f (PHA_New env sz a m) (\<lambda>(p, a', m'). p \<notin> L \<and> p \<noteq> 0 \<and> alloc_inv owned sz R a' m' (insert p L) \<and>
    (\<forall>k. pha_room sz a (Suc k) \<longrightarrow> pha_room sz a' k))"
proof (cases "free_list a = 0 \<and> free_avail a < sz")
  case False
  then show ?thesis using PHA_New_pop [OF inv] PHA_New_carve [OF inv _ sz(1)]
    by (cases "free_list a = 0") (simp_all add: PHA_New_def)
next
  case True
  have noroom: "\<not> pha_room sz a (Suc k)" for k using True by (simp add: pha_room_def)
  with room have f: f by simp
  obtain H where H: "pha_inv sz a H L" "H \<inter> R = {}" "meta_inv owned (H \<union> R) m"
    using inv by (auto simp: alloc_inv_def)
  have "0 < kAllocIncrement" "kAllocIncrement < 2 ^ 64" by (simp_all add: tc_consts)
  from MetaDataAlloc_spec [OF sane H(3) this] obtain p m1 where
    md: "MetaDataAlloc env m kAllocIncrement = Some (p, m1)" "meta_post owned (H \<union> R) m kAllocIncrement p m1"
    by (auto elim!: wpoE)
  show ?thesis
  proof (cases "p = 0")
    case p0: True
    with True md f show ?thesis by (simp add: PHA_New_def)
  next
    case False
    let ?a = "a\<lparr>free_area := p, free_avail := kAllocIncrement\<rparr>" and ?H = "H \<union> bytes_at p kAllocIncrement"
    have mi: "meta_inv owned (?H \<union> R) m1" and d: "bytes_at p kAllocIncrement \<inter> (H \<union> R) = {}"
      using md(2) False by (simp_all add: meta_post_def Un_ac)
    have "bytes_at p kAllocIncrement \<inter> H = {}" using d by blast
    then have "pha_inv sz ?a ?H L" using H(1) objs_ok_new_area [OF _ _ False] by (auto simp: pha_inv_def pha_rep_def)
    moreover have "?H \<inter> R = {}" using d H(2) by blast
    ultimately have "alloc_inv owned sz R ?a m1 L" using mi by (auto simp only: alloc_inv_def)
    from PHA_New_carve [OF this _ sz(1)] sz(2) True md(1) False noroom show ?thesis by (simp add: PHA_New_def)
  qed
qed

section \<open>The contract of an allocator of objects\<close>

text \<open>
  What the client of an allocator relies on: a new object is not null, differs from every live one, and only a
  live object is deleted.  \<open>inv s L\<close> says that \<open>L\<close> are the live objects in state \<open>s\<close>.  A sequence of requests is a list
  of \<open>None\<close> (new) and \<open>Some i\<close> (delete the i-th live object); it keeps the live objects distinct.
\<close>

fun run_requests :: "('s \<Rightarrow> (nat \<times> 's) option) \<Rightarrow> ('s \<Rightarrow> nat \<Rightarrow> 's) \<Rightarrow> nat option list \<Rightarrow> 's \<Rightarrow> nat list \<Rightarrow> ('s \<times> nat list) option" where
  "run_requests nw del [] s xs = Some (s, xs)"
| "run_requests nw del (None # rs) s xs = do { (p, s) \<leftarrow> nw s; run_requests nw del rs s (p # xs) }"
| "run_requests nw del (Some i # rs) s xs =
     (if i < length xs then run_requests nw del rs (del s (xs ! i)) (remove1 (xs ! i) xs) else None)"

locale object_allocator =
  fixes new_object :: "'s \<Rightarrow> (nat \<times> 's) option" and delete_object :: "'s \<Rightarrow> nat \<Rightarrow> 's" and inv :: "'s \<Rightarrow> nat set \<Rightarrow> bool"
  assumes new_object: "inv s L \<Longrightarrow> new_object s = Some (p, s') \<Longrightarrow> p \<noteq> 0 \<and> p \<notin> L \<and> inv s' (insert p L)"
    and delete_object: "inv s L \<Longrightarrow> p \<in> L \<Longrightarrow> inv (delete_object s p) (L - {p})"
begin

lemma requests:
  "inv s (set xs) \<Longrightarrow> distinct xs \<Longrightarrow> run_requests new_object delete_object rs s xs = Some (s', ys) \<Longrightarrow>
   distinct ys \<and> inv s' (set ys)"
proof (induction rs arbitrary: s xs)
  case (Cons r rs)
  show ?case
  proof (cases r)
    case None
    with Cons.prems obtain p s1 where n: "new_object s = Some (p, s1)"
        "run_requests new_object delete_object rs s1 (p # xs) = Some (s', ys)"
      by (auto split: bind_splits)
    from new_object [OF Cons.prems(1) n(1)] Cons.prems(2) Cons.IH [OF _ _ n(2)] show ?thesis by auto
  next
    case (Some i)
    with Cons.prems have i: "i < length xs"
        "run_requests new_object delete_object rs (delete_object s (xs ! i)) (remove1 (xs ! i) xs) = Some (s', ys)"
      by (auto split: if_splits)
    have "inv (delete_object s (xs ! i)) (set (remove1 (xs ! i) xs))"
      using delete_object [OF Cons.prems(1), of "xs ! i"] i(1) Cons.prems(2) by simp
    from Cons.IH [OF this _ i(2)] Cons.prems(2) show ?thesis by simp
  qed
qed auto

end

text \<open>The page heap allocator of objects of \<open>sz\<close> bytes, on any operating system that keeps its promises.\<close>

definition pha_new :: "'o env \<Rightarrow> nat \<Rightarrow> pha \<times> 'o meta \<Rightarrow> (nat \<times> pha \<times> 'o meta) option" where
  "pha_new env sz s = PHA_New env sz (fst s) (snd s)"

definition pha_delete :: "pha \<times> 'o meta \<Rightarrow> nat \<Rightarrow> pha \<times> 'o meta" where
  "pha_delete s p = (PHA_Delete (fst s) p, snd s)"

lemma PHA_object_allocator:
  assumes "os_sane env owned" "0 < sz" "sz \<le> kAllocIncrement"
  shows "object_allocator (pha_new env sz) pha_delete (\<lambda>s. alloc_inv owned sz R (fst s) (snd s))"
proof
  fix s :: "pha \<times> 'a meta" and L p s'
  assume "alloc_inv owned sz R (fst s) (snd s) L" "pha_new env sz s = Some (p, s')"
  with PHA_New_spec [OF assms(1) _ assms(2,3), of R "fst s" "snd s" L True]
  show "p \<noteq> 0 \<and> p \<notin> L \<and> alloc_inv owned sz R (fst s') (snd s') (insert p L)"
    by (auto simp: pha_new_def dest: wpfD)
next
  fix s :: "pha \<times> 'a meta" and L p
  assume "alloc_inv owned sz R (fst s) (snd s) L" "p \<in> L"
  then show "alloc_inv owned sz R (fst (pha_delete s p)) (snd (pha_delete s p)) (L - {p})"
    by (simp add: pha_delete_def PHA_Delete_spec)
qed

interpretation span_alloc: object_allocator "pha_new bump_env 48" pha_delete
  "\<lambda>s. alloc_inv bump_owned 48 {} (fst s) (snd s)"
  by (rule PHA_object_allocator [OF bump_env_sane]) (simp_all add: tc_consts)

lemma PHA_Init_spec:
  assumes "os_sane env owned" "0 < sz" "sz \<le> kAllocIncrement" "meta_inv owned R m" "PHA_Init env sz l m = Some (a, m1)"
  shows "alloc_inv owned sz R a m1 {} \<and> pha_room sz a 1"
proof -
  let ?a = "\<lparr>free_area = 0, free_avail = 0, free_list = 0, inuse = 0, links = l\<rparr>"
  have i: "alloc_inv owned sz R ?a m {}"
    using assms(4) by (auto simp: alloc_inv_def pha_inv_def pha_rep_def objs_ok_def intro!: exI [of _ "{}"])
  obtain p a1 where n: "PHA_New env sz ?a m = Some (p, a1, m1)" "a = PHA_Delete a1 p"
    using assms(5) by (auto simp: PHA_Init_def split: bind_splits)
  have "alloc_inv owned sz R a1 m1 (insert p {})"
    using wpfD [OF PHA_New_spec [OF assms(1) i assms(2,3), of True] n(1)] by simp
  moreover from this have "pha_room sz a1 0" by (auto simp: pha_room_def alloc_inv_def pha_inv_def pha_rep_def)
  ultimately show ?thesis using PHA_Delete_spec(1) [of owned sz R a1 m1 "{p}" p] PHA_Delete_spec(2) [of owned sz R a1 m1 "{p}" p 0] n(2)
    by simp
qed

lemma alloc_inv_objects:
  assumes "alloc_inv owned sz R a m L"
  shows "0 \<notin> L" "p \<in> L \<Longrightarrow> bytes_at p sz \<subseteq> owned (sys_os (meta_sys m)) - R"
    "p \<in> L \<Longrightarrow> q \<in> L \<Longrightarrow> p \<noteq> q \<Longrightarrow> bytes_at p sz \<inter> bytes_at q sz = {}"
proof -
  obtain H F where H: "pha_rep sz a H L F" "H \<inter> R = {}" "meta_inv owned (H \<union> R) m"
    using assms by (auto simp: alloc_inv_def pha_inv_def)
  show "0 \<notin> L" using H(1) by (simp add: pha_rep_def)
  have o: "objs_ok sz H (L \<union> set F) (free_area a) (free_avail a)" using H(1) by (simp add: pha_rep_def)
  have "H \<subseteq> owned (sys_os (meta_sys m)) - R" using H(2,3) unfolding meta_inv_def by blast
  then show "bytes_at p sz \<subseteq> owned (sys_os (meta_sys m)) - R" if "p \<in> L" using o that unfolding objs_ok_def by blast
  show "bytes_at p sz \<inter> bytes_at q sz = {}" if "p \<in> L" "q \<in> L" "p \<noteq> q" using o that unfolding objs_ok_def by blast
qed

section \<open>An example\<close>

text \<open>An allocator of objects of 48 bytes on the example system, before and after \<^verbatim>\<open>Init\<close>.\<close>

definition bump_meta :: "(nat \<times> nat set) meta" where
  "bump_meta = \<lparr>meta_sys = \<lparr>sys_os = (5000, {}), mmap_hint = 0, failed_sbrk = False, failed_mmap = False, SystemTaken = 0\<rparr>,
     metadata_system_bytes = 0, metadata_chunk_alloc = 0, metadata_chunk_avail = 0\<rparr>"

definition bump_meta1 :: "(nat \<times> nat set) meta" where
  "bump_meta1 = \<lparr>meta_sys = \<lparr>sys_os = (8396800, {8192..<8396800}), mmap_hint = 0, failed_sbrk = False, failed_mmap = False,
       SystemTaken = 8388608\<rparr>, metadata_system_bytes = 131072, metadata_chunk_alloc = 139264, metadata_chunk_avail = 8257536\<rparr>"

definition bump_pha :: pha where
  "bump_pha = \<lparr>free_area = 8240, free_avail = 131024, free_list = 8192, inuse = 0, links = (\<lambda>_. 0)\<rparr>"

lemma bump_meta_inv: "meta_inv bump_owned {} bump_meta"
  by (simp add: meta_inv_def bump_meta_def)

lemma bump_PHA_Init: "PHA_Init bump_env 48 (\<lambda>_. 0) bump_meta = Some (bump_pha, bump_meta1)"
proof -
  have sbrk: "os_sbrk bump_env = bump_take" "os_break bump_env = fst" "FLAGS_malloc_skip_sbrk bump_env = False"
    by (simp_all add: bump_env_def)
  have "TCMalloc_SystemAlloc bump_env (meta_sys bump_meta) 8388608 64 = Some (Some (8192, 8388608), meta_sys bump_meta1)"
    by (simp add: TCMalloc_SystemAlloc_def DefaultSysAllocator_Alloc_def SbrkSysAllocator_Alloc_def sbrk_aligned_def
        sbrk bump_take_def bump_owned_def tc_consts CheckAddressBits_def w64_def Let_def and_exp_pred [of _ 6, simplified]
        drop_bit_eq_div bump_meta_def bump_meta1_def)
  then show ?thesis
    by (simp add: PHA_Init_def PHA_New_def PHA_Delete_def MetaDataAlloc_def kMetadataAllignment_def tc_consts Let_def
        int32_of_def w64_def fun_upd_idem bump_meta_def bump_meta1_def bump_pha_def)
qed

section \<open>Properties\<close>

text \<open>
  C25. On every operating system that keeps its promises, an initialised \<^verbatim>\<open>PageHeapAllocator\<close> serves every sequence of
  \<^verbatim>\<open>New\<close> and \<^verbatim>\<open>Delete\<close> requests with objects that are not null, occupy bytes of the process and do not overlap; and
  as long as there is room (a free object or uncarved space), \<^verbatim>\<open>New\<close> does not run out of memory.
\<close>

theorem PHA_requests_disjoint:
  assumes "os_sane env owned" "0 < sz" "sz \<le> kAllocIncrement" "meta_inv owned {} m" "PHA_Init env sz l m = Some (a, m1)"
    and "run_requests (pha_new env sz) pha_delete rs (a, m1) [] = Some ((a', m'), ys)"
  shows "distinct ys \<and> 0 \<notin> set ys \<and> (\<forall>p \<in> set ys. {p..<p + sz} \<subseteq> owned (sys_os (meta_sys m'))) \<and>
    (\<forall>p \<in> set ys. \<forall>q \<in> set ys. p \<noteq> q \<longrightarrow> {p..<p + sz} \<inter> {q..<q + sz} = {}) \<and>
    (pha_room sz a' 1 \<longrightarrow> (\<exists>p s. pha_new env sz (a', m') = Some (p, s) \<and> p \<notin> set ys))"
proof -
  have "alloc_inv owned sz {} a m1 {}" using PHA_Init_spec [OF assms(1-5)] by simp
  then have r: "distinct ys" "alloc_inv owned sz {} a' m' (set ys)"
    using object_allocator.requests [OF PHA_object_allocator [OF assms(1-3), of "{}"] _ _ assms(6)] by simp_all
  have "\<exists>p s. pha_new env sz (a', m') = Some (p, s) \<and> p \<notin> set ys" if "pha_room sz a' 1"
    using PHA_New_spec [OF assms(1) r(2) assms(2,3), of False] that
    by (auto simp: wpf_total pha_new_def elim!: wpoE)
  with r alloc_inv_objects [OF r(2)] show ?thesis by simp
qed

theorem PHA_requests_disjoint_witness:
  "\<exists>s ys. PHA_Init bump_env 48 (\<lambda>_. 0) bump_meta = Some (bump_pha, bump_meta1) \<and>
     run_requests (pha_new bump_env 48) pha_delete [None, None, Some 0, None] (bump_pha, bump_meta1) [] = Some (s, ys) \<and>
     length ys = 2 \<and> distinct ys \<and> 0 \<notin> set ys"
proof -
  note P = PHA_requests_disjoint [OF bump_env_sane _ _ bump_meta_inv bump_PHA_Init, of "[None, None, Some 0, None]"]
  have "\<exists>a' m'. run_requests (pha_new bump_env 48) pha_delete [None, None, Some 0, None] (bump_pha, bump_meta1) [] = Some ((a', m'), [8240, 8192])"
    by (simp add: pha_new_def PHA_New_def pha_delete_def PHA_Delete_def int32_of_def bump_pha_def)
  with bump_PHA_Init P show ?thesis by (fastforce simp: tc_consts)
qed

end
