(* ===== verification/Span.thy ===== *)
theory Span
  imports MetaAlloc
begin

text \<open>
  Spans, the runs of pages of src/span.h and src/span.cc: the descriptor, its allocation, the order of the sets of
  large free spans, and the circular doubly linked lists of small free spans.

  The pointer-level list operations are shown to implement operations on HOL lists (locale \<open>span_list\<close>, interpreted
  on them); the page heap and the central free lists are modelled on top of the HOL lists.
\<close>

section \<open>Descriptors\<close>

datatype location = IN_USE | ON_NORMAL_FREELIST | ON_RETURNED_FREELIST

text \<open>The link fields are the subject of the second part; the set iterator is the position in the set.\<close>

record span =
  start :: nat
  len :: nat
  objects :: nat
  refcount :: nat
  sizeclass :: nat
  location :: location
  sample :: bool

definition sizeof_Span :: nat where [tc_consts]: "sizeof_Span = 48"

definition zero_span :: span where
  "zero_span = \<lparr>start = 0, len = 0, objects = 0, refcount = 0, sizeclass = 0, location = IN_USE, sample = False\<rparr>"

text \<open>The objects of type \<^verbatim>\<open>Span\<close> in memory.\<close>

type_synonym spans = "nat \<rightharpoonup> span"

definition NewSpan :: "'o env \<Rightarrow> pha \<Rightarrow> 'o meta \<Rightarrow> spans \<Rightarrow> nat \<Rightarrow> nat \<Rightarrow> (nat \<times> pha \<times> 'o meta \<times> spans) option" where
  "NewSpan env a m S p n = do {
     (result, a, m) \<leftarrow> PHA_New env sizeof_Span a m;
     Some (result, a, m, S(result \<mapsto> zero_span\<lparr>start := p, len := n\<rparr>)) }"

definition DeleteSpan :: "pha \<Rightarrow> spans \<Rightarrow> nat \<Rightarrow> pha \<times> spans" where
  "DeleteSpan a S p = (PHA_Delete a p, S(p := None))"

text \<open>
  An element of a set of large spans: the cached length, the pointer, and the start that the comparison reads through
  the pointer (it does not change while the span is in a set).  A set is the list of its elements in order.
\<close>

record span_ptr =
  sp_length :: nat
  sp_start :: nat
  sp_span :: nat

definition SpanPtrWithLength :: "spans \<Rightarrow> nat \<Rightarrow> span_ptr option" where
  "SpanPtrWithLength S p = do { s \<leftarrow> S p; Some \<lparr>sp_length = len s, sp_start = start s, sp_span = p\<rparr> }"

definition SpanBestFitLess :: "span_ptr \<Rightarrow> span_ptr \<Rightarrow> bool" where
  "SpanBestFitLess a b =
     (if sp_length a < sp_length b then True
      else if sp_length a > sp_length b then False
      else sp_start a < sp_start b)"

fun SpanSet_insert :: "span_ptr \<Rightarrow> span_ptr list \<Rightarrow> span_ptr list" where
  "SpanSet_insert x [] = [x]"
| "SpanSet_insert x (y # ys) =
     (if SpanBestFitLess x y then x # y # ys
      else if SpanBestFitLess y x then y # SpanSet_insert x ys
      else y # ys)"

definition SpanSet_erase :: "nat \<Rightarrow> span_ptr list \<Rightarrow> span_ptr list" where
  "SpanSet_erase p = filter (\<lambda>e. sp_span e \<noteq> p)"

definition SpanSet_upper_bound :: "span_ptr \<Rightarrow> span_ptr list \<Rightarrow> nat option" where
  "SpanSet_upper_bound bound es = map_option sp_span (find (SpanBestFitLess bound) es)"

section \<open>Circular doubly linked lists\<close>

record dlinks =
  nxt :: "nat \<Rightarrow> nat"
  prv :: "nat \<Rightarrow> nat"

definition DLL_Init :: "dlinks \<Rightarrow> nat \<Rightarrow> dlinks" where
  "DLL_Init d lst = d\<lparr>nxt := (nxt d)(lst := lst), prv := (prv d)(lst := lst)\<rparr>"

definition DLL_IsEmpty :: "dlinks \<Rightarrow> nat \<Rightarrow> bool" where
  "DLL_IsEmpty d lst \<longleftrightarrow> nxt d lst = lst"

definition DLL_Remove :: "dlinks \<Rightarrow> nat \<Rightarrow> dlinks option" where
  "DLL_Remove d span =
     (if span = 0 \<or> prv d span = 0 \<or> nxt d span = 0 then None
      else
        let d = d\<lparr>nxt := (nxt d)(prv d span := nxt d span)\<rparr>;
            d = d\<lparr>prv := (prv d)(nxt d span := prv d span)\<rparr>
        in Some (d\<lparr>prv := (prv d)(span := 0), nxt := (nxt d)(span := 0)\<rparr>))"

definition DLL_Prepend :: "dlinks \<Rightarrow> nat \<Rightarrow> nat \<Rightarrow> dlinks option" where
  "DLL_Prepend d lst span =
     (if lst = 0 \<or> span = 0 \<or> nxt d lst = 0 then None
      else
        let d = d\<lparr>nxt := (nxt d)(span := nxt d lst), prv := (prv d)(span := lst)\<rparr>;
            d = d\<lparr>prv := (prv d)(nxt d lst := span)\<rparr>
        in Some (d\<lparr>nxt := (nxt d)(lst := span)\<rparr>))"

partial_function (option) DLL_Length_loop :: "dlinks \<Rightarrow> nat \<Rightarrow> nat \<Rightarrow> nat \<Rightarrow> nat option" where
  "DLL_Length_loop d lst s result =
     (if s \<noteq> lst then (if s = 0 then None else DLL_Length_loop d lst (nxt d s) (result + 1)) else Some result)"

definition DLL_Length :: "dlinks \<Rightarrow> nat \<Rightarrow> nat option" where
  "DLL_Length d lst = DLL_Length_loop d lst (nxt d lst) 0"

text \<open>\<open>dseg d a xs b\<close>: following the links both ways from \<open>a\<close> to \<open>b\<close> one meets \<open>xs\<close>.\<close>

fun dseg :: "dlinks \<Rightarrow> nat \<Rightarrow> nat list \<Rightarrow> nat \<Rightarrow> bool" where
  "dseg d a [] b \<longleftrightarrow> nxt d a = b \<and> prv d b = a"
| "dseg d a (x # xs) b \<longleftrightarrow> nxt d a = x \<and> prv d x = a \<and> dseg d x xs b"

definition dll :: "dlinks \<Rightarrow> nat \<Rightarrow> nat list \<Rightarrow> bool" where
  "dll d l xs \<longleftrightarrow> dseg d l xs l \<and> distinct (l # xs) \<and> 0 \<notin> set (l # xs)"

lemma dseg_append: "dseg d a (xs @ y # ys) b \<longleftrightarrow> dseg d a xs y \<and> dseg d y ys b"
  by (induction xs arbitrary: a) auto

lemma dseg_cong:
  "(\<And>x. x \<in> insert a (set xs) \<Longrightarrow> nxt d' x = nxt d x) \<Longrightarrow> (\<And>x. x \<in> insert b (set xs) \<Longrightarrow> prv d' x = prv d x) \<Longrightarrow>
   dseg d' a xs b = dseg d a xs b"
  by (induction xs arbitrary: a) auto

lemma dseg_next: "dseg d a xs b \<Longrightarrow> nxt d a = hd (xs @ [b])"
  by (cases xs) auto

lemma dseg_prev: "dseg d a xs b \<Longrightarrow> prv d b = last (a # xs)"
  by (induction xs arbitrary: a) auto

text \<open>Taking a node out of the middle.\<close>

lemma dseg_join:
  assumes "dseg d a ys x" "dseg d x zs b" "distinct (ys @ x # zs)" "a \<notin> set (ys @ x # zs)" "b \<notin> set (ys @ x # zs)"
    and "\<And>u. u \<noteq> last (a # ys) \<Longrightarrow> u \<noteq> x \<Longrightarrow> nxt d' u = nxt d u" "nxt d' (last (a # ys)) = hd (zs @ [b])"
    and "\<And>u. u \<noteq> hd (zs @ [b]) \<Longrightarrow> u \<noteq> x \<Longrightarrow> prv d' u = prv d u" "prv d' (hd (zs @ [b])) = last (a # ys)"
  shows "dseg d' a (ys @ zs) b"
  using assms
proof (induction ys arbitrary: a)
  case Nil
  show ?case
  proof (cases zs)
    case (Cons z zs')
    have "nxt d' u = nxt d u" if "u \<in> insert z (set zs')" for u using that Nil(3,4) Cons by (intro Nil(6)) auto
    moreover have "prv d' u = prv d u" if "u \<in> insert b (set zs')" for u using that Nil(3,5) Cons by (intro Nil(8)) auto
    ultimately have "dseg d' z zs' b = dseg d z zs' b" by (rule dseg_cong)
    with Nil Cons show ?thesis by simp
  qed (use Nil in simp)
next
  case (Cons y ys)
  have "dseg d' y (ys @ zs) b" using Cons.prems by (intro Cons.IH) auto
  moreover have "a \<noteq> last (y # ys)" "y \<noteq> hd (zs @ [b])" using Cons.prems(3-5) by (cases zs; auto)+
  ultimately show ?case using Cons.prems by auto
qed

lemma DLL_Init_spec: "l \<noteq> 0 \<Longrightarrow> dll (DLL_Init d l) l []"
  by (simp add: dll_def DLL_Init_def)

lemma DLL_IsEmpty_spec: "dll d l xs \<Longrightarrow> DLL_IsEmpty d l \<longleftrightarrow> xs = []"
  by (cases xs) (auto simp: dll_def DLL_IsEmpty_def)

lemma DLL_Prepend_spec:
  assumes "dll d l xs" "x \<noteq> 0" "x \<noteq> l" "x \<notin> set xs"
  shows "\<exists>d'. DLL_Prepend d l x = Some d' \<and> dll d' l (x # xs) \<and>
    (\<forall>u. u \<notin> insert x (insert l (set xs)) \<longrightarrow> nxt d' u = nxt d u \<and> prv d' u = prv d u)"
proof -
  have l: "l \<noteq> 0" "l \<notin> set xs" "dseg d l xs l" using assms(1) by (auto simp: dll_def)
  have nl: "nxt d l = hd (xs @ [l])" using l(3) by (rule dseg_next)
  have nz: "nxt d l \<noteq> 0" using nl assms(1) by (cases xs) (auto simp: dll_def)
  let ?d = "\<lparr>nxt = (nxt d)(x := nxt d l, l := x), prv = (prv d)(x := l, nxt d l := x), \<dots> = dlinks.more d\<rparr>"
  have p: "DLL_Prepend d l x = Some ?d" using l nz assms by (simp add: DLL_Prepend_def Let_def)
  have "dseg ?d x xs l"
  proof (cases xs)
    case (Cons y ys)
    then have "dseg d y ys l" "y \<noteq> l" "x \<noteq> y" using l assms by auto
    moreover have "dseg ?d y ys l = dseg d y ys l"
      using Cons assms nl by (intro dseg_cong) (auto simp: dll_def)
    ultimately show ?thesis using Cons nl assms by simp
  qed (use l assms in simp)
  moreover have "nxt d l = l \<or> nxt d l \<in> set xs" using nl by (cases xs) auto
  ultimately show ?thesis using p assms nl l by (intro exI [of _ ?d]) (auto simp: dll_def)
qed

lemma DLL_Remove_spec:
  assumes "dll d l (ys @ x # zs)"
  shows "\<exists>d'. DLL_Remove d x = Some d' \<and> dll d' l (ys @ zs) \<and> nxt d' x = 0 \<and> prv d' x = 0 \<and>
    (\<forall>u. u \<notin> insert l (set (ys @ x # zs)) \<longrightarrow> nxt d' u = nxt d u \<and> prv d' u = prv d u)"
proof -
  have s: "dseg d l ys x" "dseg d x zs l" and dist: "distinct (l # ys @ x # zs)" "0 \<notin> set (l # ys @ x # zs)"
    using assms by (auto simp: dll_def dseg_append)
  have n: "nxt d x = hd (zs @ [l])" and p: "prv d x = last (l # ys)" using dseg_next [OF s(2)] dseg_prev [OF s(1)] by auto
  have nm: "nxt d x \<in> insert l (set zs)" "prv d x \<in> insert l (set ys)" unfolding n p by (cases zs; cases ys rule: rev_cases; auto)+
  then have ne: "nxt d x \<noteq> x" "prv d x \<noteq> x" "nxt d x \<noteq> 0" "prv d x \<noteq> 0" "x \<noteq> 0" using dist by auto
  let ?d = "\<lparr>nxt = (nxt d)(prv d x := nxt d x, x := 0), prv = (prv d)(nxt d x := prv d x, x := 0), \<dots> = dlinks.more d\<rparr>"
  have r: "DLL_Remove d x = Some ?d" using ne by (simp add: DLL_Remove_def Let_def)
  have "dseg ?d l (ys @ zs) l"
    by (rule dseg_join [OF s]) (use dist ne n p in \<open>auto\<close>)
  then show ?thesis using r dist nm by (intro exI [of _ ?d]) (auto simp: dll_def)
qed

lemma DLL_Length_loop_spec:
  "dseg d a xs l \<Longrightarrow> l \<notin> set xs \<Longrightarrow> 0 \<notin> set xs \<Longrightarrow> DLL_Length_loop d l (nxt d a) n = Some (n + length xs)"
proof (induction xs arbitrary: a n)
  case Nil
  then show ?case by (subst DLL_Length_loop.simps) simp
next
  case (Cons x xs)
  then show ?case by (subst DLL_Length_loop.simps) auto
qed

lemma DLL_Length_spec: "dll d l xs \<Longrightarrow> DLL_Length d l = Some (length xs)"
  by (auto simp: DLL_Length_def dll_def DLL_Length_loop_spec)

text \<open>
  What the page heap and the central free lists rely on: the representation relates a list header to a HOL list,
  prepending adds in front and removing takes out the given node, whatever list it is on.  A sequence of requests
  (\<open>Inl\<close> to prepend, \<open>Inr\<close> to remove) then has on the links the effect it has on the HOL list.
\<close>

locale span_list =
  fixes is_list :: "'d \<Rightarrow> nat \<Rightarrow> nat list \<Rightarrow> bool"
    and prepend :: "'d \<Rightarrow> nat \<Rightarrow> nat \<Rightarrow> 'd option" and remove :: "'d \<Rightarrow> nat \<Rightarrow> 'd option"
    and empty_list :: "'d \<Rightarrow> nat \<Rightarrow> bool" and list_length :: "'d \<Rightarrow> nat \<Rightarrow> nat option"
  assumes nodes: "is_list d l xs \<Longrightarrow> distinct xs \<and> 0 \<notin> set xs \<and> l \<notin> set xs"
    and prepend: "is_list d l xs \<Longrightarrow> x \<noteq> 0 \<Longrightarrow> x \<noteq> l \<Longrightarrow> x \<notin> set xs \<Longrightarrow> \<exists>d'. prepend d l x = Some d' \<and> is_list d' l (x # xs)"
    and remove: "is_list d l (ys @ x # zs) \<Longrightarrow> \<exists>d'. remove d x = Some d' \<and> is_list d' l (ys @ zs)"
    and empty_list: "is_list d l xs \<Longrightarrow> empty_list d l \<longleftrightarrow> xs = []"
    and list_length: "is_list d l xs \<Longrightarrow> list_length d l = Some (length xs)"

fun run_links :: "('d \<Rightarrow> nat \<Rightarrow> nat \<Rightarrow> 'd option) \<Rightarrow> ('d \<Rightarrow> nat \<Rightarrow> 'd option) \<Rightarrow> 'd \<Rightarrow> nat \<Rightarrow> (nat + nat) list \<Rightarrow> 'd option" where
  "run_links pre rem d l [] = Some d"
| "run_links pre rem d l (Inl x # rs) = do { d \<leftarrow> pre d l x; run_links pre rem d l rs }"
| "run_links pre rem d l (Inr x # rs) = do { d \<leftarrow> rem d x; run_links pre rem d l rs }"

fun run_list :: "nat list \<Rightarrow> (nat + nat) list \<Rightarrow> nat list" where
  "run_list xs [] = xs"
| "run_list xs (Inl x # rs) = run_list (x # xs) rs"
| "run_list xs (Inr x # rs) = run_list (remove1 x xs) rs"

text \<open>Requests that respect the assertions of the code: a new node is on no list, a removed one is on the list.\<close>

fun legal :: "nat \<Rightarrow> nat list \<Rightarrow> (nat + nat) list \<Rightarrow> bool" where
  "legal l xs [] = True"
| "legal l xs (Inl x # rs) = (x \<noteq> 0 \<and> x \<noteq> l \<and> x \<notin> set xs \<and> legal l (x # xs) rs)"
| "legal l xs (Inr x # rs) = (x \<in> set xs \<and> legal l (remove1 x xs) rs)"

context span_list
begin

lemma remove_member:
  assumes "is_list d l xs" "x \<in> set xs"
  shows "\<exists>d'. remove d x = Some d' \<and> is_list d' l (remove1 x xs)"
proof -
  obtain ys zs where xs: "xs = ys @ x # zs" "x \<notin> set ys" using split_list_first [OF assms(2)] by blast
  with remove [of d l ys x zs] assms(1) show ?thesis by (simp add: remove1_append)
qed

lemma run_refines:
  "is_list d l xs \<Longrightarrow> legal l xs rs \<Longrightarrow>
   \<exists>d'. run_links prepend remove d l rs = Some d' \<and> is_list d' l (run_list xs rs) \<and>
     (empty_list d' l \<longleftrightarrow> run_list xs rs = []) \<and> list_length d' l = Some (length (run_list xs rs))"
proof (induction xs rs arbitrary: d rule: run_list.induct)
  case (1 xs)
  then show ?case by (simp add: empty_list list_length)
next
  case (2 xs x rs)
  then obtain d1 where d1: "prepend d l x = Some d1" "is_list d1 l (x # xs)" using prepend [of d l xs x] by auto
  from "2.IH" [OF d1(2)] "2.prems" d1(1) show ?case by auto
next
  case (3 xs x rs)
  then obtain d1 where d1: "remove d x = Some d1" "is_list d1 l (remove1 x xs)" using remove_member [of d l xs x] by auto
  from "3.IH" [OF d1(2)] "3.prems" d1(1) show ?case by auto
qed

end

interpretation DLL: span_list dll DLL_Prepend DLL_Remove DLL_IsEmpty DLL_Length
proof
  show "distinct xs \<and> 0 \<notin> set xs \<and> l \<notin> set xs" if "dll d l xs" for d l xs using that by (simp add: dll_def)
  show "\<exists>d'. DLL_Prepend d l x = Some d' \<and> dll d' l (x # xs)" if "dll d l xs" "x \<noteq> 0" "x \<noteq> l" "x \<notin> set xs" for d l xs x
    using DLL_Prepend_spec [OF that] by blast
  show "\<exists>d'. DLL_Remove d x = Some d' \<and> dll d' l (ys @ zs)" if "dll d l (ys @ x # zs)" for d l ys x zs
    using DLL_Remove_spec [OF that] by blast
  show "DLL_IsEmpty d l \<longleftrightarrow> xs = []" if "dll d l xs" for d l xs using that by (rule DLL_IsEmpty_spec)
  show "DLL_Length d l = Some (length xs)" if "dll d l xs" for d l xs using that by (rule DLL_Length_spec)
qed

section \<open>Properties\<close>



end
