(* ===== verification/PageMap.thy ===== *)
theory PageMap
  imports Prelude
begin

unbundle bit_operations_syntax

text \<open>
  The page maps of \<^verbatim>\<open>src/pagemap.h\<close>: maps from page numbers to pointers as a flat array
  (\<^verbatim>\<open>TCMalloc_PageMap1\<close>), a two-level (\<^verbatim>\<open>TCMalloc_PageMap2\<close>) and a three-level radix tree
  (\<^verbatim>\<open>TCMalloc_PageMap3\<close>).  \<open>BITS\<close> is the template parameter; pointers are numbers, 0 is \<^verbatim>\<open>nullptr\<close>.  No node is
  shared, so a pointer to a node is an optional node.  The allocator is a parameter: a function from the
  size and its own state to an address (0 when it fails) and its new state.  Writing through a missing
  node or past the end of an array is \<^term>\<open>None\<close>.

  The locale \<open>page_map\<close> is the contract of the page heap with its page map, the locale
  \<open>checked_page_map\<close> adds that \<^verbatim>\<open>Ensure\<close> refuses pages that do not fit; the three maps are
  interpretations.
\<close>

type_synonym 'a allocator = "nat \<Rightarrow> 'a \<Rightarrow> nat \<times> 'a"

section \<open>The flat array\<close>

definition PageMap1_new :: "'a allocator \<Rightarrow> 'a \<Rightarrow> nat \<Rightarrow> ((nat \<Rightarrow> nat) \<times> 'a) option" where
  "PageMap1_new allocator a BITS =
     (case allocator (8 * 2 ^ BITS) a of (p, a) \<Rightarrow> if p = 0 then None else Some (\<lambda>_. 0, a))"

text \<open>\<^verbatim>\<open>n <= LENGTH - x\<close>: the difference is computed in \<^verbatim>\<open>uintptr_t\<close>.\<close>

definition PageMap1_Ensure :: "nat \<Rightarrow> 'a allocator \<Rightarrow> (nat \<Rightarrow> nat) \<Rightarrow> 'a \<Rightarrow> nat \<Rightarrow> nat \<Rightarrow> bool \<times> (nat \<Rightarrow> nat) \<times> 'a" where
  "PageMap1_Ensure BITS allocator arr a x n = (n \<le> nat ((2 ^ BITS - int x) mod 2 ^ 64), arr, a)"

definition PageMap1_get :: "nat \<Rightarrow> (nat \<Rightarrow> nat) \<Rightarrow> nat \<Rightarrow> nat" where
  "PageMap1_get BITS arr k = (if drop_bit BITS k > 0 then 0 else arr k)"

definition PageMap1_set :: "nat \<Rightarrow> (nat \<Rightarrow> nat) \<Rightarrow> nat \<Rightarrow> nat \<Rightarrow> (nat \<Rightarrow> nat) option" where
  "PageMap1_set BITS arr k v = (if k < 2 ^ BITS then Some (arr(k := v)) else None)"

text \<open>The first non-null entry of an array among the indices \<open>i\<close> to \<open>len - 1\<close>, or null.\<close>

function scan_array :: "(nat \<Rightarrow> nat) \<Rightarrow> nat \<Rightarrow> nat \<Rightarrow> nat" where
  "scan_array arr len i = (if i < len then (if arr i \<noteq> 0 then arr i else scan_array arr len (i + 1)) else 0)"
  by pat_completeness auto
termination by (relation "measure (\<lambda>(arr, len, i). len - i)") auto

declare scan_array.simps [simp del]

definition PageMap1_Next :: "nat \<Rightarrow> (nat \<Rightarrow> nat) \<Rightarrow> nat \<Rightarrow> nat" where
  "PageMap1_Next BITS arr k = scan_array arr (2 ^ BITS) k"

section \<open>The two-level tree\<close>

type_synonym leaf = "nat \<Rightarrow> nat"
type_synonym pagemap2 = "nat \<Rightarrow> leaf option"

definition LEAF_BITS2 :: "nat \<Rightarrow> nat" where "LEAF_BITS2 BITS = (BITS + 1) div 2"
definition LEAF_LENGTH2 :: "nat \<Rightarrow> nat" where "LEAF_LENGTH2 BITS = 2 ^ LEAF_BITS2 BITS"
definition ROOT_BITS2 :: "nat \<Rightarrow> nat" where "ROOT_BITS2 BITS = BITS - LEAF_BITS2 BITS"
definition ROOT_LENGTH2 :: "nat \<Rightarrow> nat" where "ROOT_LENGTH2 BITS = 2 ^ ROOT_BITS2 BITS"

lemmas pm2_consts = LEAF_BITS2_def LEAF_LENGTH2_def ROOT_BITS2_def ROOT_LENGTH2_def

definition PageMap2_new :: pagemap2 where
  "PageMap2_new = (\<lambda>_. None)"

definition PageMap2_get :: "nat \<Rightarrow> pagemap2 \<Rightarrow> nat \<Rightarrow> nat" where
  "PageMap2_get BITS root k =
     (let i1 = drop_bit (LEAF_BITS2 BITS) k; i2 = k AND (LEAF_LENGTH2 BITS - 1)
      in if drop_bit BITS k > 0 then 0
         else case root i1 of None \<Rightarrow> 0 | Some values \<Rightarrow> values i2)"

definition PageMap2_set :: "nat \<Rightarrow> pagemap2 \<Rightarrow> nat \<Rightarrow> nat \<Rightarrow> pagemap2 option" where
  "PageMap2_set BITS root k v =
     (let i1 = drop_bit (LEAF_BITS2 BITS) k; i2 = k AND (LEAF_LENGTH2 BITS - 1)
      in if i1 \<ge> ROOT_LENGTH2 BITS then None
         else case root i1 of None \<Rightarrow> None | Some values \<Rightarrow> Some (root(i1 := Some (values(i2 := v)))))"

text \<open>
  One turn of the loop of \<^verbatim>\<open>Ensure\<close>: the first component tells whether the loop goes on; it ends the call
  with \<^verbatim>\<open>false\<close> otherwise.
\<close>

definition PageMap2_Ensure_step :: "nat \<Rightarrow> 'a allocator \<Rightarrow> pagemap2 \<Rightarrow> 'a \<Rightarrow> nat \<Rightarrow> bool \<times> pagemap2 \<times> 'a" where
  "PageMap2_Ensure_step BITS allocator root a key =
     (let i1 = drop_bit (LEAF_BITS2 BITS) key
      in if i1 \<ge> ROOT_LENGTH2 BITS then (False, root, a)
         else case root i1 of
             None \<Rightarrow> (case allocator (8 * LEAF_LENGTH2 BITS) a of (p, a) \<Rightarrow>
               if p = 0 then (False, root, a) else (True, root(i1 := Some (\<lambda>_. 0)), a))
           | Some values \<Rightarrow> (True, root, a))"

text \<open>
  The loop itself, \<^verbatim>\<open>for (key = start; key <= last; key = ((key >> LEAF_BITS) + 1) << LEAF_BITS)\<close>, which both
  trees share.  A turn that goes on has a key below \<open>2 ^ BITS\<close>, so the next key does not wrap; the last key
  \<^verbatim>\<open>start + n - 1\<close> may.
\<close>

function radix_Ensure :: "('m \<Rightarrow> 'a \<Rightarrow> nat \<Rightarrow> bool \<times> 'm \<times> 'a) \<Rightarrow> nat \<Rightarrow> 'm \<Rightarrow> 'a \<Rightarrow> nat \<Rightarrow> nat \<Rightarrow> bool \<times> 'm \<times> 'a" where
  "radix_Ensure step leaf_bits root a key last_key =
     (if key \<le> last_key then
        case step root a key of (go, root, a) \<Rightarrow>
          if go then radix_Ensure step leaf_bits root a (push_bit leaf_bits (drop_bit leaf_bits key + 1)) last_key
          else (False, root, a)
      else (True, root, a))"
  by pat_completeness auto
termination
  by (relation "measure (\<lambda>(st, lb, root, a, key, last_key). Suc last_key - key)")
    (use less_next_block in \<open>auto simp: drop_bit_eq_div push_bit_eq_mult intro!: diff_less_mono2 simp: less_Suc_eq_le\<close>)

declare radix_Ensure.simps [simp del]

definition PageMap2_Ensure :: "nat \<Rightarrow> 'a allocator \<Rightarrow> pagemap2 \<Rightarrow> 'a \<Rightarrow> nat \<Rightarrow> nat \<Rightarrow> bool \<times> pagemap2 \<times> 'a" where
  "PageMap2_Ensure BITS allocator root a start n =
     radix_Ensure (PageMap2_Ensure_step BITS allocator) (LEAF_BITS2 BITS) root a start (w64 (start + n + (2 ^ 64 - 1)))"

definition PageMap2_PreallocateMoreMemory :: "nat \<Rightarrow> 'a allocator \<Rightarrow> pagemap2 \<Rightarrow> 'a \<Rightarrow> pagemap2 \<times> 'a" where
  "PageMap2_PreallocateMoreMemory BITS allocator root a =
     (if BITS < 20 then snd (PageMap2_Ensure BITS allocator root a 0 (2 ^ BITS)) else (root, a))"

function PageMap2_Next :: "nat \<Rightarrow> pagemap2 \<Rightarrow> nat \<Rightarrow> nat" where
  "PageMap2_Next BITS root k =
     (if k < 2 ^ BITS then
        let i1 = drop_bit (LEAF_BITS2 BITS) k;
            found = (case root i1 of None \<Rightarrow> 0
                       | Some values \<Rightarrow> scan_array values (LEAF_LENGTH2 BITS) (k AND (LEAF_LENGTH2 BITS - 1)))
        in if found \<noteq> 0 then found else PageMap2_Next BITS root (push_bit (LEAF_BITS2 BITS) (i1 + 1))
      else 0)"
  by pat_completeness auto
termination
  by (relation "measure (\<lambda>(b, root, k). 2 ^ b - k)")
    (use less_next_block in \<open>auto simp: drop_bit_eq_div push_bit_eq_mult intro!: diff_less_mono2\<close>)

declare PageMap2_Next.simps [simp del]

section \<open>The three-level tree\<close>

type_synonym node = "nat \<Rightarrow> leaf option"
type_synonym pagemap3 = "nat \<Rightarrow> node option"

definition INTERIOR_BITS3 :: "nat \<Rightarrow> nat" where "INTERIOR_BITS3 BITS = (BITS + 2) div 3"
definition INTERIOR_LENGTH3 :: "nat \<Rightarrow> nat" where "INTERIOR_LENGTH3 BITS = 2 ^ INTERIOR_BITS3 BITS"
definition LEAF_BITS3 :: "nat \<Rightarrow> nat" where "LEAF_BITS3 BITS = BITS - 2 * INTERIOR_BITS3 BITS"
definition LEAF_LENGTH3 :: "nat \<Rightarrow> nat" where "LEAF_LENGTH3 BITS = 2 ^ LEAF_BITS3 BITS"

lemmas pm3_consts = INTERIOR_BITS3_def INTERIOR_LENGTH3_def LEAF_BITS3_def LEAF_LENGTH3_def

definition PageMap3_i1 :: "nat \<Rightarrow> nat \<Rightarrow> nat" where
  "PageMap3_i1 BITS k = drop_bit (LEAF_BITS3 BITS + INTERIOR_BITS3 BITS) k"

definition PageMap3_i2 :: "nat \<Rightarrow> nat \<Rightarrow> nat" where
  "PageMap3_i2 BITS k = drop_bit (LEAF_BITS3 BITS) k AND (INTERIOR_LENGTH3 BITS - 1)"

definition PageMap3_i3 :: "nat \<Rightarrow> nat \<Rightarrow> nat" where
  "PageMap3_i3 BITS k = k AND (LEAF_LENGTH3 BITS - 1)"

definition PageMap3_new :: pagemap3 where
  "PageMap3_new = (\<lambda>_. None)"

definition PageMap3_get :: "nat \<Rightarrow> pagemap3 \<Rightarrow> nat \<Rightarrow> nat" where
  "PageMap3_get BITS root k =
     (if drop_bit BITS k > 0 then 0
      else case root (PageMap3_i1 BITS k) of None \<Rightarrow> 0
        | Some ptrs \<Rightarrow> (case ptrs (PageMap3_i2 BITS k) of None \<Rightarrow> 0
            | Some values \<Rightarrow> values (PageMap3_i3 BITS k)))"

definition PageMap3_set :: "nat \<Rightarrow> pagemap3 \<Rightarrow> nat \<Rightarrow> nat \<Rightarrow> pagemap3 option" where
  "PageMap3_set BITS root k v =
     (if PageMap3_i1 BITS k \<ge> INTERIOR_LENGTH3 BITS then None
      else case root (PageMap3_i1 BITS k) of None \<Rightarrow> None
        | Some ptrs \<Rightarrow> (case ptrs (PageMap3_i2 BITS k) of None \<Rightarrow> None
            | Some values \<Rightarrow> Some (root(PageMap3_i1 BITS k :=
                Some (ptrs(PageMap3_i2 BITS k := Some (values(PageMap3_i3 BITS k := v))))))))"

text \<open>One turn of the loop of \<^verbatim>\<open>Ensure\<close>: make the interior node, then the leaf.\<close>

definition PageMap3_Ensure_step :: "nat \<Rightarrow> 'a allocator \<Rightarrow> pagemap3 \<Rightarrow> 'a \<Rightarrow> nat \<Rightarrow> bool \<times> pagemap3 \<times> 'a" where
  "PageMap3_Ensure_step BITS allocator root a key =
     (let i1 = PageMap3_i1 BITS key; i2 = PageMap3_i2 BITS key
      in if i1 \<ge> INTERIOR_LENGTH3 BITS \<or> i2 \<ge> INTERIOR_LENGTH3 BITS then (False, root, a)
         else
           let (made, root, a) =
             (case root i1 of
                None \<Rightarrow> (case allocator (8 * INTERIOR_LENGTH3 BITS) a of (p, a) \<Rightarrow>
                  if p = 0 then (False, root, a) else (True, root(i1 := Some (\<lambda>_. None)), a))
              | Some ptrs \<Rightarrow> (True, root, a))
           in if \<not> made then (False, root, a)
              else case root i1 of None \<Rightarrow> (False, root, a)
                | Some ptrs \<Rightarrow> (case ptrs i2 of
                    None \<Rightarrow> (case allocator (8 * LEAF_LENGTH3 BITS) a of (p, a) \<Rightarrow>
                      if p = 0 then (False, root, a)
                      else (True, root(i1 := Some (ptrs(i2 := Some (\<lambda>_. 0)))), a))
                  | Some values \<Rightarrow> (True, root, a)))"

definition PageMap3_Ensure :: "nat \<Rightarrow> 'a allocator \<Rightarrow> pagemap3 \<Rightarrow> 'a \<Rightarrow> nat \<Rightarrow> nat \<Rightarrow> bool \<times> pagemap3 \<times> 'a" where
  "PageMap3_Ensure BITS allocator root a start n =
     radix_Ensure (PageMap3_Ensure_step BITS allocator) (LEAF_BITS3 BITS) root a start (w64 (start + n + (2 ^ 64 - 1)))"

function PageMap3_Next :: "nat \<Rightarrow> pagemap3 \<Rightarrow> nat \<Rightarrow> nat" where
  "PageMap3_Next BITS root k =
     (if k < 2 ^ BITS then
        case root (PageMap3_i1 BITS k) of
          None \<Rightarrow> PageMap3_Next BITS root
                    (push_bit (LEAF_BITS3 BITS + INTERIOR_BITS3 BITS) (PageMap3_i1 BITS k + 1))
        | Some ptrs \<Rightarrow>
            let found = (case ptrs (PageMap3_i2 BITS k) of None \<Rightarrow> 0
                           | Some values \<Rightarrow> scan_array values (LEAF_LENGTH3 BITS) (PageMap3_i3 BITS k))
            in if found \<noteq> 0 then found
               else PageMap3_Next BITS root (push_bit (LEAF_BITS3 BITS) (drop_bit (LEAF_BITS3 BITS) k + 1))
      else 0)"
  by pat_completeness auto
termination
  by (relation "measure (\<lambda>(b, root, k). 2 ^ b - k)")
    (use less_next_block in \<open>auto simp: PageMap3_i1_def drop_bit_eq_div push_bit_eq_mult intro!: diff_less_mono2\<close>)

declare PageMap3_Next.simps [simp del]

section \<open>What Next computes\<close>

text \<open>The first non-null value of \<open>g\<close> at a key from \<open>k\<close> on, null if there is none.\<close>

definition next_spec :: "(nat \<Rightarrow> nat) \<Rightarrow> nat \<Rightarrow> nat \<Rightarrow> bool" where
  "next_spec g k r \<longleftrightarrow>
     (if r = 0 then \<forall>j \<ge> k. g j = 0 else \<exists>j \<ge> k. g j = r \<and> (\<forall>i. k \<le> i \<and> i < j \<longrightarrow> g i = 0))"

lemma next_spec_skip:
  assumes "k \<le> e" "\<And>j. k \<le> j \<Longrightarrow> j < e \<Longrightarrow> g j = 0" "next_spec g e r"
  shows "next_spec g k r"
proof (cases "r = 0")
  case True
  with assms show ?thesis unfolding next_spec_def by (simp, metis not_le)
next
  case False
  with assms(3) obtain j where "e \<le> j" "g j = r" "\<forall>i. e \<le> i \<and> i < j \<longrightarrow> g i = 0"
    by (auto simp: next_spec_def)
  with assms(1,2) False show ?thesis
    unfolding next_spec_def by (auto intro!: exI [of _ j]) (metis not_le)
qed

lemma next_spec_hit: "k \<le> j \<Longrightarrow> g j = r \<Longrightarrow> r \<noteq> 0 \<Longrightarrow> (\<And>i. k \<le> i \<Longrightarrow> i < j \<Longrightarrow> g i = 0) \<Longrightarrow> next_spec g k r"
  by (auto simp: next_spec_def)

lemma scan_array_zero: "scan_array arr len i = 0 \<Longrightarrow> i \<le> j \<Longrightarrow> j < len \<Longrightarrow> arr j = 0"
proof (induction arr len i rule: scan_array.induct)
  case (1 arr len i)
  then show ?case
    by (cases "i = j") (auto simp: scan_array.simps [of arr len i] scan_array.simps [of arr len j] split: if_splits)
qed

lemma scan_array_found:
  "scan_array arr len i \<noteq> 0 \<Longrightarrow>
   \<exists>j. i \<le> j \<and> j < len \<and> arr j = scan_array arr len i \<and> (\<forall>l. i \<le> l \<and> l < j \<longrightarrow> arr l = 0)"
proof (induction arr len i rule: scan_array.induct)
  case (1 arr len i)
  show ?case
  proof (cases "i < len \<and> arr i = 0")
    case True
    then have eq: "scan_array arr len i = scan_array arr len (i + 1)" by (simp add: scan_array.simps [of arr len i])
    then obtain j where j: "i + 1 \<le> j" "j < len" "arr j = scan_array arr len (i + 1)"
        "\<forall>l. i + 1 \<le> l \<and> l < j \<longrightarrow> arr l = 0"
      using 1 True by auto
    have "arr l = 0" if "i \<le> l" "l < j" for l using that j(4) True by (cases "l = i") auto
    with j eq show ?thesis by (intro exI [of _ j]) auto
  next
    case False
    with "1.prems" show ?thesis
      by (intro exI [of _ i]) (auto simp: scan_array.simps [of arr len i] split: if_splits)
  qed
qed

text \<open>A scan of one leaf, whose indices are the keys \<open>b\<close> to \<open>b + len - 1\<close>.\<close>

lemma next_spec_leaf:
  assumes "\<And>j. j < len \<Longrightarrow> g (b + j) = arr j" "i < len"
    and "scan_array arr len i = 0 \<Longrightarrow> next_spec g (b + len) r"
    and "scan_array arr len i \<noteq> 0 \<Longrightarrow> r = scan_array arr len i"
  shows "next_spec g (b + i) r"
proof (cases "scan_array arr len i = 0")
  case True
  show ?thesis
  proof (rule next_spec_skip [of _ "b + len"])
    fix j
    assume "b + i \<le> j" "j < b + len"
    then have "j = b + (j - b)" "i \<le> j - b" "j - b < len" by auto
    then show "g j = 0" using scan_array_zero [OF True] assms(1) [of "j - b"] by simp
  qed (use assms True in auto)
next
  case False
  from scan_array_found [OF this] obtain j where j: "i \<le> j" "j < len" "arr j = scan_array arr len i"
      "\<forall>l. i \<le> l \<and> l < j \<longrightarrow> arr l = 0" by blast
  show ?thesis
  proof (rule next_spec_hit [of _ "b + j"])
    fix l
    assume l: "b + i \<le> l" "l < b + j"
    then have "l = b + (l - b)" "i \<le> l - b" "l - b < j" by auto
    with j assms(1) [of "l - b"] show "g l = 0" by simp
  qed (use j assms(1,4) False in auto)
qed

section \<open>The contract of a page map\<close>

locale page_map =
  fixes bits :: nat
    and get :: "'m \<Rightarrow> nat \<Rightarrow> nat"
    and set_key :: "'m \<Rightarrow> nat \<Rightarrow> nat \<Rightarrow> 'm option"
    and ens :: "'m \<Rightarrow> nat \<Rightarrow> bool"
    and ensure :: "'a allocator \<Rightarrow> 'm \<Rightarrow> 'a \<Rightarrow> nat \<Rightarrow> nat \<Rightarrow> bool \<times> 'm \<times> 'a"
    and nxt :: "'m \<Rightarrow> nat \<Rightarrow> nat"
  assumes set_get: "ens m k \<Longrightarrow> \<exists>m'. set_key m k v = Some m' \<and>
      (\<forall>j. get m' j = (if j = k then v else get m j)) \<and> (\<forall>j. ens m' j = ens m j)"
    and ens_range: "ens m k \<Longrightarrow> k < 2 ^ bits"
    and get_unensured: "\<not> ens m k \<Longrightarrow> get m k = 0"
    and ensure_keeps: "ensure al m a start n = (ok, m', a') \<Longrightarrow>
      (\<forall>j. get m' j = get m j) \<and> (\<forall>j. ens m j \<longrightarrow> ens m' j)"
    and ensure_ens: "ensure al m a start n = (True, m', a') \<Longrightarrow> 0 < n \<Longrightarrow> start + n \<le> 2 ^ bits \<Longrightarrow>
      start \<le> j \<Longrightarrow> j < start + n \<Longrightarrow> ens m' j"
    and ensure_succeeds: "(\<And>sz a. fst (al sz a) \<noteq> 0) \<Longrightarrow> 0 < n \<Longrightarrow> start + n \<le> 2 ^ bits \<Longrightarrow>
      fst (ensure al m a start n)"
    and next_least: "next_spec (get m) k (nxt m k)"

text \<open>Writing the same value at \<open>n\<close> consecutive keys.\<close>

fun set_range :: "('m \<Rightarrow> nat \<Rightarrow> nat \<Rightarrow> 'm option) \<Rightarrow> 'm \<Rightarrow> nat \<Rightarrow> nat \<Rightarrow> nat \<Rightarrow> 'm option" where
  "set_range st m p 0 v = Some m"
| "set_range st m p (Suc n) v = do { m \<leftarrow> st m p v; set_range st m (p + 1) n v }"

context page_map
begin

lemma set_range_get:
  "(\<And>j. p \<le> j \<Longrightarrow> j < p + n \<Longrightarrow> ens m j) \<Longrightarrow>
   \<exists>m'. set_range set_key m p n v = Some m' \<and> (\<forall>j. get m' j = (if p \<le> j \<and> j < p + n then v else get m j)) \<and>
     (\<forall>j. ens m' j = ens m j)"
proof (induction n arbitrary: m p)
  case (Suc n)
  obtain m1 where m1: "set_key m p v = Some m1" "\<forall>j. get m1 j = (if j = p then v else get m j)"
      "\<forall>j. ens m1 j = ens m j"
    using set_get [of m p v] Suc.prems by auto
  obtain m2 where m2: "set_range set_key m1 (p + 1) n v = Some m2"
      "\<forall>j. get m2 j = (if p + 1 \<le> j \<and> j < p + 1 + n then v else get m1 j)" "\<forall>j. ens m2 j = ens m1 j"
    using Suc.IH [of "p + 1" m1] Suc.prems m1(3) by auto
  have "get m2 j = (if p \<le> j \<and> j < p + Suc n then v else get m j)" for j
    using m1(2) m2(2) by (cases "j = p") auto
  with m1 m2 show ?case by auto
qed simp

text \<open>What the page heap does with a fresh range of pages: ensure it, then point all of it to a span.\<close>

lemma ensure_set_range:
  assumes "ensure al m a p n = (True, m1, a')" "0 < n" "p + n \<le> 2 ^ bits"
  shows "\<exists>m'. set_range set_key m1 p n v = Some m' \<and>
    (\<forall>j. get m' j = (if p \<le> j \<and> j < p + n then v else get m j))"
  using set_range_get [of p n m1 v] ensure_ens [OF assms] ensure_keeps [OF assms(1)] by fastforce

end

text \<open>A page map whose \<^verbatim>\<open>Ensure\<close> also refuses every range that does not fit the map.\<close>

locale checked_page_map = page_map +
  assumes ensure_checks: "ensure al m a start n = (True, m', a') \<Longrightarrow> 0 < n \<Longrightarrow> start + n \<le> 2 ^ 64 \<Longrightarrow>
    start + n \<le> 2 ^ bits"
begin

lemma ensure_then_set_range:
  assumes "ensure al m a p n = (True, m1, a')" "0 < n" "p + n \<le> 2 ^ 64"
  shows "\<exists>m'. set_range set_key m1 p n v = Some m' \<and>
    (\<forall>j. get m' j = (if p \<le> j \<and> j < p + n then v else get m j))"
  using assms ensure_checks [OF assms] by (intro ensure_set_range) auto

lemma contract:
  assumes "0 < n" "p + n \<le> 2 ^ 64"
  shows "(\<forall>m1 a'. ensure al m a p n = (True, m1, a') \<longrightarrow> p + n \<le> 2 ^ bits \<and>
     (\<exists>m'. set_range set_key m1 p n v = Some m' \<and>
       (\<forall>j. get m' j = (if p \<le> j \<and> j < p + n then v else get m j)))) \<and>
    ((\<forall>sz a. fst (al sz a) \<noteq> 0) \<and> p + n \<le> 2 ^ bits \<longrightarrow> fst (ensure al m a p n))"
proof (intro conjI allI impI)
  fix m1 a'
  assume "ensure al m a p n = (True, m1, a')"
  from ensure_checks [OF this assms] ensure_then_set_range [OF this assms]
  show "p + n \<le> 2 ^ bits" "\<exists>m'. set_range set_key m1 p n v = Some m' \<and>
       (\<forall>j. get m' j = (if p \<le> j \<and> j < p + n then v else get m j))" .
qed (use assms(1) in \<open>auto intro!: ensure_succeeds\<close>)

end

section \<open>The three maps\<close>

lemma last_key_eq: "0 < n \<Longrightarrow> start + n \<le> 2 ^ 64 \<Longrightarrow> w64 (start + n + (2 ^ 64 - 1)) = start + n - 1"
proof -
  assume "0 < n" "start + n \<le> 2 ^ 64"
  then have "start + n + (2 ^ 64 - 1) = 2 ^ 64 + (start + n - 1)" "start + n - 1 < 2 ^ 64" by simp_all
  then show ?thesis by (simp only: w64_def mod_add_self1) simp
qed

definition ens1 :: "nat \<Rightarrow> (nat \<Rightarrow> nat) \<Rightarrow> nat \<Rightarrow> bool" where
  "ens1 BITS arr k \<longleftrightarrow> k < 2 ^ BITS"

lemma drop_bit_zero_iff: "drop_bit n (k::nat) > 0 \<longleftrightarrow> \<not> k < 2 ^ n"
  by (auto simp: drop_bit_eq_div div_greater_zero_iff)

lemma PageMap1_Next_spec: "next_spec (PageMap1_get BITS arr) k (PageMap1_Next BITS arr k)"
proof (cases "k < 2 ^ BITS")
  case True
  have "next_spec (PageMap1_get BITS arr) (0 + k) (PageMap1_Next BITS arr k)"
    using True unfolding PageMap1_Next_def
    by (intro next_spec_leaf [of "2 ^ BITS" _ 0 arr k]) (auto simp: PageMap1_get_def drop_bit_zero_iff next_spec_def)
  then show ?thesis by simp
next
  case False
  then show ?thesis
    by (auto simp: PageMap1_Next_def scan_array.simps [of arr "2 ^ BITS" k] next_spec_def PageMap1_get_def drop_bit_zero_iff)
qed

lemma PageMap1_page_map:
  assumes "BITS < 64"
  shows "page_map BITS (PageMap1_get BITS) (PageMap1_set BITS) (ens1 BITS)
    (PageMap1_Ensure BITS :: 'a allocator \<Rightarrow> _) (PageMap1_Next BITS)"
proof unfold_locales
  have pow: "(2::nat) ^ BITS < 2 ^ 64" using assms by (intro power_strict_increasing) auto
  have fits: "fst (PageMap1_Ensure BITS al m a start n)" if "start + n \<le> 2 ^ BITS"
    for al :: "'a allocator" and m a start n
  proof -
    have "(2 ^ BITS - int start) = int (2 ^ BITS - start)" using that by simp
    moreover have "int (2 ^ BITS - start) < 2 ^ 64"
    proof -
      have "2 ^ BITS - start < (2::nat) ^ 64" using pow by (rule le_less_trans [OF diff_le_self])
      then show ?thesis by (metis of_nat_less_iff of_nat_numeral of_nat_power)
    qed
    ultimately have "(2 ^ BITS - int start) mod 2 ^ 64 = int (2 ^ BITS - start)" by (simp only: mod_pos_pos_trivial of_nat_0_le_iff)
    then have "fst (PageMap1_Ensure BITS al m a start n) \<longleftrightarrow> n \<le> 2 ^ BITS - start" by (simp only: PageMap1_Ensure_def fst_conv nat_int)
    with that show ?thesis by linarith
  qed
  show "fst (PageMap1_Ensure BITS al m a start n)" if "start + n \<le> 2 ^ BITS"
    for al :: "'a allocator" and m a start n using fits [OF that] .
qed (auto simp: PageMap1_get_def PageMap1_set_def ens1_def PageMap1_Ensure_def drop_bit_zero_iff PageMap1_Next_spec)

lemma pm2_split: "1 \<le> BITS \<Longrightarrow> 2 ^ BITS = ROOT_LENGTH2 BITS * LEAF_LENGTH2 BITS"
  unfolding pm2_consts by (simp flip: power_add)

lemma pm2_pos [simp]: "0 < LEAF_LENGTH2 BITS" "0 < ROOT_LENGTH2 BITS"
  by (simp_all add: pm2_consts)

lemma pm2_index:
  "drop_bit (LEAF_BITS2 BITS) k = k div LEAF_LENGTH2 BITS"
  "k AND (LEAF_LENGTH2 BITS - 1) = k mod LEAF_LENGTH2 BITS"
  "push_bit (LEAF_BITS2 BITS) (i + 1) = (i + 1) * LEAF_LENGTH2 BITS"
  by (simp_all only: LEAF_LENGTH2_def drop_bit_eq_div push_bit_eq_mult and_exp_pred)

lemmas pm2_index_simps = pm2_index pm2_index(2) [unfolded One_nat_def] pm2_index(3) [folded Suc_eq_plus1]

lemma pm2_range: "1 \<le> BITS \<Longrightarrow> k div LEAF_LENGTH2 BITS < ROOT_LENGTH2 BITS \<longleftrightarrow> k < 2 ^ BITS"
  by (simp add: pm2_split div_less_iff_less_mult)

definition ens2 :: "nat \<Rightarrow> pagemap2 \<Rightarrow> nat \<Rightarrow> bool" where
  "ens2 BITS root k \<longleftrightarrow> k < 2 ^ BITS \<and> root (k div LEAF_LENGTH2 BITS) \<noteq> None"

lemma PageMap2_get_eq:
  "PageMap2_get BITS root k = (if k < 2 ^ BITS then case root (k div LEAF_LENGTH2 BITS) of None \<Rightarrow> 0
     | Some values \<Rightarrow> values (k mod LEAF_LENGTH2 BITS) else 0)"
  by (simp add: PageMap2_get_def Let_def drop_bit_zero_iff pm2_index_simps)

lemma PageMap2_set_get:
  assumes "1 \<le> BITS" "ens2 BITS root k"
  shows "\<exists>root'. PageMap2_set BITS root k v = Some root' \<and>
    (\<forall>j. PageMap2_get BITS root' j = (if j = k then v else PageMap2_get BITS root j)) \<and>
    (\<forall>j. ens2 BITS root' j = ens2 BITS root j)"
proof -
  let ?L = "LEAF_LENGTH2 BITS"
  obtain vals where vals: "root (k div ?L) = Some vals" "k < 2 ^ BITS" using assms(2) by (auto simp: ens2_def)
  let ?r = "root(k div ?L \<mapsto> vals(k mod ?L := v))"
  have "PageMap2_set BITS root k v = Some ?r"
    using vals pm2_range [OF assms(1), of k] by (simp add: PageMap2_set_def pm2_index_simps Let_def)
  moreover have "PageMap2_get BITS ?r j = (if j = k then v else PageMap2_get BITS root j)" for j
    using vals div_mod_eqI [of j ?L k] by (auto simp: PageMap2_get_eq)
  moreover have "ens2 BITS ?r j = ens2 BITS root j" for j using vals by (auto simp: ens2_def)
  ultimately show ?thesis by blast
qed

text \<open>The loop keeps what its steps keep, and covers the keys it was asked for.\<close>

lemma radix_Ensure_induct:
  fixes lk :: nat
  assumes "\<And>root a key. (\<And>root' a'. key \<le> lk \<Longrightarrow> st root a key = (True, root', a') \<Longrightarrow>
      P root' a' (push_bit lb (drop_bit lb key + 1))) \<Longrightarrow> P root a key"
  shows "P root a key"
proof (induction "Suc lk - key" arbitrary: root a key rule: less_induct)
  case less
  show ?case
  proof (rule assms)
    fix root' a'
    assume "key \<le> lk"
    moreover have "key < push_bit lb (drop_bit lb key + 1)"
      using less_next_block [of "2 ^ lb" key] by (simp add: drop_bit_eq_div push_bit_eq_mult)
    ultimately show "P root' a' (push_bit lb (drop_bit lb key + 1))" by (intro less) simp
  qed
qed

lemma radix_Ensure_cases:
  "radix_Ensure st lb root a key lk =
     (if key \<le> lk then
        case st root a key of (go, root', a') \<Rightarrow>
          if go then radix_Ensure st lb root' a' (push_bit lb (drop_bit lb key + 1)) lk else (False, root', a')
      else (True, root, a))"
  by (rule radix_Ensure.simps)

lemma radix_Ensure_keeps:
  assumes step: "\<And>root a key go root' a'. st root a key = (go, root', a') \<Longrightarrow> R root root'"
    and refl: "\<And>r. R r r" and trans: "\<And>r s t. R r s \<Longrightarrow> R s t \<Longrightarrow> R r t"
  shows "radix_Ensure st lb root a key lk = (ok, root', a') \<Longrightarrow> R root root'"
proof (induction root a key rule: radix_Ensure_induct [where lk = lk and st = st and lb = lb])
  case (1 root a key)
  obtain go r b where st: "st root a key = (go, r, b)" by (metis prod_cases3)
  show ?case
  proof (cases "key \<le> lk \<and> go")
    case True
    with st "1.prems" have rest: "radix_Ensure st lb r b (push_bit lb (drop_bit lb key + 1)) lk = (ok, root', a')"
      by (subst (asm) radix_Ensure_cases) simp
    have "R r root'" using True st by (intro "1.IH" [OF _ _ rest]) auto
    with step [OF st] show ?thesis by (rule trans)
  next
    case False
    with st "1.prems" show ?thesis
      using step [OF st] by (subst (asm) radix_Ensure_cases) (auto split: if_splits simp: refl)
  qed
qed

lemma radix_Ensure_covers:
  assumes step: "\<And>root a key root' a'. st root a key = (True, root', a') \<Longrightarrow>
      \<forall>j. j div 2 ^ lb = key div 2 ^ lb \<longrightarrow> E root' j"
    and mono: "\<And>root a key go root' a' j. st root a key = (go, root', a') \<Longrightarrow> E root j \<Longrightarrow> E root' j"
  shows "radix_Ensure st lb root a key lk = (True, root', a') \<Longrightarrow> key \<le> j \<Longrightarrow> j \<le> lk \<Longrightarrow> E root' j"
proof (induction root a key rule: radix_Ensure_induct [where lk = lk and st = st and lb = lb])
  case (1 root a key)
  let ?nk = "push_bit lb (drop_bit lb key + 1)"
  have kl: "key \<le> lk" using "1.prems" by simp
  obtain r b where st: "st root a key = (True, r, b)" and rest: "radix_Ensure st lb r b ?nk lk = (True, root', a')"
    using "1.prems"(1) kl by (subst (asm) radix_Ensure_cases) (auto split: prod.splits if_splits)
  show ?case
  proof (cases "?nk \<le> j")
    case True
    with "1.IH" [OF kl st rest] "1.prems" show ?thesis by simp
  next
    case False
    then have "j div 2 ^ lb = key div 2 ^ lb"
      using order_trans [OF div_times_less_eq_dividend [of key "2 ^ lb"] "1.prems"(2)]
      by (simp add: block_bounds drop_bit_eq_div push_bit_eq_mult)
    then have "E r j" using step [OF st] by blast
    moreover have "E r j \<longrightarrow> E root' j"
      by (rule radix_Ensure_keeps [OF _ _ _ rest, of "\<lambda>r s. E r j \<longrightarrow> E s j"]) (auto dest: mono)
    ultimately show ?thesis by blast
  qed
qed

lemma radix_Ensure_true:
  assumes step: "\<And>root a key. key \<le> lk \<Longrightarrow> fst (st root a key)"
  shows "fst (radix_Ensure st lb root a key lk)"
proof (induction root a key rule: radix_Ensure_induct [where lk = lk and st = st and lb = lb])
  case (1 root a key)
  obtain go r b where st: "st root a key = (go, r, b)" by (metis prod_cases3)
  show ?case
  proof (cases "key \<le> lk")
    case True
    with step [OF True, of root a] st have "st root a key = (True, r, b)" by simp
    with "1.IH" [OF True this] True show ?thesis by (subst radix_Ensure_cases) simp
  qed (subst radix_Ensure_cases, simp)
qed

lemma PageMap2_step_keeps:
  assumes "PageMap2_Ensure_step BITS al root a key = (go, root', a')"
  shows "(\<forall>j. PageMap2_get BITS root' j = PageMap2_get BITS root j) \<and> (\<forall>j. ens2 BITS root j \<longrightarrow> ens2 BITS root' j)"
  using assms
  by (auto simp: PageMap2_Ensure_step_def Let_def PageMap2_get_eq ens2_def split: if_splits option.splits prod.splits)

lemma PageMap2_step_covers:
  assumes "1 \<le> BITS" "PageMap2_Ensure_step BITS al root a key = (True, root', a')"
  shows "\<forall>j. j div 2 ^ LEAF_BITS2 BITS = key div 2 ^ LEAF_BITS2 BITS \<longrightarrow> ens2 BITS root' j"
proof -
  have "key div LEAF_LENGTH2 BITS < ROOT_LENGTH2 BITS \<and> root' (key div LEAF_LENGTH2 BITS) \<noteq> None"
    using assms(2)
    by (auto simp: PageMap2_Ensure_step_def Let_def pm2_index_simps split: if_splits option.splits prod.splits)
  moreover have "j < 2 ^ BITS" if "j div LEAF_LENGTH2 BITS < ROOT_LENGTH2 BITS" for j
    using that pm2_range [OF assms(1), of j] by simp
  ultimately show ?thesis unfolding LEAF_LENGTH2_def [symmetric] ens2_def by metis
qed

lemma PageMap2_step_true:
  assumes "1 \<le> BITS" "\<And>sz a. fst (al sz a) \<noteq> 0" "key < 2 ^ BITS"
  shows "fst (PageMap2_Ensure_step BITS al root a key)"
  using assms(1,3) assms(2) [of "8 * LEAF_LENGTH2 BITS" a] pm2_range [OF assms(1), of key]
  by (cases "al (8 * LEAF_LENGTH2 BITS) a")
    (simp add: PageMap2_Ensure_step_def Let_def pm2_index_simps split: option.split)

lemma PageMap2_Next_spec: 
  assumes "1 \<le> BITS"
  shows "next_spec (PageMap2_get BITS root) k (PageMap2_Next BITS root k)"
  using assms
proof (induction BITS root k rule: PageMap2_Next.induct)
  case (1 BITS root k)
  let ?L = "LEAF_LENGTH2 BITS" and ?g = "PageMap2_get BITS root"
  let ?e = "(k div ?L + 1) * ?L"
  show ?case
  proof (cases "k < 2 ^ BITS")
    case False
    then show ?thesis by (simp add: PageMap2_Next.simps [of BITS root k] next_spec_def PageMap2_get_eq)
  next
    case True
    have e: "?e \<le> 2 ^ BITS"
      using pm2_range [OF "1.prems", of k] True mult_le_mono1 [of "k div ?L + 1" "ROOT_LENGTH2 BITS" ?L]
      by (simp add: pm2_split [OF "1.prems"])
    have kb: "k = k div ?L * ?L + k mod ?L" "?e = k div ?L * ?L + ?L" by simp_all
    have "next_spec ?g (k div ?L * ?L + k mod ?L) (PageMap2_Next BITS root k)"
    proof (cases "root (k div ?L)")
      case None
      have "next_spec ?g ?e (PageMap2_Next BITS root ?e)"
        using "1.IH" [OF True refl refl] None "1.prems" by (simp add: pm2_index_simps)
      moreover have "?g j = 0" if "k \<le> j" "j < ?e" for j
      proof -
        have "k div ?L * ?L \<le> j" using that(1) div_times_less_eq_dividend [of k ?L] by linarith
        then have "j div ?L = k div ?L" using that(2) by (simp add: block_bounds)
        with None show ?thesis by (simp add: PageMap2_get_eq)
      qed
      moreover have "PageMap2_Next BITS root k = PageMap2_Next BITS root ?e"
        using True None by (simp add: PageMap2_Next.simps [of BITS root k] Let_def pm2_index_simps)
      ultimately show ?thesis using less_next_block [of ?L k] by (simp only: flip: kb(1)) (intro next_spec_skip [of k ?e]; simp)
    next
      case (Some vals)
      let ?s = "scan_array vals ?L (k mod ?L)"
      have nx: "PageMap2_Next BITS root k = (if ?s \<noteq> 0 then ?s else PageMap2_Next BITS root ?e)"
        using True Some by (simp add: PageMap2_Next.simps [of BITS root k] Let_def pm2_index_simps)
      show ?thesis
      proof (rule next_spec_leaf [of ?L ?g _ vals])
        fix j
        assume j: "j < ?L"
        have "k div ?L * ?L + j < ?e" using j by simp
        with e have "k div ?L * ?L + j < 2 ^ BITS" by linarith
        with j Some show "?g (k div ?L * ?L + j) = vals j" by (simp add: PageMap2_get_eq)
      next
        assume s: "?s = 0"
        have "next_spec ?g ?e (PageMap2_Next BITS root ?e)"
          using "1.IH" [OF True refl refl] Some s "1.prems" by (simp add: pm2_index_simps)
        then show "next_spec ?g (k div ?L * ?L + ?L) (PageMap2_Next BITS root k)" using nx s by (simp add: kb(2) [symmetric])
      qed (use nx in simp_all)
    qed
    then show ?thesis by simp
  qed
qed

text \<open>A map whose \<^verbatim>\<open>Ensure\<close> is the shared loop is a checked page map as soon as its steps are right.\<close>

lemma radix_page_map:
  fixes st :: "'a allocator \<Rightarrow> 'm \<Rightarrow> 'a \<Rightarrow> nat \<Rightarrow> bool \<times> 'm \<times> 'a"
  assumes bits: "bits \<le> 64"
    and keeps: "\<And>al root a key go root' a'. st al root a key = (go, root', a') \<Longrightarrow>
      (\<forall>j. get root' j = get root j) \<and> (\<forall>j. ens root j \<longrightarrow> ens root' j)"
    and covers: "\<And>al root a key root' a'. st al root a key = (True, root', a') \<Longrightarrow>
      \<forall>j. j div 2 ^ lb = key div 2 ^ lb \<longrightarrow> ens root' j"
    and succ: "\<And>al root a key. (\<And>sz a. fst (al sz a) \<noteq> 0) \<Longrightarrow> key < 2 ^ bits \<Longrightarrow> fst (st al root a key)"
    and set_get: "\<And>m k v. ens m k \<Longrightarrow> \<exists>m'. set_key m k v = Some m' \<and>
      (\<forall>j. get m' j = (if j = k then v else get m j)) \<and> (\<forall>j. ens m' j = ens m j)"
    and range: "\<And>m k. ens m k \<Longrightarrow> k < 2 ^ bits" "\<And>m k. \<not> ens m k \<Longrightarrow> get m k = 0"
    and nxt: "\<And>m k. next_spec (get m) k (nxt m k)"
  shows "checked_page_map bits get set_key ens
    (\<lambda>al root a start n. radix_Ensure (st al) lb root a start (w64 (start + n + (2 ^ 64 - 1)))) nxt"
proof unfold_locales
  let ?E = "\<lambda>al root a start n. radix_Ensure (st al) lb root a start (w64 (start + n + (2 ^ 64 - 1)))"
  have pow: "(2::nat) ^ bits \<le> 2 ^ 64" using bits by (intro power_increasing) auto
  have cov: "ens m' j"
    if "?E al m a start n = (True, m', a')" "0 < n" "start + n \<le> 2 ^ 64" "start \<le> j" "j < start + n"
    for al m a start n m' a' j
    using that(1) unfolding last_key_eq [OF that(2,3)]
    by (rule radix_Ensure_covers [rotated 2, where E = ens and st = "st al"])
      (use that(4,5) in \<open>auto dest: covers keeps\<close>)
  show "(\<forall>j. get m' j = get m j) \<and> (\<forall>j. ens m j \<longrightarrow> ens m' j)" if "?E al m a start n = (ok, m', a')"
    for al m a start n ok m' a'
    using that
    by (rule radix_Ensure_keeps [rotated 3, where st = "st al"
          and R = "\<lambda>m m'. (\<forall>j. get m' j = get m j) \<and> (\<forall>j. ens m j \<longrightarrow> ens m' j)"]) (auto dest: keeps)
  show "ens m' j"
    if "?E al m a start n = (True, m', a')" "0 < n" "start + n \<le> 2 ^ bits" "start \<le> j" "j < start + n"
    for al m a start n m' a' j
    using that pow by (intro cov [OF that(1)]) auto
  show "fst (?E al m a start n)"
    if "\<And>sz a. fst (al sz a) \<noteq> 0" "0 < n" "start + n \<le> 2 ^ bits" for al m a start n
  proof -
    have le: "start + n \<le> 2 ^ 64" using that(3) pow by simp
    have "fst (st al r b key)" if "key \<le> start + n - 1" for r b key
      using that \<open>0 < n\<close> \<open>start + n \<le> 2 ^ bits\<close> by (intro succ \<open>\<And>sz a. fst (al sz a) \<noteq> 0\<close>) linarith
    then show ?thesis unfolding last_key_eq [OF that(2) le] by (rule radix_Ensure_true)
  qed
  show "start + n \<le> 2 ^ bits"
    if "?E al m a start n = (True, m', a')" "0 < n" "start + n \<le> 2 ^ 64" for al m a start n m' a'
  proof -
    have "ens m' (start + n - 1)" using that(2) by (intro cov [OF that]) linarith+
    from range(1) [OF this] that(2) show ?thesis by linarith
  qed
qed (use set_get range nxt in auto)

lemma PageMap2_page_map:
  assumes "1 \<le> BITS" "BITS \<le> 64"
  shows "checked_page_map BITS (PageMap2_get BITS) (PageMap2_set BITS) (ens2 BITS)
    (PageMap2_Ensure BITS :: 'a allocator \<Rightarrow> _) (PageMap2_Next BITS)"
  unfolding PageMap2_Ensure_def [abs_def]
proof (rule radix_page_map [OF assms(2) PageMap2_step_keeps PageMap2_step_covers [OF assms(1)]])
  show "\<exists>m'. PageMap2_set BITS m k v = Some m' \<and>
      (\<forall>j. PageMap2_get BITS m' j = (if j = k then v else PageMap2_get BITS m j)) \<and> (\<forall>j. ens2 BITS m' j = ens2 BITS m j)"
    if "ens2 BITS m k" for m k v using PageMap2_set_get [OF assms(1) that] .
  show "fst (PageMap2_Ensure_step BITS al root a key)" if "\<And>sz a. fst (al sz a) \<noteq> 0" "key < 2 ^ BITS"
    for al :: "'a allocator" and root a key
    using PageMap2_step_true [OF assms(1) that] .
  show "next_spec (PageMap2_get BITS m) k (PageMap2_Next BITS m k)" for m k by (rule PageMap2_Next_spec [OF assms(1)])
qed (auto simp: ens2_def PageMap2_get_eq split: option.splits)

text \<open>The three-level tree.\<close>

lemma pm3_split: "2 \<le> BITS \<Longrightarrow> 2 ^ BITS = INTERIOR_LENGTH3 BITS * (INTERIOR_LENGTH3 BITS * LEAF_LENGTH3 BITS)"
proof -
  assume b: "2 \<le> BITS"
  have "2 * INTERIOR_BITS3 BITS \<le> BITS"
  proof (cases "4 \<le> BITS")
    case True
    have "3 * INTERIOR_BITS3 BITS \<le> BITS + 2" unfolding INTERIOR_BITS3_def by simp
    with True show ?thesis by linarith
  next
    case False
    with b consider "BITS = 2" | "BITS = 3" by linarith
    then show ?thesis by cases (simp_all add: INTERIOR_BITS3_def)
  qed
  then have "BITS = INTERIOR_BITS3 BITS + (INTERIOR_BITS3 BITS + LEAF_BITS3 BITS)"
    unfolding LEAF_BITS3_def by linarith
  then show ?thesis unfolding INTERIOR_LENGTH3_def LEAF_LENGTH3_def by (metis power_add)
qed

lemma pm3_pos [simp]: "0 < LEAF_LENGTH3 BITS" "0 < INTERIOR_LENGTH3 BITS"
  by (simp_all add: pm3_consts)

lemma pm3_index:
  "PageMap3_i1 BITS k = k div (INTERIOR_LENGTH3 BITS * LEAF_LENGTH3 BITS)"
  "PageMap3_i2 BITS k = k div LEAF_LENGTH3 BITS mod INTERIOR_LENGTH3 BITS"
  "PageMap3_i3 BITS k = k mod LEAF_LENGTH3 BITS"
  "push_bit (LEAF_BITS3 BITS) (Suc i) = (i + 1) * LEAF_LENGTH3 BITS"
  "drop_bit (LEAF_BITS3 BITS) k = k div LEAF_LENGTH3 BITS"
  "push_bit (LEAF_BITS3 BITS + INTERIOR_BITS3 BITS) (Suc i) = (i + 1) * (INTERIOR_LENGTH3 BITS * LEAF_LENGTH3 BITS)"
  unfolding Suc_eq_plus1
  by (simp_all only: PageMap3_i1_def PageMap3_i2_def PageMap3_i3_def LEAF_LENGTH3_def INTERIOR_LENGTH3_def
      drop_bit_eq_div push_bit_eq_mult and_exp_pred power_add mult.commute)

lemma pm3_i1_block: "PageMap3_i1 BITS k = k div LEAF_LENGTH3 BITS div INTERIOR_LENGTH3 BITS"
  by (simp add: pm3_index mult.commute flip: div_mult2_eq)

lemma pm3_same_leaf:
  "PageMap3_i1 BITS j = PageMap3_i1 BITS k \<Longrightarrow> PageMap3_i2 BITS j = PageMap3_i2 BITS k \<Longrightarrow>
   j div LEAF_LENGTH3 BITS = k div LEAF_LENGTH3 BITS"
  unfolding pm3_i1_block pm3_index(2) by (rule div_mod_eqI)

lemma pm3_range: "2 \<le> BITS \<Longrightarrow> PageMap3_i1 BITS k < INTERIOR_LENGTH3 BITS \<longleftrightarrow> k < 2 ^ BITS"
  by (simp add: pm3_index pm3_split div_less_iff_less_mult)

definition pm3_leaf :: "nat \<Rightarrow> pagemap3 \<Rightarrow> nat \<Rightarrow> leaf option" where
  "pm3_leaf BITS root k = (case root (PageMap3_i1 BITS k) of None \<Rightarrow> None | Some ptrs \<Rightarrow> ptrs (PageMap3_i2 BITS k))"

definition ens3 :: "nat \<Rightarrow> pagemap3 \<Rightarrow> nat \<Rightarrow> bool" where
  "ens3 BITS root k \<longleftrightarrow> k < 2 ^ BITS \<and> pm3_leaf BITS root k \<noteq> None"

lemma PageMap3_get_eq:
  "PageMap3_get BITS root k = (if k < 2 ^ BITS then case pm3_leaf BITS root k of None \<Rightarrow> 0
     | Some values \<Rightarrow> values (PageMap3_i3 BITS k) else 0)"
  by (simp add: PageMap3_get_def pm3_leaf_def drop_bit_zero_iff split: option.split)

lemma PageMap3_set_get:
  assumes "2 \<le> BITS" "ens3 BITS root k"
  shows "\<exists>root'. PageMap3_set BITS root k v = Some root' \<and>
    (\<forall>j. PageMap3_get BITS root' j = (if j = k then v else PageMap3_get BITS root j)) \<and>
    (\<forall>j. ens3 BITS root' j = ens3 BITS root j)"
proof -
  let ?i1 = "PageMap3_i1 BITS k" and ?i2 = "PageMap3_i2 BITS k" and ?i3 = "PageMap3_i3 BITS k"
  obtain ptrs vals where pv: "root ?i1 = Some ptrs" "ptrs ?i2 = Some vals" "k < 2 ^ BITS"
    using assms(2) by (auto simp: ens3_def pm3_leaf_def split: option.splits)
  let ?r = "root(?i1 \<mapsto> ptrs(?i2 \<mapsto> vals(?i3 := v)))"
  have leaf: "pm3_leaf BITS ?r j = (if j div LEAF_LENGTH3 BITS = k div LEAF_LENGTH3 BITS then Some (vals(?i3 := v))
      else pm3_leaf BITS root j)" for j
    using pv pm3_same_leaf [of BITS j k] by (auto simp: pm3_leaf_def pm3_i1_block pm3_index(2))
  have old: "pm3_leaf BITS root j = Some vals" if "j div LEAF_LENGTH3 BITS = k div LEAF_LENGTH3 BITS" for j
    using that pv by (simp add: pm3_leaf_def pm3_i1_block pm3_index(2))
  have "PageMap3_set BITS root k v = Some ?r"
    using pv pm3_range [OF assms(1), of k] by (simp add: PageMap3_set_def)
  moreover have "PageMap3_get BITS ?r j = (if j = k then v else PageMap3_get BITS root j)" for j
    using pv old [of j] leaf [of j] div_mod_eqI [of j "LEAF_LENGTH3 BITS" k]
    by (auto simp: PageMap3_get_eq pm3_index(3) split: option.splits)
  moreover have "ens3 BITS ?r j = ens3 BITS root j" for j
    using leaf [of j] old [of j] by (auto simp: ens3_def)
  ultimately show ?thesis by blast
qed

text \<open>A step of \<^verbatim>\<open>Ensure\<close> only adds empty nodes.\<close>

lemma PageMap3_step_leaf:
  assumes "PageMap3_Ensure_step BITS al root a key = (go, root', a')"
  shows "pm3_leaf BITS root' j = pm3_leaf BITS root j \<or> pm3_leaf BITS root j = None \<and> pm3_leaf BITS root' j = Some (\<lambda>_. 0)"
    and "go \<Longrightarrow> PageMap3_i1 BITS key < INTERIOR_LENGTH3 BITS \<and> pm3_leaf BITS root' key \<noteq> None"
  using assms
  by (auto simp: PageMap3_Ensure_step_def Let_def pm3_leaf_def split: if_splits option.splits prod.splits)

lemma PageMap3_step_keeps:
  assumes "PageMap3_Ensure_step BITS al root a key = (go, root', a')"
  shows "(\<forall>j. PageMap3_get BITS root' j = PageMap3_get BITS root j) \<and> (\<forall>j. ens3 BITS root j \<longrightarrow> ens3 BITS root' j)"
proof (intro conjI allI)
  fix j
  show "PageMap3_get BITS root' j = PageMap3_get BITS root j" "ens3 BITS root j \<longrightarrow> ens3 BITS root' j"
    using PageMap3_step_leaf(1) [OF assms, of j] by (auto simp: PageMap3_get_eq ens3_def)
qed

lemma PageMap3_step_covers:
  assumes "2 \<le> BITS" "PageMap3_Ensure_step BITS al root a key = (True, root', a')"
  shows "\<forall>j. j div 2 ^ LEAF_BITS3 BITS = key div 2 ^ LEAF_BITS3 BITS \<longrightarrow> ens3 BITS root' j"
proof (intro allI impI)
  fix j
  assume "j div 2 ^ LEAF_BITS3 BITS = key div 2 ^ LEAF_BITS3 BITS"
  then have i: "PageMap3_i1 BITS j = PageMap3_i1 BITS key" "PageMap3_i2 BITS j = PageMap3_i2 BITS key"
    by (simp_all add: pm3_i1_block pm3_index(2) LEAF_LENGTH3_def)
  then have "pm3_leaf BITS root' j = pm3_leaf BITS root' key" by (simp add: pm3_leaf_def cong: option.case_cong)
  with i PageMap3_step_leaf(2) [OF assms(2)] pm3_range [OF assms(1), of j]
  show "ens3 BITS root' j" by (simp add: ens3_def)
qed

lemma PageMap3_step_true:
  assumes "2 \<le> BITS" "\<And>sz a. fst (al sz a) \<noteq> 0" "key < 2 ^ BITS"
  shows "fst (PageMap3_Ensure_step BITS al root a key)"
proof -
  have i1: "PageMap3_i1 BITS key < INTERIOR_LENGTH3 BITS" using assms pm3_range [OF assms(1), of key] by simp
  have i2: "PageMap3_i2 BITS key < INTERIOR_LENGTH3 BITS" by (simp add: pm3_index(2))
  obtain p b where al1: "al (8 * INTERIOR_LENGTH3 BITS) a = (p, b)" by fastforce
  obtain q c where al2: "al (8 * LEAF_LENGTH3 BITS) a = (q, c)" by fastforce
  obtain r d where al3: "al (8 * LEAF_LENGTH3 BITS) b = (r, d)" by fastforce
  have "p \<noteq> 0" "q \<noteq> 0" "r \<noteq> 0" using assms(2) al1 al2 al3 by (metis fst_conv)+
  with i1 i2 al1 al2 al3 show ?thesis
    by (simp add: PageMap3_Ensure_step_def Let_def split: option.split)
qed

lemma PageMap3_leaf_block:
  assumes "k \<le> j" "j < (k div LEAF_LENGTH3 BITS + 1) * LEAF_LENGTH3 BITS"
  shows "pm3_leaf BITS root j = pm3_leaf BITS root k"
proof -
  have "k div LEAF_LENGTH3 BITS * LEAF_LENGTH3 BITS \<le> j"
    using assms(1) div_times_less_eq_dividend [of k "LEAF_LENGTH3 BITS"] by linarith
  then have "j div LEAF_LENGTH3 BITS = k div LEAF_LENGTH3 BITS" using assms(2) by (simp add: block_bounds)
  then show ?thesis by (simp add: pm3_leaf_def pm3_i1_block pm3_index(2) cong: option.case_cong)
qed

lemma PageMap3_root_block:
  assumes "k \<le> j" "j < (PageMap3_i1 BITS k + 1) * (INTERIOR_LENGTH3 BITS * LEAF_LENGTH3 BITS)"
  shows "PageMap3_i1 BITS j = PageMap3_i1 BITS k"
proof -
  let ?B = "INTERIOR_LENGTH3 BITS * LEAF_LENGTH3 BITS"
  have "k div ?B * ?B \<le> j"
    using assms(1) div_times_less_eq_dividend [of k ?B] by linarith
  then show ?thesis using assms(2) by (simp add: pm3_index(1) block_bounds)
qed

lemma PageMap3_Next_spec:
  assumes "2 \<le> BITS"
  shows "next_spec (PageMap3_get BITS root) k (PageMap3_Next BITS root k)"
  using assms
proof (induction BITS root k rule: PageMap3_Next.induct)
  case (1 BITS root k)
  let ?L = "LEAF_LENGTH3 BITS" and ?I = "INTERIOR_LENGTH3 BITS" and ?g = "PageMap3_get BITS root"
  let ?e = "(k div ?L + 1) * ?L" and ?f = "(PageMap3_i1 BITS k + 1) * (?I * ?L)"
  have kf: "k < ?f" using less_next_block [of "?I * ?L" k] by (simp add: pm3_index(1))
  have ke: "k < ?e" using less_next_block [of ?L k] by simp
  consider "\<not> k < 2 ^ BITS" | "k < 2 ^ BITS" "root (PageMap3_i1 BITS k) = None"
    | ptrs where "k < 2 ^ BITS" "root (PageMap3_i1 BITS k) = Some ptrs" "ptrs (PageMap3_i2 BITS k) = None"
    | ptrs vals where "k < 2 ^ BITS" "root (PageMap3_i1 BITS k) = Some ptrs" "ptrs (PageMap3_i2 BITS k) = Some vals"
    by (cases "k < 2 ^ BITS"; cases "root (PageMap3_i1 BITS k)";
        cases "the (root (PageMap3_i1 BITS k)) (PageMap3_i2 BITS k)") auto
  then show ?case
  proof cases
    case 1
    then show ?thesis by (simp add: PageMap3_Next.simps [of BITS root k] next_spec_def PageMap3_get_eq)
  next
    case 2
    have nx: "PageMap3_Next BITS root k = PageMap3_Next BITS root ?f"
      using 2 by (simp add: PageMap3_Next.simps [of BITS root k] pm3_index)
    have "next_spec ?g ?f (PageMap3_Next BITS root ?f)" using "1.IH"(1) [OF 2(1) 2(2)] "1.prems" by (simp add: pm3_index)
    moreover have "?g j = 0" if "k \<le> j" "j < ?f" for j
      using PageMap3_root_block [OF that] 2 by (simp add: PageMap3_get_eq pm3_leaf_def)
    ultimately show ?thesis unfolding nx using kf by (intro next_spec_skip [of k ?f ?g]) auto
  next
    case (3 ptrs)
    have nx: "PageMap3_Next BITS root k = PageMap3_Next BITS root ?e"
      using 3 by (simp add: PageMap3_Next.simps [of BITS root k] pm3_index)
    have "next_spec ?g ?e (PageMap3_Next BITS root ?e)"
      using "1.IH"(2) [OF 3(1,2) refl] 3(3) "1.prems" by (simp add: pm3_index)
    moreover have "?g j = 0" if "k \<le> j" "j < ?e" for j
      using PageMap3_leaf_block [OF that, of root] 3 by (simp add: PageMap3_get_eq pm3_leaf_def)
    ultimately show ?thesis unfolding nx using ke by (intro next_spec_skip [of k ?e ?g]) auto
  next
    case (4 ptrs vals)
    let ?s = "scan_array vals ?L (k mod ?L)"
    have nx: "PageMap3_Next BITS root k = (if ?s \<noteq> 0 then ?s else PageMap3_Next BITS root ?e)"
      using 4 by (simp add: PageMap3_Next.simps [of BITS root k] pm3_index)
    have "?e \<le> 2 ^ BITS"
    proof -
      have "k div ?L < ?I * ?I" using 4(1) pm3_split [OF "1.prems"] by (simp add: div_less_iff_less_mult mult.assoc)
      then have "?e \<le> ?I * ?I * ?L" by (intro mult_le_mono1) simp
      then show ?thesis using pm3_split [OF "1.prems"] by (simp add: mult.assoc)
    qed
    then have vals: "?g (k div ?L * ?L + j) = vals j" if "j < ?L" for j
    proof -
      have d: "(k div ?L * ?L + j) div ?L = k div ?L" "(k div ?L * ?L + j) mod ?L = j" using that by simp_all
      have "k div ?L * ?L + j < 2 ^ BITS" using that \<open>?e \<le> 2 ^ BITS\<close> by simp
      with d 4 show ?thesis by (simp add: PageMap3_get_eq pm3_leaf_def pm3_i1_block pm3_index(2,3))
    qed
    have "next_spec ?g (k div ?L * ?L + k mod ?L) (PageMap3_Next BITS root k)"
    proof (rule next_spec_leaf [of ?L ?g _ vals])
      assume s: "?s = 0"
      have "next_spec ?g ?e (PageMap3_Next BITS root ?e)"
        using "1.IH"(2) [OF 4(1,2) refl] 4(3) s "1.prems" by (simp add: pm3_index)
      moreover have "?e = k div ?L * ?L + ?L" by simp
      ultimately show "next_spec ?g (k div ?L * ?L + ?L) (PageMap3_Next BITS root k)" using nx s by (simp only: if_False simp_thms)
    qed (use nx vals in simp_all)
    then show ?thesis by simp
  qed
qed

lemma PageMap3_page_map:
  assumes "2 \<le> BITS" "BITS \<le> 64"
  shows "checked_page_map BITS (PageMap3_get BITS) (PageMap3_set BITS) (ens3 BITS)
    (PageMap3_Ensure BITS :: 'a allocator \<Rightarrow> _) (PageMap3_Next BITS)"
  unfolding PageMap3_Ensure_def [abs_def]
proof (rule radix_page_map [OF assms(2) PageMap3_step_keeps PageMap3_step_covers [OF assms(1)]])
  show "\<exists>m'. PageMap3_set BITS m k v = Some m' \<and>
      (\<forall>j. PageMap3_get BITS m' j = (if j = k then v else PageMap3_get BITS m j)) \<and> (\<forall>j. ens3 BITS m' j = ens3 BITS m j)"
    if "ens3 BITS m k" for m k v using PageMap3_set_get [OF assms(1) that] .
  show "fst (PageMap3_Ensure_step BITS al root a key)" if "\<And>sz a. fst (al sz a) \<noteq> 0" "key < 2 ^ BITS"
    for al :: "'a allocator" and root a key
    using PageMap3_step_true [OF assms(1) that] .
  show "next_spec (PageMap3_get BITS m) k (PageMap3_Next BITS m k)" for m k by (rule PageMap3_Next_spec [OF assms(1)])
qed (auto simp: ens3_def PageMap3_get_eq split: option.splits)

text \<open>
  The maps at the sizes the page heap selects: two levels for the 35-bit page numbers of 48-bit addresses,
  three levels for the 51-bit page numbers of full 64-bit addresses, and a flat map for 32-bit addresses.
\<close>

interpretation PM1: page_map 19 "PageMap1_get 19" "PageMap1_set 19" "ens1 19"
    "PageMap1_Ensure 19 :: nat allocator \<Rightarrow> _" "PageMap1_Next 19"
  by (rule PageMap1_page_map) simp

interpretation PM2: checked_page_map 35 "PageMap2_get 35" "PageMap2_set 35" "ens2 35"
    "PageMap2_Ensure 35 :: nat allocator \<Rightarrow> _" "PageMap2_Next 35"
  by (rule PageMap2_page_map) simp_all

interpretation PM3: checked_page_map 51 "PageMap3_get 51" "PageMap3_set 51" "ens3 51"
    "PageMap3_Ensure 51 :: nat allocator \<Rightarrow> _" "PageMap3_Next 51"
  by (rule PageMap3_page_map) simp_all

section \<open>Properties\<close>

text \<open>
  C19. The two-level map as the page heap uses it: once \<^verbatim>\<open>Ensure\<close> has accepted a range of pages, every page of
  it can be set, lookups then return the value exactly on that range, and all other lookups are unchanged;
  a range that leaves the map is never accepted, and one that fits is accepted when memory does not run out.
\<close>

theorem PageMap2_ensure_set_get:
  assumes "1 \<le> BITS" "BITS \<le> 64" "0 < n" "p + n \<le> 2 ^ 64"
  shows "(\<forall>root1 a'. PageMap2_Ensure BITS al root a p n = (True, root1, a') \<longrightarrow>
     p + n \<le> 2 ^ BITS \<and>
     (\<exists>root'. set_range (PageMap2_set BITS) root1 p n v = Some root' \<and>
       (\<forall>j. PageMap2_get BITS root' j = (if p \<le> j \<and> j < p + n then v else PageMap2_get BITS root j)))) \<and>
    ((\<forall>sz a. fst (al sz a) \<noteq> 0) \<and> p + n \<le> 2 ^ BITS \<longrightarrow> fst (PageMap2_Ensure BITS al root a p n))"
  by (rule checked_page_map.contract [OF PageMap2_page_map [OF assms(1,2)] assms(3,4)])

theorem PageMap2_ensure_set_get_witness:
  "fst (PageMap2_Ensure 35 (\<lambda>sz a. (1, a)) PageMap2_new (0::nat) 5 300000)"
  using PageMap2_ensure_set_get [of 35 300000 5 "\<lambda>sz a. (1, a)" PageMap2_new "0::nat" 7] by simp

text \<open>
  C20. The three-level map meets the same contract.
\<close>

theorem PageMap3_ensure_set_get:
  assumes "2 \<le> BITS" "BITS \<le> 64" "0 < n" "p + n \<le> 2 ^ 64"
  shows "(\<forall>root1 a'. PageMap3_Ensure BITS al root a p n = (True, root1, a') \<longrightarrow>
     p + n \<le> 2 ^ BITS \<and>
     (\<exists>root'. set_range (PageMap3_set BITS) root1 p n v = Some root' \<and>
       (\<forall>j. PageMap3_get BITS root' j = (if p \<le> j \<and> j < p + n then v else PageMap3_get BITS root j)))) \<and>
    ((\<forall>sz a. fst (al sz a) \<noteq> 0) \<and> p + n \<le> 2 ^ BITS \<longrightarrow> fst (PageMap3_Ensure BITS al root a p n))"
  by (rule checked_page_map.contract [OF PageMap3_page_map [OF assms(1,2)] assms(3,4)])

theorem PageMap3_ensure_set_get_witness:
  "fst (PageMap3_Ensure 51 (\<lambda>sz a. (1, a)) PageMap3_new (0::nat) 5 300000)"
  using PageMap3_ensure_set_get [of 51 300000 5 "\<lambda>sz a. (1, a)" PageMap3_new "0::nat" 7] by simp

text \<open>
  C21. Iteration: \<^verbatim>\<open>Next(k)\<close> of both radix trees returns the value at the least page from \<open>k\<close> on that has one, and
  null only when there is none; the skips over missing nodes lose nothing.
\<close>

theorem radix_Next_least:
  "(1 \<le> BITS \<longrightarrow> next_spec (PageMap2_get BITS root2) k (PageMap2_Next BITS root2 k)) \<and>
   (2 \<le> BITS \<longrightarrow> next_spec (PageMap3_get BITS root3) k (PageMap3_Next BITS root3 k))"
  using PageMap2_Next_spec PageMap3_Next_spec by blast

theorem radix_Next_least_witness:
  "next_spec (PageMap2_get 35 PageMap2_new) 4 (PageMap2_Next 35 PageMap2_new 4) \<and>
   next_spec (PageMap3_get 51 PageMap3_new) 4 (PageMap3_Next 51 PageMap3_new 4)"
  using radix_Next_least [of 35 PageMap2_new 4] radix_Next_least [of 51 _ 4 PageMap3_new] by simp

text \<open>
  C22. The overflow check of the flat map is not one: \<^verbatim>\<open>Ensure\<close> of \<^verbatim>\<open>TCMalloc_PageMap1\<close> accepts every range that
  starts beyond the end of the array, because \<^verbatim>\<open>LENGTH - x\<close> wraps around, and setting such a page then
  writes out of bounds.
\<close>

theorem PageMap1_Ensure_accepts_out_of_range:
  assumes "BITS < 64" "2 ^ BITS < x" "x + n \<le> 2 ^ 64" "0 < n"
  shows "fst (PageMap1_Ensure BITS al arr a x n) \<and> PageMap1_set BITS arr x v = None"
proof -
  have x: "x < 2 ^ 64" using assms(3,4) by linarith
  have ix: "int (2 ^ BITS) < int x" "int x < int (2 ^ 64)" "int x + int n \<le> int (2 ^ 64)"
    using assms(2,3) x by (simp_all only: of_nat_less_iff of_nat_le_iff flip: of_nat_add)
  have "(2 ^ BITS - int x) mod 2 ^ 64 = (2 ^ BITS - int x + 2 ^ 64) mod 2 ^ 64" by simp
  also have "\<dots> = 2 ^ BITS - int x + 2 ^ 64" 
  proof (intro mod_pos_pos_trivial)
    have "(0::int) \<le> 2 ^ BITS" by simp
    moreover have "int x < 2 ^ 64" using x by (metis of_nat_less_iff of_nat_numeral of_nat_power)
    ultimately show "0 \<le> 2 ^ BITS - int x + 2 ^ 64" by linarith
  qed (use ix(1) in simp)
  finally have eq: "(2 ^ BITS - int x) mod 2 ^ 64 = 2 ^ BITS - int x + 2 ^ 64" .
  have "int n \<le> (2 ^ BITS - int x) mod 2 ^ 64" unfolding eq
  proof -
    have "int x + int n \<le> 2 ^ 64" using assms(3) by (metis of_nat_add of_nat_le_iff of_nat_numeral of_nat_power)
    moreover have "(0::int) \<le> 2 ^ BITS" by simp
    ultimately show "int n \<le> 2 ^ BITS - int x + 2 ^ 64" by linarith
  qed
  then have "n \<le> nat ((2 ^ BITS - int x) mod 2 ^ 64)" by (metis nat_int nat_mono)
  then show ?thesis using assms(2) by (simp add: PageMap1_Ensure_def PageMap1_set_def)
qed

theorem PageMap1_Ensure_accepts_out_of_range_witness:
  "fst (PageMap1_Ensure 19 (\<lambda>sz a. (1, a)) (\<lambda>_. 0) (0::nat) 600000 4) \<and> PageMap1_set 19 (\<lambda>_. 0) 600000 7 = None"
  by (rule PageMap1_Ensure_accepts_out_of_range) simp_all

end
