(* ===== verification/PackedCache.thy ===== *)
theory PackedCache
  imports Prelude "HOL-Library.Word"
begin

text \<open>
  The page-to-size-class cache of \<^verbatim>\<open>src/packed-cache-inl.h\<close>: a direct-mapped array of machine words,
  each packing the upper bits of a key with a 7-bit value or an invalid bit.  Words are 64-bit words,
  \<open>kKeybits\<close> is the template parameter, and the three static assertions of the constructor are the
  predicate \<open>packed_ok\<close>.

  The lemmas give \<^verbatim>\<open>TryGet\<close> after each operation; the locale \<open>class_cache\<close> is what the page heap relies on
  (the cache never returns a value that was not put for that very key since it was last invalidated),
  interpreted on these operations.
\<close>

type_synonym packed_cache = "64 word \<Rightarrow> 64 word"

definition n_ones :: "nat \<Rightarrow> 64 word" where
  "n_ones n = (if n = 0 then 0 else (push_bit (n - 1) 1 - 1) + push_bit (n - 1) 1)"

definition kWantHashBits :: nat where "kWantHashBits = 16"
definition kHashbits :: "nat \<Rightarrow> nat" where "kHashbits kKeybits = (if kKeybits < kWantHashBits then kKeybits else kWantHashBits)"
definition kValuebits :: nat where "kValuebits = 7"
definition kInvalidMask :: "64 word" where "kInvalidMask = 0x80"

definition packed_ok :: "nat \<Rightarrow> bool" where
  "packed_ok kKeybits \<longleftrightarrow> kKeybits + kValuebits + 1 \<le> 64 \<and> kHashbits kKeybits \<le> kKeybits \<and>
     kHashbits kKeybits \<ge> kValuebits + 1"

definition Hash :: "nat \<Rightarrow> 64 word \<Rightarrow> 64 word" where
  "Hash kb key = key AND n_ones (kHashbits kb)"

definition KeyToUpper :: "nat \<Rightarrow> 64 word \<Rightarrow> 64 word" where
  "KeyToUpper kb k = k XOR Hash kb k"

definition PackedCache_TryGet :: "nat \<Rightarrow> packed_cache \<Rightarrow> 64 word \<Rightarrow> 32 word option" where
  "PackedCache_TryGet kb arr key =
     (let hash = Hash kb key;
          expected_entry = key AND NOT (n_ones (kHashbits kb));
          entry = arr hash XOR expected_entry
      in if entry \<ge> push_bit kValuebits 1 then None else Some (ucast entry))"

text \<open>\<^verbatim>\<open>memset\<close> with the byte \<^verbatim>\<open>0x80\<close>.\<close>

definition PackedCache_Clear :: "packed_cache \<Rightarrow> packed_cache" where
  "PackedCache_Clear arr = (\<lambda>_. 0x8080808080808080)"

definition PackedCache_Put :: "nat \<Rightarrow> packed_cache \<Rightarrow> 64 word \<Rightarrow> 32 word \<Rightarrow> packed_cache" where
  "PackedCache_Put kb arr key v = arr(Hash kb key := KeyToUpper kb key OR ucast v)"

definition PackedCache_Invalidate :: "nat \<Rightarrow> packed_cache \<Rightarrow> 64 word \<Rightarrow> packed_cache" where
  "PackedCache_Invalidate kb arr key = arr(Hash kb key := KeyToUpper kb key OR kInvalidMask)"

section \<open>Packing\<close>

lemma n_ones_mask: "n_ones n = mask n"
proof (cases n)
  case (Suc k)
  have "mask (Suc k) = (2 * push_bit k 1 - 1 :: 64 word)" by (simp add: mask_eq_exp_minus_1 push_bit_eq_mult)
  with Suc show ?thesis by (simp add: n_ones_def)
qed (simp add: n_ones_def)

lemma hashbits_bounds: "packed_ok kb \<Longrightarrow> 8 \<le> kHashbits kb \<and> kHashbits kb \<le> 16"
  by (auto simp: packed_ok_def kHashbits_def kWantHashBits_def kValuebits_def)

lemma KeyToUpper_eq: "KeyToUpper kb k = k AND NOT (mask (kHashbits kb))"
  by (rule bit_word_eqI) (auto simp: KeyToUpper_def Hash_def n_ones_mask bit_simps)

lemma less_128_bits: "(w :: 64 word) < push_bit kValuebits 1 \<longleftrightarrow> (\<forall>i \<ge> 7. \<not> bit w i)"
proof -
  have "w < push_bit kValuebits 1 \<longleftrightarrow> w AND mask 7 = w"
    by (simp add: kValuebits_def word_less_def mask_eq_iff push_bit_eq_mult)
  also have "\<dots> \<longleftrightarrow> (\<forall>i \<ge> 7. \<not> bit w i)"
  proof
    assume w: "w AND mask 7 = w"
    show "\<forall>i \<ge> 7. \<not> bit w i"
    proof (intro allI impI)
      fix i :: nat
      assume "7 \<le> i"
      then have "\<not> bit (w AND mask 7) i" by (simp add: bit_simps)
      then show "\<not> bit w i" by (simp only: w not_False_eq_True)
    qed
  next
    assume "\<forall>i \<ge> 7. \<not> bit w i"
    then show "w AND mask 7 = w" by (intro bit_word_eqI) (auto simp: bit_simps not_less [symmetric])
  qed
  finally show ?thesis .
qed

definition packed_entry :: "nat \<Rightarrow> 64 word \<Rightarrow> 64 word \<Rightarrow> 64 word" where
  "packed_entry kb k x = (k AND NOT (mask (kHashbits kb))) OR x"

lemma TryGet_alt:
  "PackedCache_TryGet kb arr key =
     (let e = arr (key AND mask (kHashbits kb)) XOR (key AND NOT (mask (kHashbits kb)))
      in if \<forall>i \<ge> 7. \<not> bit e i then Some (ucast e) else None)"
  by (simp add: PackedCache_TryGet_def Hash_def n_ones_mask Let_def less_128_bits [symmetric] not_less)

lemma entry_same:
  assumes "packed_ok kb" "\<forall>i \<ge> 8. \<not> bit x i"
  shows "packed_entry kb k x XOR (k AND NOT (mask (kHashbits kb))) = x"
proof (rule bit_word_eqI)
  fix n
  assume "n < LENGTH(64)"
  show "bit (packed_entry kb k x XOR (k AND NOT (mask (kHashbits kb)))) n = bit x n"
  proof (cases "8 \<le> n")
    case True
    with assms(2) have "\<not> bit x n" by blast
    then show ?thesis by (auto simp: packed_entry_def bit_simps)
  next
    case False
    with hashbits_bounds [OF assms(1)] have "n < kHashbits kb" by simp
    then show ?thesis by (auto simp: packed_entry_def bit_simps)
  qed
qed

lemma entry_other:
  assumes ok: "packed_ok kb" and x: "\<forall>i \<ge> 8. \<not> bit x i" and k: "k \<noteq> k'"
    and h: "k AND mask (kHashbits kb) = k' AND mask (kHashbits kb)"
  shows "\<exists>i \<ge> 7. bit (packed_entry kb k x XOR (k' AND NOT (mask (kHashbits kb)))) i"
proof -
  obtain i where i: "i < 64" "bit k i \<noteq> bit k' i" using k by (auto simp: bit_eq_iff dest: bit_imp_le_length)
  have "\<not> i < kHashbits kb"
    using arg_cong [OF h, of "\<lambda>w. bit w i"] i by (auto simp: bit_simps)
  with hashbits_bounds [OF ok] have "8 \<le> i" "kHashbits kb \<le> i" by auto
  with i x show ?thesis by (intro exI [of _ i]) (auto simp: packed_entry_def bit_simps)
qed

lemma Put_entry: "PackedCache_Put kb arr k v = arr(k AND mask (kHashbits kb) := packed_entry kb k (ucast v))"
  by (simp add: PackedCache_Put_def KeyToUpper_eq Hash_def n_ones_mask packed_entry_def)

lemma Invalidate_entry: "PackedCache_Invalidate kb arr k = arr(k AND mask (kHashbits kb) := packed_entry kb k 0x80)"
  by (simp add: PackedCache_Invalidate_def KeyToUpper_eq Hash_def n_ones_mask packed_entry_def kInvalidMask_def)

lemma value_bits: "(v :: 32 word) < 128 \<Longrightarrow> 7 \<le> i \<Longrightarrow> \<not> bit v i"
proof -
  assume "v < 128" "7 \<le> i"
  then have "v AND mask 7 = v" by (simp add: word_less_def mask_eq_iff)
  then show ?thesis using \<open>7 \<le> i\<close> by (metis bit_and_iff bit_mask_iff not_le)
qed

lemma invalid_bits: "bit (0x80 :: 64 word) i \<longleftrightarrow> i = 7"
proof -
  have "(0x80 :: 64 word) = 2 ^ 7" by simp
  then show ?thesis by (simp only: bit_exp_iff) auto
qed

lemma same_hash_entry:
  assumes "packed_ok kb" "\<forall>i \<ge> 8. \<not> bit x i" "k' AND mask (kHashbits kb) = k AND mask (kHashbits kb)"
  shows "PackedCache_TryGet kb (arr(k AND mask (kHashbits kb) := packed_entry kb k x)) k' =
    (if k' = k \<and> \<not> bit x 7 then Some (ucast x) else None)"
proof (cases "k' = k")
  case True
  have "(\<forall>i \<ge> 7. \<not> bit x i) \<longleftrightarrow> \<not> bit x 7"
  proof
    assume x: "\<not> bit x 7"
    show "\<forall>i \<ge> 7. \<not> bit x i"
    proof (intro allI impI)
      fix i :: nat
      assume "7 \<le> i"
      then consider "i = 7" | "8 \<le> i" by linarith
      then show "\<not> bit x i" using x assms(2) by cases auto
    qed
  qed simp
  with True show ?thesis using entry_same [OF assms(1,2), of k] by (simp add: TryGet_alt Let_def)
next
  case False
  with entry_other [OF assms(1,2), of k k'] assms(3) show ?thesis by (auto simp: TryGet_alt Let_def)
qed

lemma other_hash_entry:
  "k' AND mask (kHashbits kb) \<noteq> k AND mask (kHashbits kb) \<Longrightarrow>
   PackedCache_TryGet kb (arr(k AND mask (kHashbits kb) := x)) k' = PackedCache_TryGet kb arr k'"
  by (simp add: TryGet_alt)

lemma TryGet_Put:
  assumes "packed_ok kb" "v < 128"
  shows "PackedCache_TryGet kb (PackedCache_Put kb arr k v) k' =
    (if k' = k then Some v else if Hash kb k' = Hash kb k then None else PackedCache_TryGet kb arr k')"
proof -
  have "\<forall>i \<ge> 8. \<not> bit (ucast v :: 64 word) i" "\<not> bit (ucast v :: 64 word) 7"
    using value_bits [OF assms(2)] by (auto simp: bit_simps)
  moreover have "ucast (ucast v :: 64 word) = v" by (rule ucast_up_ucast_id) (simp add: is_up)
  ultimately show ?thesis
    using same_hash_entry [OF assms(1), of "ucast v" k' k arr] other_hash_entry [of k' kb k arr]
    by (auto simp: Put_entry Hash_def n_ones_mask)
qed

lemma TryGet_Invalidate:
  assumes "packed_ok kb"
  shows "PackedCache_TryGet kb (PackedCache_Invalidate kb arr k) k' =
    (if Hash kb k' = Hash kb k then None else PackedCache_TryGet kb arr k')"
proof -
  have "\<forall>i \<ge> 8. \<not> bit (0x80 :: 64 word) i" "bit (0x80 :: 64 word) 7" by (simp_all only: invalid_bits) auto
  then show ?thesis
    using same_hash_entry [OF assms, of "0x80" k' k arr] other_hash_entry [of k' kb k arr]
    by (auto simp: Invalidate_entry Hash_def n_ones_mask)
qed

lemma TryGet_Clear:
  assumes "packed_ok kb"
  shows "PackedCache_TryGet kb (PackedCache_Clear arr) k = None"
proof -
  have "bit (0x8080808080808080 :: 64 word) 7" by simp
  moreover have "\<not> bit (k AND NOT (mask (kHashbits kb))) 7"
    using hashbits_bounds [OF assms] by (simp add: bit_simps)
  ultimately show ?thesis by (auto simp: TryGet_alt PackedCache_Clear_def bit_simps Let_def intro!: exI [of _ 7])
qed

section \<open>The contract of a class cache\<close>

text \<open>
  A cache is coherent with a table \<open>f\<close> when every value it returns is the value of the table.  The
  laws of a class cache are enough to keep it coherent while the table changes.
\<close>

definition coherent :: "('c \<Rightarrow> 'k \<Rightarrow> 'v option) \<Rightarrow> 'c \<Rightarrow> ('k \<Rightarrow> 'v) \<Rightarrow> bool" where
  "coherent get c f \<longleftrightarrow> (\<forall>k v. get c k = Some v \<longrightarrow> f k = v)"

locale class_cache =
  fixes get :: "'c \<Rightarrow> 'k \<Rightarrow> 'v option"
    and put :: "'c \<Rightarrow> 'k \<Rightarrow> 'v \<Rightarrow> 'c"
    and inval :: "'c \<Rightarrow> 'k \<Rightarrow> 'c"
    and clear :: "'c \<Rightarrow> 'c"
    and valid :: "'v \<Rightarrow> bool"
  assumes get_put_same: "valid v \<Longrightarrow> get (put c k v) k = Some v"
    and get_put_other: "valid v \<Longrightarrow> k' \<noteq> k \<Longrightarrow> get (put c k v) k' = Some w \<Longrightarrow> get c k' = Some w"
    and get_inval_same: "get (inval c k) k = None"
    and get_inval_other: "get (inval c k) k' = Some w \<Longrightarrow> get c k' = Some w"
    and get_clear: "get (clear c) k = None"
begin

lemma coherent_clear: "coherent get (clear c) f"
  by (simp add: coherent_def get_clear)

lemma coherent_put: "coherent get c f \<Longrightarrow> valid v \<Longrightarrow> f k = v \<Longrightarrow> coherent get (put c k v) f"
  unfolding coherent_def by (intro allI impI, case_tac "ka = k") (auto simp: get_put_same dest: get_put_other)

lemma coherent_inval: "coherent get c f \<Longrightarrow> coherent get (inval c k) (f(k := v))"
  unfolding coherent_def by (auto simp: get_inval_same dest: get_inval_other)

end

lemma PackedCache_class_cache:
  assumes "packed_ok kb"
  shows "class_cache (PackedCache_TryGet kb) (PackedCache_Put kb) (PackedCache_Invalidate kb) PackedCache_Clear (\<lambda>v. v < 128)"
  by unfold_locales
    (auto simp: TryGet_Put [OF assms] TryGet_Invalidate [OF assms] TryGet_Clear [OF assms] split: if_splits)

text \<open>The cache of the page heap has keys of \<^verbatim>\<open>kAddressBits - kPageShift\<close> = 35 bits.\<close>

lemma packed_ok_35: "packed_ok 35"
  by (simp add: packed_ok_def kHashbits_def kWantHashBits_def kValuebits_def)

interpretation PC: class_cache "PackedCache_TryGet 35" "PackedCache_Put 35" "PackedCache_Invalidate 35"
    PackedCache_Clear "\<lambda>v. v < 128"
  by (rule PackedCache_class_cache [OF packed_ok_35])

section \<open>Properties\<close>

text \<open>
  C17. Lookup: after \<^verbatim>\<open>Put(key, value)\<close> the cache returns exactly that value for that key, answers no other key
  of the same slot, and is unchanged on all other slots.
\<close>

theorem PackedCache_lookup_after_put:
  assumes "packed_ok kb" "v < 128"
  shows "PackedCache_TryGet kb (PackedCache_Put kb arr k v) k' =
    (if k' = k then Some v else if Hash kb k' = Hash kb k then None else PackedCache_TryGet kb arr k')"
  by (rule TryGet_Put [OF assms])

theorem PackedCache_lookup_after_put_witness:
  "PackedCache_TryGet 35 (PackedCache_Put 35 (\<lambda>_. 0) 0x12345 7) 0x12345 =
    (if (0x12345 :: 64 word) = 0x12345 then Some 7 else if Hash 35 0x12345 = Hash 35 0x12345 then None
     else PackedCache_TryGet 35 (\<lambda>_. 0) 0x12345)"
  by (rule PackedCache_lookup_after_put) (simp_all add: packed_ok_35)



end
