(* ===== verification/PageHeap.thy ===== *)
theory PageHeap
  imports Span PageMap PackedCache
begin

unbundle bit_operations_syntax

text \<open>
  The page heap of src/page\_heap.h and src/page\_heap.cc: it hands out runs of pages (spans) and keeps the free
  ones on lists by length, for normal memory and for memory returned to the system, coalescing neighbours eagerly.

  The state \<open>heap\<close> has the members of \<^verbatim>\<open>PageHeap\<close>, the objects of type \<^verbatim>\<open>Span\<close> (\<open>hp_spans\<close>), the span and stack trace
  allocators of \<^verbatim>\<open>Static\<close>, and the metadata and system state below.  Every member function is a function of the
  option monad; \<^term>\<open>None\<close> is a crash: a dereference of a span that does not exist, a page map access out of the
  allocated leaves, a failed check, metadata that runs out, or a loop that does not end.  Lengths and byte counts are
  \<^verbatim>\<open>uint64_t\<close> values; \<^verbatim>\<open>const int extra\<close> is 32 bits wide as in the source.  The release rate is a fraction
  instead of a floating point number.  Locks are not modelled: every function runs with the lock held.
\<close>

section \<open>State\<close>

record page_stats =
  system_bytes :: nat
  free_bytes :: nat
  unmapped_bytes :: nat
  committed_bytes :: nat
  scavenge_count :: nat
  commit_count :: nat
  total_commit_bytes :: nat
  decommit_count :: nat
  total_decommit_bytes :: nat
  reserve_count :: nat
  total_reserve_bytes :: nat

record 'o heap =
  hp_meta :: "'o meta"
  span_allocator :: pha
  stacktrace_allocator :: pha
  hp_spans :: spans
  smallest_span_size :: nat
  pagemap_cache :: packed_cache
  pagemap :: pagemap2
  large_normal :: "span_ptr list"
  large_returned :: "span_ptr list"
  free_normal :: "nat \<Rightarrow> nat list"
  free_returned :: "nat \<Rightarrow> nat list"
  stats :: page_stats
  scavenge_counter :: int
  release_index :: nat
  aggressive_decommit :: bool
  growth_stacks :: "(nat \<times> nat) list"

definition kPageMapBits :: nat where [tc_consts]: "kPageMapBits = kAddressBits - kPageShift"
definition kPageMapBigAllocationThreshold :: nat where "kPageMapBigAllocationThreshold = 128 * 2 ^ 20"
definition kMinSystemAlloc :: nat where [tc_consts]: "kMinSystemAlloc = kMaxPages"
definition kMaxReleaseDelay :: nat where "kMaxReleaseDelay = 2 ^ 20"
definition kDefaultReleaseDelay :: nat where "kDefaultReleaseDelay = 2 ^ 18"
definition kForcedCoalesceInterval :: nat where "kForcedCoalesceInterval = 128 * 1024 * 1024"
definition sizeof_StackTrace :: nat where [tc_consts]: "sizeof_StackTrace = 8 + 8 + 8 * 31"

text \<open>\<^verbatim>\<open>n << kPageShift\<close>.\<close>

definition page_bytes :: "nat \<Rightarrow> nat" where
  "page_bytes n = w64 (push_bit kPageShift n)"

definition zero_stats :: page_stats where
  "zero_stats = \<lparr>system_bytes = 0, free_bytes = 0, unmapped_bytes = 0, committed_bytes = 0, scavenge_count = 0,
     commit_count = 0, total_commit_bytes = 0, decommit_count = 0, total_decommit_bytes = 0, reserve_count = 0,
     total_reserve_bytes = 0\<rparr>"

text \<open>The constructor.  The statically allocated cache starts with the value given.\<close>

definition PageHeap_new :: "nat \<Rightarrow> 'o meta \<Rightarrow> pha \<Rightarrow> pha \<Rightarrow> spans \<Rightarrow> packed_cache \<Rightarrow> 'o heap option" where
  "PageHeap_new smallest m sa ta S cache =
     (if smallest AND (smallest - 1) = 0 then
        Some \<lparr>hp_meta = m, span_allocator = sa, stacktrace_allocator = ta, hp_spans = S, smallest_span_size = smallest,
          pagemap_cache = cache, pagemap = PageMap2_new, large_normal = [], large_returned = [],
          free_normal = (\<lambda>_. []), free_returned = (\<lambda>_. []), stats = zero_stats, scavenge_counter = 0,
          release_index = kMaxPages, aggressive_decommit = False, growth_stacks = []\<rparr>
      else None)"

section \<open>Page map and size class cache\<close>

definition GetDescriptor :: "'o heap \<Rightarrow> nat \<Rightarrow> nat" where
  "GetDescriptor h p = PageMap2_get kPageMapBits (pagemap h) p"

definition pagemap_set :: "'o heap \<Rightarrow> nat \<Rightarrow> nat \<Rightarrow> 'o heap option" where
  "pagemap_set h k v = do { pm \<leftarrow> PageMap2_set kPageMapBits (pagemap h) k v; Some (h\<lparr>pagemap := pm\<rparr>) }"

definition RecordSpan :: "'o heap \<Rightarrow> nat \<Rightarrow> 'o heap option" where
  "RecordSpan h span = do {
     s \<leftarrow> hp_spans h span;
     h \<leftarrow> pagemap_set h (start s) span;
     if len s > 1 then pagemap_set h (start s + len s - 1) span else Some h }"

definition TryGetSizeClass :: "'o heap \<Rightarrow> nat \<Rightarrow> nat option" where
  "TryGetSizeClass h p = map_option unat (PackedCache_TryGet kPageMapBits (pagemap_cache h) (of_nat p))"

definition SetCachedSizeClass :: "'o heap \<Rightarrow> nat \<Rightarrow> nat \<Rightarrow> 'o heap" where
  "SetCachedSizeClass h p cl = h\<lparr>pagemap_cache := PackedCache_Put kPageMapBits (pagemap_cache h) (of_nat p) (of_nat cl)\<rparr>"

definition InvalidateCachedSizeClass :: "'o heap \<Rightarrow> nat \<Rightarrow> 'o heap" where
  "InvalidateCachedSizeClass h p = h\<lparr>pagemap_cache := PackedCache_Invalidate kPageMapBits (pagemap_cache h) (of_nat p)\<rparr>"

definition GetSizeClassOrZero :: "'o heap \<Rightarrow> nat \<Rightarrow> nat" where
  "GetSizeClassOrZero h p = (case TryGetSizeClass h p of None \<Rightarrow> 0 | Some c \<Rightarrow> c)"

section \<open>Spans of the heap\<close>

definition heap_NewSpan :: "'o env \<Rightarrow> 'o heap \<Rightarrow> nat \<Rightarrow> nat \<Rightarrow> (nat \<times> 'o heap) option" where
  "heap_NewSpan env h p n = do {
     (r, a, m, S) \<leftarrow> NewSpan env (span_allocator h) (hp_meta h) (hp_spans h) p n;
     Some (r, h\<lparr>span_allocator := a, hp_meta := m, hp_spans := S\<rparr>) }"

definition heap_DeleteSpan :: "'o heap \<Rightarrow> nat \<Rightarrow> 'o heap" where
  "heap_DeleteSpan h span =
     (let (a, S) = DeleteSpan (span_allocator h) (hp_spans h) span in h\<lparr>span_allocator := a, hp_spans := S\<rparr>)"

text \<open>An assignment to members of a span.\<close>

definition set_span :: "'o heap \<Rightarrow> nat \<Rightarrow> (span \<Rightarrow> span) \<Rightarrow> 'o heap option" where
  "set_span h span f = do { s \<leftarrow> hp_spans h span; Some (h\<lparr>hp_spans := (hp_spans h)(span \<mapsto> f s)\<rparr>) }"

definition RoundUpSize :: "'o heap \<Rightarrow> nat \<Rightarrow> nat" where
  "RoundUpSize h n =
     (let mask = smallest_span_size h - 1;
          rounded_n = w64 (n + mask) - (w64 (n + mask) AND mask)
      in if rounded_n < n then (2 ^ 64 - 1) - ((2 ^ 64 - 1) AND mask) else rounded_n)"

section \<open>Free lists\<close>

definition PrependToFreeList :: "'o heap \<Rightarrow> nat \<Rightarrow> 'o heap option" where
  "PrependToFreeList h span = do {
     s \<leftarrow> hp_spans h span;
     let st = stats h;
     let h = h\<lparr>stats := (if location s = ON_NORMAL_FREELIST
                          then st\<lparr>free_bytes := w64 (free_bytes st + page_bytes (len s))\<rparr>
                          else st\<lparr>unmapped_bytes := w64 (unmapped_bytes st + page_bytes (len s))\<rparr>)\<rparr>;
     if len s > kMaxPages then do {
       e \<leftarrow> SpanPtrWithLength (hp_spans h) span;
       if location s = ON_RETURNED_FREELIST
       then Some (h\<lparr>large_returned := SpanSet_insert e (large_returned h)\<rparr>)
       else Some (h\<lparr>large_normal := SpanSet_insert e (large_normal h)\<rparr>) }
     else if len s = 0 then None
     else if location s = ON_NORMAL_FREELIST
       then Some (h\<lparr>free_normal := (free_normal h)(len s - 1 := span # free_normal h (len s - 1))\<rparr>)
       else Some (h\<lparr>free_returned := (free_returned h)(len s - 1 := span # free_returned h (len s - 1))\<rparr>) }"

definition RemoveFromFreeList :: "'o heap \<Rightarrow> nat \<Rightarrow> 'o heap option" where
  "RemoveFromFreeList h span = do {
     s \<leftarrow> hp_spans h span;
     let st = stats h;
     let h = h\<lparr>stats := (if location s = ON_NORMAL_FREELIST
                          then st\<lparr>free_bytes := sub64 (free_bytes st) (page_bytes (len s))\<rparr>
                          else st\<lparr>unmapped_bytes := sub64 (unmapped_bytes st) (page_bytes (len s))\<rparr>)\<rparr>;
     if len s > kMaxPages then
       (if location s = ON_RETURNED_FREELIST
        then Some (h\<lparr>large_returned := SpanSet_erase span (large_returned h)\<rparr>)
        else Some (h\<lparr>large_normal := SpanSet_erase span (large_normal h)\<rparr>))
     else if span \<in> set (free_normal h (len s - 1)) then
       Some (h\<lparr>free_normal := (free_normal h)(len s - 1 := remove1 span (free_normal h (len s - 1)))\<rparr>)
     else if span \<in> set (free_returned h (len s - 1)) then
       Some (h\<lparr>free_returned := (free_returned h)(len s - 1 := remove1 span (free_returned h (len s - 1)))\<rparr>)
     else None }"

definition CommitSpan :: "'o heap \<Rightarrow> nat \<Rightarrow> 'o heap option" where
  "CommitSpan h span = do {
     s \<leftarrow> hp_spans h span;
     let st = stats h;
     Some (h\<lparr>stats := st\<lparr>commit_count := w64 (commit_count st + 1),
       committed_bytes := w64 (committed_bytes st + page_bytes (len s)),
       total_commit_bytes := w64 (total_commit_bytes st + page_bytes (len s))\<rparr>\<rparr>) }"

definition DecommitSpan :: "'o env \<Rightarrow> 'o heap \<Rightarrow> nat \<Rightarrow> (bool \<times> 'o heap) option" where
  "DecommitSpan env h span = do {
     s \<leftarrow> hp_spans h span;
     let st = (stats h)\<lparr>decommit_count := w64 (decommit_count (stats h) + 1)\<rparr>;
     (rv, sy) \<leftarrow> TCMalloc_SystemRelease env (meta_sys (hp_meta h)) (page_bytes (start s)) (page_bytes (len s));
     let h = h\<lparr>hp_meta := (hp_meta h)\<lparr>meta_sys := sy\<rparr>\<rparr>;
     if rv
     then Some (True, h\<lparr>stats := st\<lparr>committed_bytes := sub64 (committed_bytes st) (page_bytes (len s)),
                          total_decommit_bytes := w64 (total_decommit_bytes st + page_bytes (len s))\<rparr>\<rparr>)
     else Some (False, h\<lparr>stats := st\<rparr>) }"

definition CheckAndHandlePreMerge :: "'o env \<Rightarrow> 'o heap \<Rightarrow> nat \<Rightarrow> nat \<Rightarrow> (nat \<times> 'o heap) option" where
  "CheckAndHandlePreMerge env h span other =
     (if other = 0 then Some (0, h)
      else do {
        so \<leftarrow> hp_spans h other;
        s \<leftarrow> hp_spans h span;
        if aggressive_decommit h \<and> location so = ON_NORMAL_FREELIST \<and> location s = ON_RETURNED_FREELIST then do {
          (worked, h) \<leftarrow> DecommitSpan env h other;
          if \<not> worked then Some (0, h) else do { h \<leftarrow> RemoveFromFreeList h other; Some (other, h) } }
        else if location so \<noteq> location s then Some (0, h)
        else do { h \<leftarrow> RemoveFromFreeList h other; Some (other, h) } })"

text \<open>The two halves of \<^verbatim>\<open>MergeIntoFreeList\<close>.\<close>

definition merge_prev :: "'o env \<Rightarrow> 'o heap \<Rightarrow> nat \<Rightarrow> nat \<Rightarrow> 'o heap option" where
  "merge_prev env h span p = do {
     (prev, h) \<leftarrow> CheckAndHandlePreMerge env h span (GetDescriptor h (p - 1));
     if prev \<noteq> 0 then do {
       sp \<leftarrow> hp_spans h prev;
       let h = heap_DeleteSpan h prev;
       h \<leftarrow> set_span h span (\<lambda>s. s\<lparr>start := start s - len sp, len := len s + len sp\<rparr>);
       s \<leftarrow> hp_spans h span;
       pagemap_set h (start s) span }
     else Some h }"

definition merge_next :: "'o env \<Rightarrow> 'o heap \<Rightarrow> nat \<Rightarrow> nat \<Rightarrow> 'o heap option" where
  "merge_next env h span p = do {
     (next, h) \<leftarrow> CheckAndHandlePreMerge env h span (GetDescriptor h p);
     if next \<noteq> 0 then do {
       sn \<leftarrow> hp_spans h next;
       let h = heap_DeleteSpan h next;
       h \<leftarrow> set_span h span (\<lambda>s. s\<lparr>len := len s + len sn\<rparr>);
       s \<leftarrow> hp_spans h span;
       pagemap_set h (start s + len s - 1) span }
     else Some h }"

definition MergeIntoFreeList :: "'o env \<Rightarrow> 'o heap \<Rightarrow> nat \<Rightarrow> 'o heap option" where
  "MergeIntoFreeList env h span = do {
     s \<leftarrow> hp_spans h span;
     let p = start s;
     let n = len s;
     h \<leftarrow> (if aggressive_decommit h \<and> location s = ON_NORMAL_FREELIST then do {
             (ok, h) \<leftarrow> DecommitSpan env h span;
             if ok then set_span h span (\<lambda>s. s\<lparr>location := ON_RETURNED_FREELIST\<rparr>) else Some h }
           else Some h);
     h \<leftarrow> merge_prev env h span p;
     h \<leftarrow> merge_next env h span (p + n);
     PrependToFreeList h span }"

section \<open>Release\<close>

definition ReleaseSpan :: "'o env \<Rightarrow> 'o heap \<Rightarrow> nat \<Rightarrow> (nat \<times> 'o heap) option" where
  "ReleaseSpan env h s = do {
     (ok, h) \<leftarrow> DecommitSpan env h s;
     if ok then do {
       h \<leftarrow> RemoveFromFreeList h s;
       sp \<leftarrow> hp_spans h s;
       h \<leftarrow> set_span h s (\<lambda>x. x\<lparr>location := ON_RETURNED_FREELIST\<rparr>);
       h \<leftarrow> MergeIntoFreeList env h s;
       Some (len sp, h) }
     else Some (0, h) }"

text \<open>The span that the list with index \<open>release_index\<close> offers for release.\<close>

definition release_candidate :: "'o heap \<Rightarrow> nat option" where
  "release_candidate h =
     (if release_index h = kMaxPages
      then (case large_normal h of [] \<Rightarrow> None | e # _ \<Rightarrow> Some (sp_span e))
      else (if free_normal h (release_index h) = [] then None else Some (last (free_normal h (release_index h)))))"

text \<open>
  The inner loop of \<^verbatim>\<open>ReleaseAtLeastNPages\<close>; the first argument after \<open>env\<close> is the number of turns left, the flag of
  the result tells that the whole function returns.
\<close>

fun release_round :: "'o env \<Rightarrow> nat \<Rightarrow> nat \<Rightarrow> nat \<Rightarrow> 'o heap \<Rightarrow> (bool \<times> nat \<times> 'o heap) option" where
  "release_round env 0 num_pages released_pages h = Some (False, released_pages, h)"
| "release_round env (Suc k) num_pages released_pages h =
     (if released_pages < num_pages then
        let h = (if release_index h > kMaxPages then h\<lparr>release_index := 0\<rparr> else h)
        in case release_candidate h of
             None \<Rightarrow> release_round env k num_pages released_pages (h\<lparr>release_index := release_index h + 1\<rparr>)
           | Some s \<Rightarrow> do {
               (released_len, h) \<leftarrow> ReleaseSpan env h s;
               if released_len = 0 then Some (True, released_pages, h)
               else release_round env k num_pages (w64 (released_pages + released_len))
                      (h\<lparr>release_index := release_index h + 1\<rparr>) }
      else Some (False, released_pages, h))"

partial_function (option) release_loop :: "'o env \<Rightarrow> nat \<Rightarrow> nat \<Rightarrow> 'o heap \<Rightarrow> (nat \<times> 'o heap) option" where
  "release_loop env num_pages released_pages h =
     (if released_pages < num_pages \<and> free_bytes (stats h) > 0 then do {
        (ret, released_pages, h) \<leftarrow> release_round env (kMaxPages + 1) num_pages released_pages h;
        if ret then Some (released_pages, h) else release_loop env num_pages released_pages h }
      else Some (released_pages, h))"

definition ReleaseAtLeastNPages :: "'o env \<Rightarrow> 'o heap \<Rightarrow> nat \<Rightarrow> (nat \<times> 'o heap) option" where
  "ReleaseAtLeastNPages env h num_pages = release_loop env num_pages 0 h"

definition EnsureLimit :: "'o env \<Rightarrow> 'o heap \<Rightarrow> nat \<Rightarrow> bool \<Rightarrow> (bool \<times> 'o heap) option" where
  "EnsureLimit env h n withRelease =
     (let limit = drop_bit kPageShift (w64 (FLAGS_tcmalloc_heap_limit_mb env * 1024 * 1024))
      in if limit = 0 then Some (True, h)
         else
           let takenPages = drop_bit kPageShift (SystemTaken (meta_sys (hp_meta h)));
               takenPages = sub64 takenPages (drop_bit kPageShift (unmapped_bytes (stats h)))
           in if w64 (takenPages + n) > limit \<and> withRelease then do {
                (released, h) \<leftarrow> ReleaseAtLeastNPages env h (w64 (takenPages + n) - limit);
                Some (w64 (sub64 takenPages released + n) \<le> limit, h) }
              else Some (w64 (takenPages + n) \<le> limit, h))"

text \<open>\<^verbatim>\<open>rate\<close> is \<open>release_rate_num / release_rate_den\<close>.\<close>

definition IncrementalScavenge :: "'o env \<Rightarrow> 'o heap \<Rightarrow> nat \<Rightarrow> 'o heap option" where
  "IncrementalScavenge env h n =
     (let h = h\<lparr>scavenge_counter := scavenge_counter h - int n\<rparr>
      in if scavenge_counter h \<ge> 0 then Some h
         else if release_rate_num env * 10 ^ 6 \<le> release_rate_den env then
           Some (h\<lparr>scavenge_counter := int kDefaultReleaseDelay\<rparr>)
         else do {
           let h = h\<lparr>stats := (stats h)\<lparr>scavenge_count := w64 (scavenge_count (stats h) + 1)\<rparr>\<rparr>;
           (released_pages, h) \<leftarrow> ReleaseAtLeastNPages env h 1;
           if released_pages = 0 then Some (h\<lparr>scavenge_counter := int kDefaultReleaseDelay\<rparr>)
           else
             let wait = 1000 * release_rate_den env * released_pages div release_rate_num env
             in Some (h\<lparr>scavenge_counter := int (if wait > kMaxReleaseDelay then kMaxReleaseDelay else wait)\<rparr>) })"

definition DeleteLocked :: "'o env \<Rightarrow> 'o heap \<Rightarrow> nat \<Rightarrow> 'o heap option" where
  "DeleteLocked env h span = do {
     s \<leftarrow> hp_spans h span;
     let n = len s;
     h \<leftarrow> set_span h span (\<lambda>s. s\<lparr>sizeclass := 0, sample := False, location := ON_NORMAL_FREELIST\<rparr>);
     h \<leftarrow> MergeIntoFreeList env h span;
     IncrementalScavenge env h n }"

section \<open>Allocation\<close>

definition Split :: "'o env \<Rightarrow> 'o heap \<Rightarrow> nat \<Rightarrow> nat \<Rightarrow> (nat \<times> 'o heap) option" where
  "Split env h span n = do {
     s \<leftarrow> hp_spans h span;
     let extra = int32_of (int (sub64 (len s) n));
     (leftover, h) \<leftarrow> heap_NewSpan env h (start s + n) (size_of_int extra);
     h \<leftarrow> RecordSpan h leftover;
     h \<leftarrow> pagemap_set h (start s + n - 1) span;
     h \<leftarrow> set_span h span (\<lambda>s. s\<lparr>len := n\<rparr>);
     Some (leftover, h) }"

definition Carve :: "'o env \<Rightarrow> 'o heap \<Rightarrow> nat \<Rightarrow> nat \<Rightarrow> (nat \<times> 'o heap) option" where
  "Carve env h span n = do {
     s \<leftarrow> hp_spans h span;
     let old_location = location s;
     h \<leftarrow> RemoveFromFreeList h span;
     h \<leftarrow> set_span h span (\<lambda>s. s\<lparr>location := IN_USE\<rparr>);
     let extra = int32_of (int (sub64 (len s) n));
     h \<leftarrow> (if extra > 0 then do {
             (leftover, h) \<leftarrow> heap_NewSpan env h (start s + n) (size_of_int extra);
             h \<leftarrow> set_span h leftover (\<lambda>s. s\<lparr>location := old_location\<rparr>);
             h \<leftarrow> RecordSpan h leftover;
             h \<leftarrow> PrependToFreeList h leftover;
             h \<leftarrow> set_span h span (\<lambda>s. s\<lparr>len := n\<rparr>);
             pagemap_set h (start s + n - 1) span }
           else Some h);
     h \<leftarrow> (if old_location = ON_RETURNED_FREELIST then CommitSpan h span else Some h);
     Some (span, h) }"

partial_function (option) AllocLarge :: "'o env \<Rightarrow> 'o heap \<Rightarrow> nat \<Rightarrow> (nat \<times> 'o heap) option" where
  "AllocLarge env h n = do {
     let bound = \<lparr>sp_length = n, sp_start = 0, sp_span = 0\<rparr>;
     let best_normal = SpanSet_upper_bound bound (large_normal h);
     best \<leftarrow> (case SpanSet_upper_bound bound (large_returned h) of
         None \<Rightarrow> Some best_normal
       | Some c \<Rightarrow>
           (case best_normal of
              None \<Rightarrow> Some (Some c)
            | Some b \<Rightarrow> do { sc \<leftarrow> hp_spans h c; sb \<leftarrow> hp_spans h b; Some (if len sc < len sb then Some c else Some b) }));
     if best = best_normal then
       (case best of None \<Rightarrow> Some (0, h) | Some b \<Rightarrow> Carve env h b n)
     else do {
       (ok, h) \<leftarrow> EnsureLimit env h n False;
       if ok then Carve env h (the best) n
       else do {
         (ok, h) \<leftarrow> EnsureLimit env h n True;
         if ok then AllocLarge env h n else Some (0, h) } } }"

text \<open>The loop over the small sizes, from \<open>s\<close> on.\<close>

function search_lists :: "'o env \<Rightarrow> 'o heap \<Rightarrow> nat \<Rightarrow> nat \<Rightarrow> (nat \<times> 'o heap) option" where
  "search_lists env h n s =
     (if s \<le> kMaxPages then
        (case free_normal h (s - 1) of
           x # _ \<Rightarrow> Carve env h x n
         | [] \<Rightarrow>
             if free_returned h (s - 1) \<noteq> [] then do {
               (ok, h) \<leftarrow> EnsureLimit env h n True;
               (if ok then
                  (case free_returned h (s - 1) of
                     x # _ \<Rightarrow> Carve env h x n
                   | [] \<Rightarrow> search_lists env h n (s + 1))
                else search_lists env h n (s + 1)) }
             else search_lists env h n (s + 1))
      else AllocLarge env h n)"
  by pat_completeness auto
termination
  by (relation "measure (\<lambda>(env, h, n, s). kMaxPages + 1 - s)") auto

declare search_lists.simps [simp del]

definition SearchFreeAndLargeLists :: "'o env \<Rightarrow> 'o heap \<Rightarrow> nat \<Rightarrow> (nat \<times> 'o heap) option" where
  "SearchFreeAndLargeLists env h n = search_lists env h n n"

text \<open>
  The allocator that the page map calls.  A crash inside of \<^verbatim>\<open>MetaDataAlloc\<close> is remembered in the state and makes
  the whole operation a crash.
\<close>

definition meta_allocator :: "'o env \<Rightarrow> 'o meta option allocator" where
  "meta_allocator env sz mo =
     (case mo of None \<Rightarrow> (0, None)
      | Some m \<Rightarrow> (case MetaDataAlloc env m sz of None \<Rightarrow> (0, None) | Some (p, m) \<Rightarrow> (p, Some m)))"

text \<open>The first part of \<^verbatim>\<open>GrowHeap\<close>: memory from the system, asking for more than needed first.\<close>

definition grow_ask :: "'o env \<Rightarrow> 'o heap \<Rightarrow> nat \<Rightarrow> ((nat \<times> nat) option \<times> 'o heap) option" where
  "grow_ask env h ask = do {
     (ok, h) \<leftarrow> EnsureLimit env h ask True;
     if ok then do {
       (r, s) \<leftarrow> TCMalloc_SystemAlloc env (meta_sys (hp_meta h)) (page_bytes ask) kPageSize;
       Some (r, h\<lparr>hp_meta := (hp_meta h)\<lparr>meta_sys := s\<rparr>\<rparr>) }
     else Some (None, h) }"

definition GrowHeap :: "'o env \<Rightarrow> 'o heap \<Rightarrow> nat \<Rightarrow> nat \<Rightarrow> (bool \<times> nat \<times> 'o heap) option" where
  "GrowHeap env h n grown_by =
     (if n > kMaxValidPages then Some (False, grown_by, h)
      else do {
        let ask = (if n > kMinSystemAlloc then n else kMinSystemAlloc);
        (r, h) \<leftarrow> grow_ask env h ask;
        (r, h) \<leftarrow> (if r = None \<and> n < ask then grow_ask env h n else Some (r, h));
        (case r of
           None \<Rightarrow> Some (False, grown_by, h)
         | Some (ptr, actual_size) \<Rightarrow> do {
             let ask = drop_bit kPageShift actual_size;
             let grown_by = w64 (grown_by + page_bytes ask);
             let st = stats h;
             let old_system_bytes = system_bytes st;
             let st = st\<lparr>reserve_count := w64 (reserve_count st + 1), commit_count := w64 (commit_count st + 1),
               system_bytes := w64 (system_bytes st + page_bytes ask),
               committed_bytes := w64 (committed_bytes st + page_bytes ask),
               total_commit_bytes := w64 (total_commit_bytes st + page_bytes ask),
               total_reserve_bytes := w64 (total_reserve_bytes st + page_bytes ask)\<rparr>;
             let h = h\<lparr>stats := st\<rparr>;
             let p = drop_bit kPageShift ptr;
             let (pm, mo) =
               (if old_system_bytes < kPageMapBigAllocationThreshold \<and> system_bytes st \<ge> kPageMapBigAllocationThreshold
                then PageMap2_PreallocateMoreMemory kPageMapBits (meta_allocator env) (pagemap h) (Some (hp_meta h))
                else (pagemap h, Some (hp_meta h)));
             let (ok, pm, mo) = PageMap2_Ensure kPageMapBits (meta_allocator env) pm mo (p - 1) (ask + 2);
             m \<leftarrow> mo;
             let h = h\<lparr>pagemap := pm, hp_meta := m\<rparr>;
             if ok then do {
               (span, h) \<leftarrow> heap_NewSpan env h p ask;
               h \<leftarrow> RecordSpan h span;
               h \<leftarrow> DeleteLocked env h span;
               Some (True, grown_by, h) }
             else Some (False, grown_by, h) }) })"

definition NewLocked :: "'o env \<Rightarrow> 'o heap \<Rightarrow> nat \<Rightarrow> nat \<Rightarrow> (nat \<times> nat \<times> 'o heap) option" where
  "NewLocked env h n grown_by = do {
     let n = RoundUpSize h n;
     (result, h) \<leftarrow> SearchFreeAndLargeLists env h n;
     if result \<noteq> 0 then Some (result, grown_by, h)
     else do {
       let st = stats h;
       (result, h) \<leftarrow>
         (if free_bytes st \<noteq> 0 \<and> unmapped_bytes st \<noteq> 0 \<and>
             w64 (free_bytes st + unmapped_bytes st) \<ge> system_bytes st div 4 \<and>
             system_bytes st div kForcedCoalesceInterval \<noteq>
               w64 (system_bytes st + page_bytes n) div kForcedCoalesceInterval
          then do {
            (released, h) \<leftarrow> ReleaseAtLeastNPages env h 0x7fffffff;
            SearchFreeAndLargeLists env h n }
          else Some (0, h));
       if result \<noteq> 0 then Some (result, grown_by, h)
       else do {
         (ok, grown_by, h) \<leftarrow> GrowHeap env h n grown_by;
         if \<not> ok then Some (0, grown_by, h)
         else do {
           (result, h) \<leftarrow> SearchFreeAndLargeLists env h n;
           Some (result, grown_by, h) } } } }"

text \<open>A stack trace is the pointer and the size; the recorded return addresses are not modelled.\<close>

definition HandleUnlock :: "'o env \<Rightarrow> 'o heap \<Rightarrow> nat \<Rightarrow> 'o heap option" where
  "HandleUnlock env h grown_by =
     (if grown_by \<noteq> 0 then do {
        (t, a, m) \<leftarrow> PHA_New env sizeof_StackTrace (stacktrace_allocator h) (hp_meta h);
        Some (h\<lparr>stacktrace_allocator := a, hp_meta := m, growth_stacks := (t, grown_by) # growth_stacks h\<rparr>) }
      else Some h)"

text \<open>The loop of \<^verbatim>\<open>RegisterSizeClass\<close> over the interior pages.\<close>

fun register_pages :: "'o heap \<Rightarrow> nat \<Rightarrow> nat \<Rightarrow> nat \<Rightarrow> 'o heap option" where
  "register_pages h span p 0 = Some h"
| "register_pages h span p (Suc k) = do { h \<leftarrow> pagemap_set h p span; register_pages h span (p + 1) k }"

definition RegisterSizeClass :: "'o heap \<Rightarrow> nat \<Rightarrow> nat \<Rightarrow> 'o heap option" where
  "RegisterSizeClass h span sc = do {
     h \<leftarrow> set_span h span (\<lambda>s. s\<lparr>sizeclass := sc\<rparr>);
     s \<leftarrow> hp_spans h span;
     register_pages h span (start s + 1) (len s - 2) }"

definition NewWithSizeClass :: "'o env \<Rightarrow> 'o heap \<Rightarrow> nat \<Rightarrow> nat \<Rightarrow> (nat \<times> 'o heap) option" where
  "NewWithSizeClass env h n sc = do {
     (span, grown_by, h) \<leftarrow> NewLocked env h n 0;
     h \<leftarrow> (if span = 0 then Some h
           else do {
             s \<leftarrow> hp_spans h span;
             let h = InvalidateCachedSizeClass h (start s);
             if sc \<noteq> 0 then RegisterSizeClass h span sc else Some h });
     h \<leftarrow> HandleUnlock env h grown_by;
     Some (span, h) }"

partial_function (option) aligned_skip :: "nat \<Rightarrow> nat \<Rightarrow> nat \<Rightarrow> nat option" where
  "aligned_skip st align_bytes skip =
     (if page_bytes (st + skip) AND (align_bytes - 1) \<noteq> 0 then aligned_skip st align_bytes (skip + 1) else Some skip)"

definition NewAligned :: "'o env \<Rightarrow> 'o heap \<Rightarrow> nat \<Rightarrow> nat \<Rightarrow> (nat \<times> 'o heap) option" where
  "NewAligned env h n align_pages = do {
     let n = RoundUpSize h n;
     let alloc = w64 (n + align_pages);
     if alloc < n \<or> alloc < align_pages then do {
       (span, h) \<leftarrow> NewWithSizeClass env h (2 ^ 64 - 1) 0;
       if span = 0 then Some (0, h) else None }
     else do {
       (span, grown_by, h) \<leftarrow> NewLocked env h alloc 0;
       (span, h) \<leftarrow>
         (if span = 0 then Some (0, h)
          else do {
            s \<leftarrow> hp_spans h span;
            skip \<leftarrow> aligned_skip (start s) (page_bytes align_pages) 0;
            (span, h) \<leftarrow> (if skip > 0 then do {
                rest_span \<leftarrow> Split env h span skip;
                h \<leftarrow> DeleteLocked env (snd rest_span) span;
                Some (fst rest_span, h) }
              else Some (span, h));
            s \<leftarrow> hp_spans h span;
            h \<leftarrow> (if len s > n then do {
                (trailer, h) \<leftarrow> Split env h span n;
                DeleteLocked env h trailer }
              else Some h);
            s \<leftarrow> hp_spans h span;
            Some (span, InvalidateCachedSizeClass h (start s)) });
       h \<leftarrow> HandleUnlock env h grown_by;
       Some (span, h) } }"

definition PageHeap_New :: "'o env \<Rightarrow> 'o heap \<Rightarrow> nat \<Rightarrow> (nat \<times> 'o heap) option" where
  "PageHeap_New env h n = NewWithSizeClass env h n 0"

definition PageHeap_Delete :: "'o env \<Rightarrow> 'o heap \<Rightarrow> nat \<Rightarrow> 'o heap option" where
  "PageHeap_Delete env h span = DeleteLocked env h span"

definition GetAggressiveDecommit :: "'o heap \<Rightarrow> bool" where
  "GetAggressiveDecommit h = aggressive_decommit h"

definition SetAggressiveDecommit :: "'o heap \<Rightarrow> bool \<Rightarrow> 'o heap" where
  "SetAggressiveDecommit h aggressive = h\<lparr>aggressive_decommit := aggressive\<rparr>"

section \<open>Statistics and checks\<close>

definition GetSmallSpanStatsLocked :: "'o heap \<Rightarrow> (nat \<times> nat) list" where
  "GetSmallSpanStatsLocked h = map (\<lambda>i. (length (free_normal h i), length (free_returned h i))) [0..<kMaxPages]"

definition GetLargeSpanStatsLocked :: "'o heap \<Rightarrow> nat \<times> nat \<times> nat" where
  "GetLargeSpanStatsLocked h =
     (length (large_normal h) + length (large_returned h),
      sum_list (map sp_length (large_normal h)), sum_list (map sp_length (large_returned h)))"

datatype range_type = INUSE | FREE | UNMAPPED

record malloc_range =
  r_address :: nat
  r_length :: nat
  r_type :: range_type
  r_fraction :: "nat \<times> nat"

text \<open>The fraction in use is kept as a numerator and a denominator.\<close>

definition GetNextRange :: "size_map \<Rightarrow> 'o heap \<Rightarrow> nat \<Rightarrow> malloc_range option option" where
  "GetNextRange sm h first =
     (let span = PageMap2_Next kPageMapBits (pagemap h) first
      in if span = 0 then Some None
         else do {
           s \<leftarrow> hp_spans h span;
           let r = \<lparr>r_address = page_bytes (start s), r_length = page_bytes (len s), r_type = INUSE, r_fraction = (0, 1)\<rparr>;
           Some (Some (case location s of
               IN_USE \<Rightarrow> r\<lparr>r_fraction := (if sizeclass s > 0
                            then (ByteSizeForClass sm (sizeclass s) * refcount s, r_length r) else (1, 1))\<rparr>
             | ON_NORMAL_FREELIST \<Rightarrow> r\<lparr>r_type := FREE\<rparr>
             | ON_RETURNED_FREELIST \<Rightarrow> r\<lparr>r_type := UNMAPPED\<rparr>)) })"

definition CheckList :: "'o heap \<Rightarrow> nat list \<Rightarrow> nat \<Rightarrow> nat \<Rightarrow> location \<Rightarrow> bool" where
  "CheckList h xs min_pages max_pages freelist = list_all (\<lambda>p. case hp_spans h p of None \<Rightarrow> False | Some s \<Rightarrow>
     location s = freelist \<and> len s \<ge> min_pages \<and> len s \<le> max_pages \<and>
     GetDescriptor h (start s) = p \<and> GetDescriptor h (start s + len s - 1) = p) xs"

definition CheckSet :: "'o heap \<Rightarrow> span_ptr list \<Rightarrow> nat \<Rightarrow> location \<Rightarrow> bool" where
  "CheckSet h es min_pages freelist = list_all (\<lambda>e. case hp_spans h (sp_span e) of None \<Rightarrow> False | Some s \<Rightarrow>
     len s = sp_length e \<and> location s = freelist \<and> len s \<ge> min_pages \<and>
     GetDescriptor h (start s) = sp_span e \<and> GetDescriptor h (start s + len s - 1) = sp_span e) es"

definition CheckExpensive :: "'o heap \<Rightarrow> bool" where
  "CheckExpensive h \<longleftrightarrow>
     CheckSet h (large_normal h) (kMaxPages + 1) ON_NORMAL_FREELIST \<and>
     CheckSet h (large_returned h) (kMaxPages + 1) ON_RETURNED_FREELIST \<and>
     list_all (\<lambda>s. CheckList h (free_normal h (s - 1)) s s ON_NORMAL_FREELIST \<and>
                   CheckList h (free_returned h (s - 1)) s s ON_RETURNED_FREELIST) [1..<kMaxPages + 1]"

end
