(* ===== verification/HeapInv.thy ===== *)
theory HeapInv
  imports PageHeap
begin

text \<open>
  The invariant of the page heap: the spans are disjoint runs of pages that the process owns, the page map knows the
  boundary pages of every span (all pages of a span with a size class) and nothing else, the lists hold exactly the
  free spans of their length and location, and the byte counts are exact.
\<close>

section \<open>Spans and pages\<close>

definition span_pages :: "span \<Rightarrow> nat set" where
  "span_pages s = {start s..<start s + len s}"

definition span_mem :: "span \<Rightarrow> nat set" where
  "span_mem s = {start s * 8192..<(start s + len s) * 8192}"

definition spans_ok :: "spans \<Rightarrow> bool" where
  "spans_ok S \<longleftrightarrow> finite (dom S) \<and>
     (\<forall>p s. S p = Some s \<longrightarrow> p \<noteq> 0 \<and> 1 \<le> start s \<and> 1 \<le> len s \<and> start s + len s < 2 ^ 35) \<and>
     (\<forall>p q s t. S p = Some s \<longrightarrow> S q = Some t \<longrightarrow> p \<noteq> q \<longrightarrow> span_pages s \<inter> span_pages t = {})"

definition pmap_ok :: "spans \<Rightarrow> pagemap2 \<Rightarrow> bool" where
  "pmap_ok S pm \<longleftrightarrow>
     (\<forall>p s. S p = Some s \<longrightarrow>
        (\<forall>k. start s \<le> k + 1 \<longrightarrow> k \<le> start s + len s \<longrightarrow> ens2 35 pm k) \<and>
        PageMap2_get 35 pm (start s) = p \<and> PageMap2_get 35 pm (start s + len s - 1) = p \<and>
        (sizeclass s \<noteq> 0 \<longrightarrow> location s = IN_USE \<and> (\<forall>k \<in> span_pages s. PageMap2_get 35 pm k = p))) \<and>
     (\<forall>k. PageMap2_get 35 pm k \<noteq> 0 \<longrightarrow> (\<exists>p s. S p = Some s \<and> k \<in> span_pages s))"

text \<open>The spans at a location, without the detached ones \<open>D\<close>.\<close>

definition at_loc :: "spans \<Rightarrow> nat set \<Rightarrow> location \<Rightarrow> spans" where
  "at_loc S D loc = (\<lambda>p. case S p of None \<Rightarrow> None | Some s \<Rightarrow> if p \<notin> D \<and> location s = loc then Some s else None)"

definition tot :: "spans \<Rightarrow> nat" where
  "tot X = (\<Sum>p \<in> dom X. len (the (X p)))"

definition the_ptr :: "nat \<Rightarrow> span \<Rightarrow> span_ptr" where
  "the_ptr p s = \<lparr>sp_length = len s, sp_start = start s, sp_span = p\<rparr>"

definition large_of :: "spans \<Rightarrow> span_ptr set" where
  "large_of X = {e. \<exists>s. X (sp_span e) = Some s \<and> kMaxPages < len s \<and> e = the_ptr (sp_span e) s}"

definition small_of :: "spans \<Rightarrow> nat \<Rightarrow> nat set" where
  "small_of X i = {p. \<exists>s. X p = Some s \<and> len s = i + 1}"

text \<open>The free spans \<open>X\<close> of a location, with their lists, their set and their byte count.\<close>

definition pool :: "spans \<Rightarrow> (nat \<Rightarrow> nat list) \<Rightarrow> span_ptr list \<Rightarrow> nat \<Rightarrow> bool" where
  "pool X fl lg bytes \<longleftrightarrow>
     (\<forall>i < kMaxPages. distinct (fl i) \<and> set (fl i) = small_of X i) \<and>
     sorted_wrt SpanBestFitLess lg \<and> set lg = large_of X \<and>
     bytes = 8192 * tot X"

lemma spans_okD:
  assumes "spans_ok S"
  shows "finite (dom S)" "S p = Some s \<Longrightarrow> p \<noteq> 0" "S p = Some s \<Longrightarrow> 1 \<le> start s" "S p = Some s \<Longrightarrow> 1 \<le> len s"
    "S p = Some s \<Longrightarrow> start s + len s < 2 ^ 35"
    "S p = Some s \<Longrightarrow> S q = Some t \<Longrightarrow> p \<noteq> q \<Longrightarrow> span_pages s \<inter> span_pages t = {}"
proof -
  show "S p = Some s \<Longrightarrow> S q = Some t \<Longrightarrow> p \<noteq> q \<Longrightarrow> span_pages s \<inter> span_pages t = {}"
    using assms unfolding spans_ok_def by blast
qed (use assms in \<open>simp_all add: spans_ok_def\<close>)

lemma at_loc_Some [simp]: "at_loc S D loc p = Some s \<longleftrightarrow> S p = Some s \<and> p \<notin> D \<and> location s = loc"
  by (auto simp: at_loc_def split: option.splits)

lemma at_loc_None: "at_loc S D loc p = None \<longleftrightarrow> (\<forall>s. S p = Some s \<longrightarrow> p \<in> D \<or> location s \<noteq> loc)"
  by (auto simp: at_loc_def split: option.splits)

lemma dom_at_loc: "dom (at_loc S D loc) \<subseteq> dom S"
  by (auto simp: at_loc_def split: option.splits)

lemma at_loc_upd_in: "p \<in> D \<Longrightarrow> at_loc (S(p := x)) D loc = at_loc S D loc"
  by (auto simp: at_loc_def fun_eq_iff split: option.splits)

lemma at_loc_upd:
  "at_loc (S(p := x)) D loc =
     (at_loc S D loc)(p := (case x of None \<Rightarrow> None | Some s \<Rightarrow> if p \<notin> D \<and> location s = loc then Some s else None))"
  by (auto simp: at_loc_def fun_eq_iff)

lemma at_loc_insert: "at_loc S (insert p D) loc = (at_loc S D loc)(p := None)"
  by (auto simp: at_loc_def fun_eq_iff split: option.splits)

lemma tot_None: "finite (dom X) \<Longrightarrow> X p = Some s \<Longrightarrow> tot (X(p := None)) + len s = tot X"
  by (simp add: tot_def sum.remove [of "dom X" p] domI)

lemma tot_upd_None: "finite (dom X) \<Longrightarrow> X p = Some s \<Longrightarrow> tot (X(p := None)) = tot X - len s"
  using tot_None [of X p s] by linarith

lemma tot_new: "finite (dom X) \<Longrightarrow> X p = None \<Longrightarrow> tot (X(p \<mapsto> s)) = tot X + len s"
proof -
  assume a: "finite (dom X)" "X p = None"
  then have "p \<notin> dom X" by auto
  moreover have "(\<Sum>q \<in> dom X. len (the ((X(p \<mapsto> s)) q))) = (\<Sum>q \<in> dom X. len (the (X q)))"
    using \<open>p \<notin> dom X\<close> by (intro sum.cong) auto
  ultimately show ?thesis using a by (simp add: tot_def)
qed

lemma tot_le: "finite (dom X) \<Longrightarrow> X p = Some s \<Longrightarrow> len s \<le> tot X"
  using tot_None [of X p s] by linarith

lemma tot_sub: "finite (dom Y) \<Longrightarrow> X \<subseteq>\<^sub>m Y \<Longrightarrow> tot X \<le> tot Y"
proof -
  assume f: "finite (dom Y)" and s: "X \<subseteq>\<^sub>m Y"
  have d: "dom X \<subseteq> dom Y" using s by (rule map_le_implies_dom_le)
  have "tot X = (\<Sum>p \<in> dom X. len (the (Y p)))" unfolding tot_def using s by (intro sum.cong) (auto simp: map_le_def)
  also have "\<dots> \<le> tot Y" unfolding tot_def using f d by (intro sum_mono2) auto
  finally show ?thesis .
qed

lemma at_loc_le: "at_loc S D loc \<subseteq>\<^sub>m S"
  by (auto simp: at_loc_def map_le_def split: option.splits if_splits)

lemma tot_le_at_loc: "finite (dom S) \<Longrightarrow> tot (at_loc S D loc) \<le> tot S"
  by (rule tot_sub [OF _ at_loc_le])

section \<open>Pools\<close>

lemma less_trans_ptr: "SpanBestFitLess a b \<Longrightarrow> SpanBestFitLess b c \<Longrightarrow> SpanBestFitLess a c"
  by (auto simp: SpanBestFitLess_def split: if_splits)

lemma less_total_ptr: "sp_start a \<noteq> sp_start b \<Longrightarrow> \<not> SpanBestFitLess a b \<Longrightarrow> SpanBestFitLess b a"
  by (auto simp: SpanBestFitLess_def split: if_splits)

lemma SpanSet_insert_set: "\<forall>y \<in> set es. sp_start y \<noteq> sp_start x \<Longrightarrow> set (SpanSet_insert x es) = insert x (set es)"
  by (induction es) (auto dest: less_total_ptr)

lemma SpanSet_insert_sorted:
  "\<forall>y \<in> set es. sp_start y \<noteq> sp_start x \<Longrightarrow> sorted_wrt SpanBestFitLess es \<Longrightarrow> sorted_wrt SpanBestFitLess (SpanSet_insert x es)"
proof (induction es)
  case (Cons y ys)
  have "set (SpanSet_insert x ys) = insert x (set ys)" using Cons.prems by (intro SpanSet_insert_set) auto
  then show ?case using Cons by (auto intro: less_trans_ptr)
qed simp

lemma SpanSet_erase_sorted: "sorted_wrt SpanBestFitLess es \<Longrightarrow> sorted_wrt SpanBestFitLess (SpanSet_erase p es)"
  by (simp add: SpanSet_erase_def sorted_wrt_filter)

lemma the_ptr_span [simp]: "sp_span (the_ptr p s) = p" "sp_start (the_ptr p s) = start s" "sp_length (the_ptr p s) = len s"
  by (simp_all add: the_ptr_def)

lemma small_of_upd:
  "small_of (X(p := None)) i = small_of X i - {p}"
  "X p = None \<Longrightarrow> small_of (X(p \<mapsto> s)) i = (if len s = i + 1 then insert p (small_of X i) else small_of X i)"
  by (auto simp: small_of_def split: if_splits)

lemma large_of_upd:
  "large_of (X(p := None)) = {e \<in> large_of X. sp_span e \<noteq> p}"
  "X p = None \<Longrightarrow> large_of (X(p \<mapsto> s)) = (if len s > kMaxPages then insert (the_ptr p s) (large_of X) else large_of X)"
  by (auto simp: large_of_def split: if_splits)

lemma small_of_member: "X p = Some s \<Longrightarrow> 0 < len s \<Longrightarrow> p \<in> small_of X (len s - 1)"
  by (auto simp: small_of_def)

lemma pool_prepend_small:
  assumes "pool X fl lg b" "X p = None" "finite (dom X)" "0 < len s" "len s \<le> kMaxPages"
  shows "pool (X(p \<mapsto> s)) (fl(len s - 1 := p # fl (len s - 1))) lg (b + 8192 * len s)"
proof -
  have "p \<notin> small_of X i" for i using assms(2) by (simp add: small_of_def)
  with assms(1,2,4,5) tot_new [OF assms(3,2)] show ?thesis by (simp add: pool_def small_of_upd large_of_upd)
qed

lemma pool_prepend_large:
  assumes "pool X fl lg b" "X p = None" "finite (dom X)" "len s > kMaxPages" "\<And>q t. X q = Some t \<Longrightarrow> start t \<noteq> start s"
  shows "pool (X(p \<mapsto> s)) fl (SpanSet_insert (the_ptr p s) lg) (b + 8192 * len s)"
proof -
  have lg: "sorted_wrt SpanBestFitLess lg" "set lg = large_of X" using assms(1) by (simp_all add: pool_def)
  have ne: "\<forall>y \<in> set lg. sp_start y \<noteq> sp_start (the_ptr p s)"
    unfolding lg(2) large_of_def using assms(5) by (auto simp del: the_ptr_span) (metis the_ptr_span(2))
  show ?thesis using assms(1,2,4) SpanSet_insert_set [OF ne] SpanSet_insert_sorted [OF ne lg(1)] tot_new [OF assms(3,2)]
    by (simp add: pool_def small_of_upd large_of_upd)
qed

lemma pool_remove_small:
  assumes "pool X fl lg b" "X p = Some s" "finite (dom X)" "0 < len s" "len s \<le> kMaxPages"
  shows "p \<in> set (fl (len s - 1))"
    "pool (X(p := None)) (fl(len s - 1 := remove1 p (fl (len s - 1)))) lg (b - 8192 * len s)"
proof -
  have "p \<in> small_of X (len s - 1)" "p \<notin> small_of X i" if "i \<noteq> len s - 1" for i
    using assms(2,4) that by (auto simp: small_of_def)
  moreover have "{e \<in> large_of X. sp_span e \<noteq> p} = large_of X" using assms(2,5) by (auto simp: large_of_def)
  ultimately show "p \<in> set (fl (len s - 1))" "pool (X(p := None)) (fl(len s - 1 := remove1 p (fl (len s - 1)))) lg (b - 8192 * len s)"
    using assms(1,4,5) tot_None [OF assms(3,2)] small_of_member [of X p s] assms(2)
    by (auto simp: pool_def small_of_upd large_of_upd)
qed

lemma pool_remove_large:
  assumes "pool X fl lg b" "X p = Some s" "finite (dom X)" "len s > kMaxPages"
  shows "pool (X(p := None)) fl (SpanSet_erase p lg) (b - 8192 * len s)"
proof -
  have "p \<notin> small_of X i" if "i < kMaxPages" for i using assms(2,4) that by (auto simp: small_of_def)
  then show ?thesis using assms(1) SpanSet_erase_sorted [of lg p] tot_None [OF assms(3,2)]
    by (auto simp: pool_def small_of_upd large_of_upd SpanSet_erase_def)
qed

section \<open>The invariant\<close>

text \<open>
  \<open>R\<close> are the bytes that the page heap got from the system: the bytes of the spans are among them, the metadata are
  not, and \<^verbatim>\<open>system_bytes\<close> counts them.
\<close>

definition mem_ok :: "('o \<Rightarrow> nat set) \<Rightarrow> 'o heap \<Rightarrow> bool" where
  "mem_ok owned h \<longleftrightarrow> (\<exists>R. alloc_inv owned sizeof_Span R (span_allocator h) (hp_meta h) (dom (hp_spans h)) \<and>
     finite R \<and> card R = system_bytes (stats h) \<and> (\<forall>p s. hp_spans h p = Some s \<longrightarrow> span_mem s \<subseteq> R))"

text \<open>
  The invariant, with a set \<open>D\<close> of free spans that are on no list at the moment.  Free and returned bytes are counted
  exactly, and committed and returned bytes add up to the bytes from the system, up to \<open>x\<close> bytes that have just been
  decommitted and not yet been moved.
\<close>

definition hinvx :: "('o \<Rightarrow> nat set) \<Rightarrow> nat set \<Rightarrow> nat \<Rightarrow> 'o heap \<Rightarrow> bool" where
  "hinvx owned D x h \<longleftrightarrow>
     spans_ok (hp_spans h) \<and> pmap_ok (hp_spans h) (pagemap h) \<and>
     pool (at_loc (hp_spans h) D ON_NORMAL_FREELIST) (free_normal h) (large_normal h) (free_bytes (stats h)) \<and>
     pool (at_loc (hp_spans h) D ON_RETURNED_FREELIST) (free_returned h) (large_returned h) (unmapped_bytes (stats h)) \<and>
     mem_ok owned h \<and>
     committed_bytes (stats h) + 8192 * tot (at_loc (hp_spans h) {} ON_RETURNED_FREELIST) + x = system_bytes (stats h)"

abbreviation hinv :: "('o \<Rightarrow> nat set) \<Rightarrow> nat set \<Rightarrow> 'o heap \<Rightarrow> bool" where
  "hinv owned D h \<equiv> hinvx owned D 0 h"

text \<open>The process owns less than \<open>2 ^ 44\<close> bytes, so that span lengths fit into an \<^verbatim>\<open>int\<close>.\<close>

definition os_small :: "('o \<Rightarrow> nat set) \<Rightarrow> bool" where
  "os_small owned \<longleftrightarrow> (\<forall>os. finite (owned os) \<and> card (owned os) < 2 ^ 44)"

lemma bump_owned_small: "os_small bump_owned"
proof -
  have "bump_owned s \<subseteq> {..<2 ^ 43}" for s by (auto simp: bump_owned_def)
  then have "finite (bump_owned s)" "card (bump_owned s) \<le> card {..<(2::nat) ^ 43}" for s
    by (rule finite_subset, simp) (rule card_mono [OF _ \<open>\<And>s. bump_owned s \<subseteq> {..<2 ^ 43}\<close>], simp)
  moreover have "card {..<(2::nat) ^ 43} < 2 ^ 44" by simp
  ultimately show ?thesis unfolding os_small_def using le_less_trans by blast
qed

lemma span_mem_disjoint: "span_pages s \<inter> span_pages t = {} \<Longrightarrow> span_mem s \<inter> span_mem t = {}"
proof (rule ccontr)
  assume d: "span_pages s \<inter> span_pages t = {}" and "span_mem s \<inter> span_mem t \<noteq> {}"
  then obtain b where b: "b \<in> span_mem s" "b \<in> span_mem t" by blast
  have "b div 8192 \<in> span_pages u" if "b \<in> span_mem u" for u
    using that unfolding span_mem_def span_pages_def
    by (auto simp: less_eq_div_iff_mult_less_eq intro: less_mult_imp_div_less)
  with b d show False by blast
qed

lemma card_span_mem [simp]: "card (span_mem s) = 8192 * len s"
  by (simp add: span_mem_def)

lemma tot_le_card:
  assumes "spans_ok S" "finite R" "\<And>p s. S p = Some s \<Longrightarrow> span_mem s \<subseteq> R"
  shows "8192 * tot S \<le> card R"
proof -
  have f: "finite (dom S)" using assms(1) by (simp add: spans_ok_def)
  have disj: "span_mem (the (S p)) \<inter> span_mem (the (S q)) = {}" if "p \<in> dom S" "q \<in> dom S" "p \<noteq> q" for p q
    using that spans_okD(6) [OF assms(1), of p "the (S p)" q "the (S q)"] by (intro span_mem_disjoint) auto
  have "8192 * tot S = (\<Sum>p \<in> dom S. card (span_mem (the (S p))))" by (simp add: tot_def sum_distrib_left)
  also have "\<dots> = card (\<Union>p \<in> dom S. span_mem (the (S p)))"
    using f disj by (intro card_UN_disjoint [symmetric]) (auto simp: span_mem_def)
  also have "(\<Union>p \<in> dom S. span_mem (the (S p))) \<subseteq> R" using assms(3) by fastforce
  then have "card (\<Union>p \<in> dom S. span_mem (the (S p))) \<le> card R" using assms(2) by (intro card_mono)
  finally show ?thesis .
qed

lemma hinv_bounds:
  assumes "hinvx owned D x h" "os_small owned"
  shows "system_bytes (stats h) < 2 ^ 44" "8192 * tot (hp_spans h) \<le> system_bytes (stats h)"
    "free_bytes (stats h) + unmapped_bytes (stats h) \<le> system_bytes (stats h)"
    "committed_bytes (stats h) \<le> system_bytes (stats h)"
    "hp_spans h p = Some s \<Longrightarrow> len s < 2 ^ 31" "hp_spans h p = Some s \<Longrightarrow> 8192 * len s \<le> system_bytes (stats h)"
proof -
  obtain R where R: "alloc_inv owned sizeof_Span R (span_allocator h) (hp_meta h) (dom (hp_spans h))"
     "finite R" "card R = system_bytes (stats h)" "\<And>p s. hp_spans h p = Some s \<Longrightarrow> span_mem s \<subseteq> R"
    using assms(1) by (auto simp: hinvx_def mem_ok_def)
  have ok: "spans_ok (hp_spans h)" and fin: "finite (dom (hp_spans h))" using assms(1) by (auto simp: hinvx_def spans_ok_def)
  have "R \<subseteq> owned (sys_os (meta_sys (hp_meta h)))" by (rule alloc_inv_owned [OF R(1)])
  then have "card R < 2 ^ 44" using assms(2) unfolding os_small_def by (meson card_mono le_less_trans)
  with R(3) show s44: "system_bytes (stats h) < 2 ^ 44" by simp
  show t: "8192 * tot (hp_spans h) \<le> system_bytes (stats h)" using tot_le_card [OF ok R(2,4)] R(3) by simp
  let ?N = "at_loc (hp_spans h) D ON_NORMAL_FREELIST" and ?R = "at_loc (hp_spans h) D ON_RETURNED_FREELIST"
  have fN: "finite (dom ?N)" and fR: "finite (dom ?R)" using fin dom_at_loc finite_subset by metis+
  have "tot ?N + tot ?R \<le> tot (hp_spans h)"
  proof -
    have disj: "dom ?N \<inter> dom ?R = {}" by auto
    have sub: "dom ?N \<union> dom ?R \<subseteq> dom (hp_spans h)" by auto
    have e: "(\<Sum>p \<in> dom ?N \<union> dom ?R. len (the (hp_spans h p))) = tot ?N + tot ?R"
      unfolding sum.union_disjoint [OF fN fR disj] tot_def by (intro arg_cong2 [where f = plus] sum.cong) (auto simp: at_loc_def split: option.splits if_splits)
    show ?thesis using sum_mono2 [OF fin sub, of "\<lambda>p. len (the (hp_spans h p))"] unfolding e by (simp add: tot_def)
  qed
  moreover have "free_bytes (stats h) = 8192 * tot ?N" "unmapped_bytes (stats h) = 8192 * tot ?R"
    using assms(1) by (simp_all add: hinvx_def pool_def)
  ultimately show "free_bytes (stats h) + unmapped_bytes (stats h) \<le> system_bytes (stats h)" using t by linarith
  show "committed_bytes (stats h) \<le> system_bytes (stats h)" using assms(1) by (simp add: hinvx_def)
  show l: "8192 * len s \<le> system_bytes (stats h)" if "hp_spans h p = Some s" using tot_le [OF fin that] t by linarith
  show "len s < 2 ^ 31" if "hp_spans h p = Some s" using l [OF that] s44 by simp
qed

end
