(* ===== verification/HeapMerge.thy ===== *)
theory HeapMerge
  imports HeapInv
begin

text \<open>
  The operations of the page heap on free lists, on the memory of a span, and the coalescing of neighbours: each one
  keeps the invariant \<open>hinvx\<close>, with the span it works on detached from the lists where the code has it so.
\<close>

section \<open>Frames\<close>

text \<open>What the functions on the free path leave alone; the span allocator does not lose room.\<close>

definition keeps :: "'o heap \<Rightarrow> 'o heap \<Rightarrow> bool" where
  "keeps h h' \<longleftrightarrow> smallest_span_size h' = smallest_span_size h \<and> pagemap_cache h' = pagemap_cache h \<and>
     aggressive_decommit h' = aggressive_decommit h \<and> stacktrace_allocator h' = stacktrace_allocator h \<and>
     growth_stacks h' = growth_stacks h \<and>
     SystemTaken (meta_sys (hp_meta h')) = SystemTaken (meta_sys (hp_meta h)) \<and>
     system_bytes (stats h') = system_bytes (stats h) \<and>
     (\<forall>k. pha_room sizeof_Span (span_allocator h) k \<longrightarrow> pha_room sizeof_Span (span_allocator h') k)"

lemma keeps_refl [simp]: "keeps h h"
  by (simp add: keeps_def)

lemma keeps_trans [trans]: "keeps h h' \<Longrightarrow> keeps h' h'' \<Longrightarrow> keeps h h''"
  by (simp add: keeps_def)

lemma page_bytes_small: "n < 2 ^ 51 \<Longrightarrow> page_bytes n = 8192 * n"
  by (simp add: page_bytes_def tc_consts push_bit_eq_mult)

lemma hinv_page_bytes:
  assumes "hinvx owned D x h" "os_small owned" "hp_spans h p = Some s"
  shows "page_bytes (len s) = 8192 * len s"
  using hinv_bounds(5) [OF assms] by (intro page_bytes_small) simp

lemma hinvxD:
  assumes "hinvx owned D x h"
  shows "spans_ok (hp_spans h)" "pmap_ok (hp_spans h) (pagemap h)"
    "pool (at_loc (hp_spans h) D ON_NORMAL_FREELIST) (free_normal h) (large_normal h) (free_bytes (stats h))"
    "pool (at_loc (hp_spans h) D ON_RETURNED_FREELIST) (free_returned h) (large_returned h) (unmapped_bytes (stats h))"
    "mem_ok owned h"
    "committed_bytes (stats h) + 8192 * tot (at_loc (hp_spans h) {} ON_RETURNED_FREELIST) + x = system_bytes (stats h)"
    "finite (dom (at_loc (hp_spans h) D loc))"
proof -
  have "finite (dom (hp_spans h))" using assms by (simp add: hinvx_def spans_ok_def)
  then show "finite (dom (at_loc (hp_spans h) D loc))" using dom_at_loc finite_subset by metis
qed (use assms in \<open>simp_all add: hinvx_def\<close>)

lemma mem_ok_cong:
  assumes "mem_ok owned h" "hp_spans h' = hp_spans h" "hp_meta h' = hp_meta h" "span_allocator h' = span_allocator h"
    "system_bytes (stats h') = system_bytes (stats h)"
  shows "mem_ok owned h'"
  using assms by (simp add: mem_ok_def)

section \<open>Lists\<close>

text \<open>Only the lists and the counts of free and returned bytes differ.\<close>

definition same_but_lists :: "'o heap \<Rightarrow> 'o heap \<Rightarrow> bool" where
  "same_but_lists h h' \<longleftrightarrow> keeps h h' \<and> hp_meta h' = hp_meta h \<and> span_allocator h' = span_allocator h \<and>
     hp_spans h' = hp_spans h \<and> pagemap h' = pagemap h \<and> committed_bytes (stats h') = committed_bytes (stats h)"

lemma loc_cases [consumes 1, case_names N R]:
  "loc \<noteq> IN_USE \<Longrightarrow> (loc = ON_NORMAL_FREELIST \<Longrightarrow> P) \<Longrightarrow> (loc = ON_RETURNED_FREELIST \<Longrightarrow> P) \<Longrightarrow> P"
  by (cases loc) auto

lemma at_loc_insert_other: "S p = Some s \<Longrightarrow> location s \<noteq> loc \<Longrightarrow> at_loc S (insert p D) loc = at_loc S D loc"
  by (auto simp: at_loc_def fun_eq_iff split: option.splits)

lemma at_loc_insert_back: "S p = Some s \<Longrightarrow> location s = loc \<Longrightarrow> p \<notin> D \<Longrightarrow> (at_loc S (insert p D) loc)(p \<mapsto> s) = at_loc S D loc"
  by (auto simp: at_loc_def fun_eq_iff split: option.splits)

lemma RemoveFromFreeList_spec:
  assumes inv: "hinvx owned D x h" and small: "os_small owned" and p: "hp_spans h p = Some s" "p \<notin> D" "location s \<noteq> IN_USE"
  shows "wpo (RemoveFromFreeList h p) (\<lambda>h'. hinvx owned (insert p D) x h' \<and> same_but_lists h h' \<and>
    free_bytes (stats h') + (if location s = ON_NORMAL_FREELIST then 8192 * len s else 0) = free_bytes (stats h) \<and>
    unmapped_bytes (stats h') + (if location s = ON_NORMAL_FREELIST then 0 else 8192 * len s) = unmapped_bytes (stats h))"
proof -
  note b = hinv_bounds(1,3) [OF inv small] and pb = hinv_page_bytes [OF inv small p(1)] and I = hinvxD [OF inv]
  have l: "0 < len s" using spans_okD(4) [OF I(1) p(1)] by simp
  have other: "loc \<noteq> location s \<Longrightarrow> at_loc (hp_spans h) (insert p D) loc = at_loc (hp_spans h) D loc" for loc
    using at_loc_insert_other [of "hp_spans h", OF p(1)] by metis
  from p(3) show ?thesis
  proof (cases rule: loc_cases)
    case N
    have at: "at_loc (hp_spans h) D ON_NORMAL_FREELIST p = Some s" using p N by simp
    have le: "8192 * len s \<le> free_bytes (stats h)" using tot_le [OF I(7) at] I(3) by (simp add: pool_def)
    have o: "at_loc (hp_spans h) (insert p D) ON_RETURNED_FREELIST = at_loc (hp_spans h) D ON_RETURNED_FREELIST"
      using other N by simp
    note r = pool_remove_small [OF I(3) at I(7) l] pool_remove_large [OF I(3) at I(7)]
    show ?thesis using p(1) N r le b I(1-6) pb
      by (auto simp: RemoveFromFreeList_def Let_def hinvx_def at_loc_insert [of _ p D ON_NORMAL_FREELIST] o mem_ok_def
          same_but_lists_def keeps_def not_less)
  next
    case R
    have at: "at_loc (hp_spans h) D ON_RETURNED_FREELIST p = Some s" using p R by simp
    have le: "8192 * len s \<le> unmapped_bytes (stats h)" using tot_le [OF I(7) at] I(4) by (simp add: pool_def)
    have o: "at_loc (hp_spans h) (insert p D) ON_NORMAL_FREELIST = at_loc (hp_spans h) D ON_NORMAL_FREELIST"
      using other R by simp
    have nin: "p \<notin> set (free_normal h (len s - 1))" if "len s \<le> kMaxPages"
      using I(3) that l R p(1) by (auto simp: pool_def small_of_def)
    note r = pool_remove_small [OF I(4) at I(7) l] pool_remove_large [OF I(4) at I(7)]
    show ?thesis using p(1) R r le b I(1-6) pb nin
      by (auto simp: RemoveFromFreeList_def Let_def hinvx_def at_loc_insert [of _ p D ON_RETURNED_FREELIST] o mem_ok_def
          same_but_lists_def keeps_def not_less)
  qed
qed

lemma start_distinct:
  assumes "spans_ok S" "S p = Some s" "S q = Some t" "p \<noteq> q"
  shows "start t \<noteq> start s"
  using spans_okD(6) [OF assms(1-4)] spans_okD(4) [OF assms(1,2)] spans_okD(4) [OF assms(1,3)]
  by (auto simp: span_pages_def)

lemma PrependToFreeList_spec:
  assumes inv: "hinvx owned (insert p D) x h" and small: "os_small owned" and p: "hp_spans h p = Some s" "p \<notin> D" "location s \<noteq> IN_USE"
  shows "wpo (PrependToFreeList h p) (\<lambda>h'. hinvx owned D x h' \<and> same_but_lists h h' \<and>
    free_bytes (stats h') = free_bytes (stats h) + (if location s = ON_NORMAL_FREELIST then 8192 * len s else 0) \<and>
    unmapped_bytes (stats h') = unmapped_bytes (stats h) + (if location s = ON_NORMAL_FREELIST then 0 else 8192 * len s))"
proof -
  note b = hinv_bounds [OF inv small] and pb = hinv_page_bytes [OF inv small p(1)] and I = hinvxD [OF inv]
  have l: "0 < len s" using spans_okD(4) [OF I(1) p(1)] by simp
  have st: "at_loc (hp_spans h) (insert p D) loc q = Some t \<Longrightarrow> start t \<noteq> start s" for loc q t
    using start_distinct [OF I(1) p(1)] by auto
  have le: "free_bytes (stats h) + 8192 * len s < 2 ^ 64" "unmapped_bytes (stats h) + 8192 * len s < 2 ^ 64"
    using b(1,3) b(6) [OF p(1)] by simp_all
  have ptr: "SpanPtrWithLength (hp_spans h) p = Some (the_ptr p s)" using p(1) by (simp add: SpanPtrWithLength_def the_ptr_def)
  have none: "at_loc (hp_spans h) (insert p D) loc p = None" for loc by (simp add: at_loc_None)
  from p(3) show ?thesis
  proof (cases rule: loc_cases)
    case N
    note oth = at_loc_insert_other [where S = "hp_spans h" and loc = ON_RETURNED_FREELIST and D = D, OF p(1)]
      and bck = at_loc_insert_back [where S = "hp_spans h", OF p(1) N p(2)]
    have "pool (at_loc (hp_spans h) D ON_NORMAL_FREELIST) (free_normal h) (SpanSet_insert (the_ptr p s) (large_normal h)) (free_bytes (stats h) + 8192 * len s)"
      if "kMaxPages < len s" using pool_prepend_large [OF I(3) none I(7) that st] unfolding bck .
    note r = pool_prepend_small [OF I(3) none I(7) l, unfolded bck] this
    show ?thesis using p(1) N r le I(1,2,4-6) pb l oth
      by (auto simp: PrependToFreeList_def Let_def hinvx_def mem_ok_def ptr same_but_lists_def keeps_def not_less)
  next
    case R
    note oth = at_loc_insert_other [where S = "hp_spans h" and loc = ON_NORMAL_FREELIST and D = D, OF p(1)]
      and bck = at_loc_insert_back [where S = "hp_spans h", OF p(1) R p(2)]
    have "pool (at_loc (hp_spans h) D ON_RETURNED_FREELIST) (free_returned h) (SpanSet_insert (the_ptr p s) (large_returned h)) (unmapped_bytes (stats h) + 8192 * len s)"
      if "kMaxPages < len s" using pool_prepend_large [OF I(4) none I(7) that st] unfolding bck .
    note r = pool_prepend_small [OF I(4) none I(7) l, unfolded bck] this
    show ?thesis using p(1) R r le I(1,2,3,5,6) pb l oth
      by (auto simp: PrependToFreeList_def Let_def hinvx_def mem_ok_def ptr same_but_lists_def keeps_def not_less)
  qed
qed

section \<open>Decommit\<close>

text \<open>Releasing memory to the system never loops forever.\<close>

definition release_total :: "'o env \<Rightarrow> bool" where
  "release_total env \<longleftrightarrow> (\<forall>s p n. TCMalloc_SystemRelease env s p n \<noteq> None)"

lemma mem_ok_release:
  assumes "mem_ok owned h" "owned (sys_os sy) = owned (sys_os (meta_sys (hp_meta h)))"
    "hp_spans h' = hp_spans h" "hp_meta h' = (hp_meta h)\<lparr>meta_sys := sy\<rparr>" "span_allocator h' = span_allocator h"
    "system_bytes (stats h') = system_bytes (stats h)"
  shows "mem_ok owned h'"
  using assms alloc_inv_sys_mono [of owned sizeof_Span _ "span_allocator h" "hp_meta h" _ sy] unfolding mem_ok_def by auto

lemma DecommitSpan_spec:
  assumes sane: "os_sane env owned" and inv: "hinvx owned D 0 h" and small: "os_small owned"
    and p: "hp_spans h p = Some s" "location s \<noteq> ON_RETURNED_FREELIST" and f: "f \<or> release_total env"
  shows "wpf f (DecommitSpan env h p) (\<lambda>(rv, h').
    hinvx owned D (if rv then 8192 * len s else 0) h' \<and> keeps h h' \<and> hp_spans h' = hp_spans h \<and> pagemap h' = pagemap h \<and>
    free_bytes (stats h') = free_bytes (stats h) \<and> unmapped_bytes (stats h') = unmapped_bytes (stats h))"
proof -
  note b = hinv_bounds [OF inv small] and pb = hinv_page_bytes [OF inv small p(1)] and I = hinvxD [OF inv]
  let ?R = "at_loc (hp_spans h) {} ON_RETURNED_FREELIST"
  have fin: "finite (dom (hp_spans h))" by (rule spans_okD(1) [OF I(1)])
  have "?R \<subseteq>\<^sub>m (hp_spans h)(p := None)" using p by (auto simp: map_le_def at_loc_def split: option.splits if_splits)
  from tot_sub [OF _ this] fin have "tot ?R + len s \<le> tot (hp_spans h)" using tot_None [OF fin p(1)] by simp
  then have c: "8192 * len s \<le> committed_bytes (stats h)" using I(6) b(2) by simp
  obtain rs where rs: "rs = TCMalloc_SystemRelease env (meta_sys (hp_meta h)) (page_bytes (start s)) (8192 * len s)" by simp
  show ?thesis
  proof (cases rs)
    case None
    with f rs have f unfolding release_total_def by metis
    with None rs p(1) pb show ?thesis by (simp add: DecommitSpan_def Let_def)
  next
    case (Some a)
    obtain rv sy where a: "a = (rv, sy)" by fastforce
    have o: "owned (sys_os sy) = owned (sys_os (meta_sys (hp_meta h)))" "SystemTaken sy = SystemTaken (meta_sys (hp_meta h))"
      using SystemRelease_spec [OF sane] rs Some a by metis+
    have m: "mem_ok owned (h\<lparr>hp_meta := (hp_meta h)\<lparr>meta_sys := sy\<rparr>, stats := st\<rparr>)" if "system_bytes st = system_bytes (stats h)" for st
      by (rule mem_ok_release [OF I(5) o(1)]) (simp_all add: that)
    show ?thesis using Some a rs p(1) pb I m o c b(1,4)
      by (simp add: DecommitSpan_def Let_def hinvx_def keeps_def)
  qed
qed

section \<open>Joining neighbours\<close>

lemma pmap_okD:
  assumes "pmap_ok S pm"
  shows "S p = Some s \<Longrightarrow> start s \<le> k + 1 \<Longrightarrow> k \<le> start s + len s \<Longrightarrow> ens2 35 pm k"
    "S p = Some s \<Longrightarrow> PageMap2_get 35 pm (start s) = p" "S p = Some s \<Longrightarrow> PageMap2_get 35 pm (start s + len s - 1) = p"
    "S p = Some s \<Longrightarrow> sizeclass s \<noteq> 0 \<Longrightarrow> k \<in> span_pages s \<Longrightarrow> PageMap2_get 35 pm k = p"
    "PageMap2_get 35 pm k \<noteq> 0 \<Longrightarrow> \<exists>p s. S p = Some s \<and> k \<in> span_pages s"
    "S p = Some s \<Longrightarrow> location s \<noteq> IN_USE \<Longrightarrow> sizeclass s = 0"
  using assms unfolding pmap_ok_def by blast+

lemma neighbour_prev:
  assumes "spans_ok S" "pmap_ok S pm" "S p = Some s" "PageMap2_get 35 pm (start s - 1) = q" "q \<noteq> 0"
  shows "\<exists>t. S q = Some t \<and> q \<noteq> p \<and> start t + len t = start s"
proof -
  obtain r t where r: "S r = Some t" "start s - 1 \<in> span_pages t" using pmap_okD(5) [OF assms(2)] assms(4,5) by blast
  have s: "1 \<le> start s" "1 \<le> len s" using spans_okD [OF assms(1)] assms(3) by blast+
  have "r \<noteq> p" using r assms(3) s by (auto simp: span_pages_def)
  with spans_okD(6) [OF assms(1) r(1) assms(3)] have "start s \<notin> span_pages t" using s by (auto simp: span_pages_def)
  then have e: "start t + len t = start s" using r(2) s by (auto simp: span_pages_def)
  then have "PageMap2_get 35 pm (start s - 1) = r" using pmap_okD(3) [OF assms(2) r(1)] by simp
  with assms(4) r(1) \<open>r \<noteq> p\<close> e show ?thesis by auto
qed

lemma neighbour_next:
  assumes "spans_ok S" "pmap_ok S pm" "S p = Some s" "PageMap2_get 35 pm (start s + len s) = q" "q \<noteq> 0"
  shows "\<exists>t. S q = Some t \<and> q \<noteq> p \<and> start t = start s + len s"
proof -
  obtain r t where r: "S r = Some t" "start s + len s \<in> span_pages t" using pmap_okD(5) [OF assms(2)] assms(4,5) by blast
  have s: "1 \<le> start s" "1 \<le> len s" using spans_okD [OF assms(1)] assms(3) by blast+
  have "r \<noteq> p" using r assms(3) s by (auto simp: span_pages_def)
  with spans_okD(6) [OF assms(1) r(1) assms(3)] have d: "span_pages t \<inter> span_pages s = {}" .
  have "start s + len s - 1 \<in> span_pages s" using s by (auto simp: span_pages_def)
  with d have "start s + len s - 1 \<notin> span_pages t" by blast
  then have e: "start t = start s + len s" using r(2) s by (auto simp: span_pages_def)
  then have "PageMap2_get 35 pm (start s + len s) = r" using pmap_okD(2) [OF assms(2) r(1)] by simp
  with assms(4) r(1) \<open>r \<noteq> p\<close> e show ?thesis by auto
qed

text \<open>Two adjacent spans become one; \<open>m\<close> is the page whose entry is written.\<close>

definition joins :: "span \<Rightarrow> span \<Rightarrow> span \<Rightarrow> nat \<Rightarrow> bool" where
  "joins s t s' m \<longleftrightarrow> len s' = len s + len t \<and> location s' = location s \<and> sizeclass s' = sizeclass s \<and>
     (start s' = start t \<and> start t + len t = start s \<and> m = start t \<or>
      start s' = start s \<and> start s + len s = start t \<and> m = start s + len s + len t - 1)"

lemma joins_pages: "joins s t s' m \<Longrightarrow> span_pages s' = span_pages s \<union> span_pages t"
  by (auto simp: joins_def span_pages_def)

lemma joins_mem: "joins s t s' m \<Longrightarrow> span_mem s' \<subseteq> span_mem s \<union> span_mem t"
  by (auto simp: joins_def span_mem_def)

lemma join_spans_ok:
  assumes ok: "spans_ok S" and S: "S p = Some s" "S q = Some t" "p \<noteq> q" and j: "joins s t s' m"
  shows "spans_ok (S(q := None, p \<mapsto> s'))"
proof -
  note D = spans_okD [OF ok]
  have pg: "span_pages s' \<inter> span_pages u = {}" if "S r = Some u" "r \<noteq> p" "r \<noteq> q" for r u
    using D(6) [OF that(1) S(1) that(2)] D(6) [OF that(1) S(2) that(3)] joins_pages [OF j] by blast
  have b: "1 \<le> start s'" "1 \<le> len s'" "start s' + len s' < 2 ^ 35"
    using j D(3,4,5) [OF S(1)] D(3,4,5) [OF S(2)] by (auto simp: joins_def)
  show ?thesis unfolding spans_ok_def
  proof (intro conjI allI impI)
    show "finite (dom (S(q := None, p \<mapsto> s')))" using D(1) by simp
    have S': "r = p \<and> u = s' \<or> r \<noteq> p \<and> r \<noteq> q \<and> S r = Some u" if "(S(q := None, p \<mapsto> s')) r = Some u" for r u
      using that by (simp split: if_splits)
    fix r u assume r: "(S(q := None, p \<mapsto> s')) r = Some u"
    show "r \<noteq> 0" using S' [OF r] D(2) S(1) by blast
    show "1 \<le> start u" using S' [OF r] D(3) b(1) by blast
    show "1 \<le> len u" using S' [OF r] D(4) b(2) by blast
    show "start u + len u < 2 ^ 35" using S' [OF r] D(5) b(3) by blast
    fix r' u' assume r': "(S(q := None, p \<mapsto> s')) r' = Some u'" "r \<noteq> r'"
    consider "r = p" "r' \<noteq> p" "r' \<noteq> q" "S r' = Some u'" "u = s'" | "r' = p" "r \<noteq> p" "r \<noteq> q" "S r = Some u" "u' = s'"
      | "S r = Some u" "S r' = Some u'"
      using S' [OF r] S' [OF r'(1)] r'(2) by blast
    then show "span_pages u \<inter> span_pages u' = {}"
    proof cases
      case 1
      then show ?thesis using pg [of r' u'] by simp
    next
      case 2
      then show ?thesis using pg [of r u] by (simp add: Int_commute)
    next
      case 3
      then show ?thesis using D(6) r'(2) by blast
    qed
  qed
qed

lemma join_pmap_ok:
  assumes ok: "spans_ok S" and pm: "pmap_ok S pm" and S: "S p = Some s" "S q = Some t" "p \<noteq> q" and j: "joins s t s' m"
    and loc: "location s \<noteq> IN_USE"
    and get: "\<And>k. PageMap2_get 35 pm' k = (if k = m then p else PageMap2_get 35 pm k)" and ens: "\<And>k. ens2 35 pm' k = ens2 35 pm k"
  shows "pmap_ok (S(q := None, p \<mapsto> s')) pm'"
proof -
  note D = spans_okD [OF ok] and P = pmap_okD [OF pm]
  have ls: "1 \<le> len s" "1 \<le> len t" using D(4) S by blast+
  have m: "m \<in> span_pages t" using j ls by (auto simp: joins_def span_pages_def)
  have "start s' = start s \<or> start s' = m" "start s' + len s' - 1 = start s + len s - 1 \<or> start s' + len s' - 1 = m"
    using j by (auto simp: joins_def)
  then have ends: "PageMap2_get 35 pm' (start s') = p" "PageMap2_get 35 pm' (start s' + len s' - 1) = p"
    using P(2,3) [OF S(1)] by (auto simp: get)
  have e: "ens2 35 pm k" if "start s' \<le> k + 1" "k \<le> start s' + len s'" for k
    using that j P(1) [OF S(1), of k] P(1) [OF S(2), of k] by (cases "start s \<le> k + 1"; cases "k \<le> start s + len s"; auto simp: joins_def)
  have other: "m \<notin> span_pages u" if "S r = Some u" "r \<noteq> q" for r u using D(6) [OF that(1) S(2) that(2)] m by blast
  have inside: "start u \<in> span_pages u" "start u + len u - 1 \<in> span_pages u" if "S r = Some u" for r u
    using D(4) [OF that] by (auto simp: span_pages_def)
  have same: "PageMap2_get 35 pm' k = PageMap2_get 35 pm k" if "S r = Some u" "r \<noteq> q" "k \<in> span_pages u" for r u k
    using other [OF that(1,2)] that(3) get by metis
  show ?thesis unfolding pmap_ok_def
  proof (intro conjI allI impI ballI)
    fix r u assume r: "(S(q := None, p \<mapsto> s')) r = Some u"
    consider "r = p" "u = s'" | "r \<noteq> p" "r \<noteq> q" "S r = Some u" using r by (auto split: if_splits)
    note c = this
    show "ens2 35 pm' k" if "start u \<le> k + 1" "k \<le> start u + len u" for k
      using c e [of k] P(1) that by cases (auto simp: ens)
    show "PageMap2_get 35 pm' (start u) = r"
      using c ends P(2) same [OF _ _ inside(1)] by cases auto
    show "PageMap2_get 35 pm' (start u + len u - 1) = r"
      using c ends P(3) same [OF _ _ inside(2)] by cases auto
    assume cl: "sizeclass u \<noteq> 0"
    have "r \<noteq> q \<and> S r = Some u"
      using c
    proof cases
      case 1
      then have "sizeclass s \<noteq> 0" using cl j by (simp add: joins_def)
      then show ?thesis using P(6) [OF S(1) loc] by simp
    qed simp
    then have c': "r \<noteq> q" "S r = Some u" by simp_all
    show "location u = IN_USE" using P(6) [OF c'(2)] cl by blast
    show "PageMap2_get 35 pm' k = r" if "k \<in> span_pages u" for k
      using same [OF c'(2,1) that] P(4) [OF c'(2) cl that] by simp
  next
    fix k assume k: "PageMap2_get 35 pm' k \<noteq> 0"
    have "\<exists>r u. S r = Some u \<and> k \<in> span_pages u"
    proof (cases "k = m")
      case True
      then show ?thesis using S(2) m by blast
    next
      case False
      then have "PageMap2_get 35 pm k \<noteq> 0" using k get [of k] by simp
      then show ?thesis by (rule P(5))
    qed
    then obtain r u where r: "S r = Some u" "k \<in> span_pages u" by blast
    show "\<exists>p' s''. (S(q := None, p \<mapsto> s')) p' = Some s'' \<and> k \<in> span_pages s''"
    proof (cases "r = p \<or> r = q")
      case True
      then have "u = s \<or> u = t" using r(1) S(1,2) by auto
      then have "k \<in> span_pages s'" using r(2) unfolding joins_pages [OF j] by blast
      then show ?thesis by (intro exI [of _ p] exI [of _ s']) simp
    next
      case False
      with r show ?thesis by (intro exI [of _ r] exI [of _ u]) simp
    qed
  qed
qed

lemma join_mem_ok:
  assumes m: "mem_ok owned h" and S: "hp_spans h p = Some s" "hp_spans h q = Some t" "p \<noteq> q" and j: "joins s t s' m"
    and h': "hp_spans h' = (hp_spans h)(q := None, p \<mapsto> s')" "hp_meta h' = hp_meta h"
      "span_allocator h' = PHA_Delete (span_allocator h) q" "system_bytes (stats h') = system_bytes (stats h)"
  shows "mem_ok owned h'"
proof -
  obtain R where R: "alloc_inv owned sizeof_Span R (span_allocator h) (hp_meta h) (dom (hp_spans h))"
     "finite R" "card R = system_bytes (stats h)" "\<And>p s. hp_spans h p = Some s \<Longrightarrow> span_mem s \<subseteq> R"
    using m by (auto simp: mem_ok_def)
  have "dom (hp_spans h') = dom (hp_spans h) - {q}" using S h'(1) by auto
  moreover have "alloc_inv owned sizeof_Span R (span_allocator h') (hp_meta h') (dom (hp_spans h) - {q})"
    unfolding h'(2,3) using PHA_Delete_spec(1) [OF R(1)] S by auto
  moreover have "span_mem s' \<subseteq> R" using joins_mem [OF j] R(4) [OF S(1)] R(4) [OF S(2)] by blast
  moreover have "hp_spans h' r = Some u \<Longrightarrow> span_mem u \<subseteq> R" for r u
    using R(4) calculation(3) unfolding h'(1) by (auto split: if_splits)
  ultimately show ?thesis using R(2,3) h'(4) unfolding mem_ok_def by auto
qed

lemma join_tot:
  assumes "finite (dom S)" "S p = Some s" "S q = Some t" "p \<noteq> q" "joins s t s' m"
    and "location t = location s \<or> location s = ON_RETURNED_FREELIST"
  shows "tot (at_loc (S(q := None, p \<mapsto> s')) {} ON_RETURNED_FREELIST) =
    tot (at_loc S {} ON_RETURNED_FREELIST) + (if location t = location s then 0 else len t)"
proof -
  let ?X = "at_loc S {} ON_RETURNED_FREELIST"
  have fin: "finite (dom ?X)" using assms(1) dom_at_loc finite_subset by metis
  show ?thesis
  proof (cases "location s = ON_RETURNED_FREELIST")
    case False
    then have "at_loc (S(q := None, p \<mapsto> s')) {} ON_RETURNED_FREELIST = ?X"
      using assms by (auto simp: at_loc_def fun_eq_iff joins_def)
    with False assms(6) show ?thesis by simp
  next
    case True
    then have e: "at_loc (S(q := None, p \<mapsto> s')) {} ON_RETURNED_FREELIST = (?X(p := None, q := None))(p \<mapsto> s')"
      using assms by (auto simp: at_loc_def fun_eq_iff joins_def)
    have X: "?X p = Some s" using True assms(2) by simp
    have t1: "tot (?X(p := None)) + len s = tot ?X" by (rule tot_None [OF fin X])
    have t2: "tot (?X(p := None, q := None)) + (if location t = location s then len t else 0) = tot (?X(p := None))"
    proof (cases "location t = location s")
      case tr: True
      then show ?thesis using tot_None [of "?X(p := None)" q t] fin True assms(3,4) by simp
    next
      case fl: False
      then have "?X(p := None, q := None) = ?X(p := None)" using True assms(3,4) by (auto simp: at_loc_def fun_eq_iff)
      with fl show ?thesis by simp
    qed
    have "tot ((?X(p := None, q := None))(p \<mapsto> s')) = tot (?X(p := None, q := None)) + len s'"
      using fin by (intro tot_new) (auto simp: assms(4))
    moreover have "len s' = len s + len t" using assms(5) by (simp add: joins_def)
    ultimately show ?thesis using t1 t2 unfolding e by (cases "location t = location s") simp_all
  qed
qed

lemma join_hinv:
  assumes inv: "hinvx owned {q, p} x h" and S: "hp_spans h p = Some s" "hp_spans h q = Some t" "p \<noteq> q" and j: "joins s t s' m"
    and loc: "location s \<noteq> IN_USE" "location t = location s \<or> location s = ON_RETURNED_FREELIST"
    and x: "x = (if location t = location s then 0 else 8192 * len t)"
    and get: "\<And>k. PageMap2_get 35 pm' k = (if k = m then p else PageMap2_get 35 (pagemap h) k)"
      "\<And>k. ens2 35 pm' k = ens2 35 (pagemap h) k"
  shows "hinvx owned {p} 0 (h\<lparr>span_allocator := PHA_Delete (span_allocator h) q,
    hp_spans := (hp_spans h)(q := None, p \<mapsto> s'), pagemap := pm'\<rparr>)" (is "hinvx _ _ _ ?h")
proof -
  note I = hinvxD [OF inv]
  have at: "at_loc ((hp_spans h)(q := None, p \<mapsto> s')) {p} loc = at_loc (hp_spans h) {q, p} loc" for loc
    by (auto simp: at_loc_def fun_eq_iff split: option.splits)
  have "mem_ok owned ?h" by (rule join_mem_ok [OF I(5) S j]) simp_all
  then show ?thesis using join_spans_ok [OF I(1) S j] join_pmap_ok [OF I(1,2) S j loc(1) get]
      join_tot [OF spans_okD(1) [OF I(1)] S j loc(2)] I(3,4,6) x
    by (cases "location t = location s") (simp_all add: hinvx_def at)
qed

end
