(* ===== verification/HeapFree.thy ===== *)
theory HeapFree
  imports HeapMerge
begin

text \<open>
  \<^verbatim>\<open>MergeIntoFreeList\<close> of src/page\_heap.cc: putting a free span back on a list after joining it with its free
  neighbours keeps the invariant, the spans in use, and the sum of the free and the returned bytes.
\<close>

lemma wpo_wpf: "wpo m Q \<Longrightarrow> wpf f m Q"
  by (cases m) (simp_all add: wpo_def wpf_def)

section \<open>Spans in use\<close>

definition inuse :: "'o heap \<Rightarrow> spans" where
  "inuse h = at_loc (hp_spans h) {} IN_USE"

text \<open>What the operations on free spans keep.\<close>

definition calm :: "'o heap \<Rightarrow> 'o heap \<Rightarrow> bool" where
  "calm h h' \<longleftrightarrow> keeps h h' \<and> inuse h' = inuse h"

lemma calm_refl [simp]: "calm h h"
  by (simp add: calm_def)

lemma calm_trans [trans]: "calm h h' \<Longrightarrow> calm h' h'' \<Longrightarrow> calm h h''"
  by (auto simp: calm_def intro: keeps_trans)

lemma calm_lists: "same_but_lists h h' \<Longrightarrow> calm h h'"
  by (simp add: same_but_lists_def calm_def inuse_def)

definition fu :: "'o heap \<Rightarrow> nat" where
  "fu h = free_bytes (stats h) + unmapped_bytes (stats h)"

definition returned_len :: "span \<Rightarrow> nat" where
  "returned_len s = (if location s = ON_RETURNED_FREELIST then len s else 0)"

lemma at_loc_cong:
  assumes "S p = Some s" "p \<in> D \<or> location s \<noteq> loc" "p \<in> D' \<or> location s' \<noteq> loc" "D' - {p} = D - {p}"
  shows "at_loc (S(p \<mapsto> s')) D' loc = at_loc S D loc"
proof
  fix q
  show "at_loc (S(p \<mapsto> s')) D' loc q = at_loc S D loc q"
  proof (cases "q = p")
    case True
    then show ?thesis using assms(1-3) by (simp add: at_loc_def)
  next
    case False
    then have "q \<in> D' \<longleftrightarrow> q \<in> D" using assms(4) by blast
    then show ?thesis using False by (cases "S q") (simp_all add: at_loc_def)
  qed
qed

lemma tot_returned_upd:
  assumes "finite (dom S)" "S p = Some s" "len s' = len s"
  shows "tot (at_loc (S(p \<mapsto> s')) {} ON_RETURNED_FREELIST) + returned_len s =
    tot (at_loc S {} ON_RETURNED_FREELIST) + returned_len s'"
proof -
  let ?X = "at_loc S {} ON_RETURNED_FREELIST" and ?Y = "at_loc (S(p \<mapsto> s')) {} ON_RETURNED_FREELIST"
  have fin: "finite (dom ?X)" "finite (dom ?Y)"
    by (rule finite_subset [OF dom_at_loc], simp add: assms(1))+
  have e: "?X(p := None) = ?Y(p := None)" by (auto simp: at_loc_def fun_eq_iff)
  have "tot (?X(p := None)) + returned_len s = tot ?X"
  proof (cases "location s = ON_RETURNED_FREELIST")
    case True
    then show ?thesis using tot_None [OF fin(1), of p s] assms(2) by (simp add: returned_len_def)
  next
    case False
    then have "?X(p := None) = ?X" using assms(2) by (auto simp: at_loc_def fun_eq_iff)
    with False show ?thesis by (simp add: returned_len_def)
  qed
  moreover have "tot (?Y(p := None)) + returned_len s' = tot ?Y"
  proof (cases "location s' = ON_RETURNED_FREELIST")
    case True
    then show ?thesis using tot_None [OF fin(2), of p s'] by (simp add: returned_len_def)
  next
    case False
    then have "?Y(p := None) = ?Y" by (auto simp: at_loc_def fun_eq_iff)
    with False show ?thesis by (simp add: returned_len_def)
  qed
  ultimately show ?thesis using e assms(3) by simp
qed

lemma spans_ok_upd:
  assumes "spans_ok S" "S p = Some s" "start s' = start s" "len s' = len s"
  shows "spans_ok (S(p \<mapsto> s'))"
proof -
  note D = spans_okD [OF assms(1)]
  have pg: "span_pages s' = span_pages s" using assms(3,4) by (simp add: span_pages_def)
  have S': "\<exists>v. S r = Some v \<and> span_pages u = span_pages v \<and> start u = start v \<and> len u = len v" if "(S(p \<mapsto> s')) r = Some u" for r u
    using that assms pg by (cases "r = p") auto
  show ?thesis unfolding spans_ok_def
  proof (intro conjI allI impI)
    show "finite (dom (S(p \<mapsto> s')))" using D(1) by simp
    fix r u assume r: "(S(p \<mapsto> s')) r = Some u"
    from S' [OF r] obtain v where v: "S r = Some v" "span_pages u = span_pages v" "start u = start v" "len u = len v" by blast
    show "r \<noteq> 0" "1 \<le> start u" "1 \<le> len u" "start u + len u < 2 ^ 35" unfolding v(3,4) by (rule D(2-5) [OF v(1)])+
    fix r' u' assume r': "(S(p \<mapsto> s')) r' = Some u'" "r \<noteq> r'"
    from S' [OF r'(1)] obtain v' where v': "S r' = Some v'" "span_pages u' = span_pages v'" by blast
    show "span_pages u \<inter> span_pages u' = {}" unfolding v(2) v'(2) by (rule D(6) [OF v(1) v'(1) r'(2)])
  qed
qed

lemma pmap_ok_upd:
  assumes "pmap_ok S pm" "S p = Some s" "start s' = start s" "len s' = len s"
    "sizeclass s' \<noteq> 0 \<Longrightarrow> location s' = IN_USE \<and> (\<forall>k \<in> span_pages s. PageMap2_get 35 pm k = p)"
  shows "pmap_ok (S(p \<mapsto> s')) pm"
proof -
  note P = pmap_okD [OF assms(1)]
  have pg: "span_pages s' = span_pages s" using assms(3,4) by (simp add: span_pages_def)
  have c: "r = p \<and> u = s' \<or> r \<noteq> p \<and> S r = Some u" if "(S(p \<mapsto> s')) r = Some u" for r u
    using that by (simp split: if_splits)
  show ?thesis unfolding pmap_ok_def
  proof (intro conjI allI impI ballI)
    fix r u assume r: "(S(p \<mapsto> s')) r = Some u"
    show "ens2 35 pm k" if "start u \<le> k + 1" "k \<le> start u + len u" for k
      using c [OF r] P(1) [OF assms(2), of k] P(1) [of r u k] that assms(3,4) by auto
    show "PageMap2_get 35 pm (start u) = r"
      using c [OF r] P(2) [OF assms(2)] P(2) [of r u] assms(3,4) by auto
    show "PageMap2_get 35 pm (start u + len u - 1) = r"
      using c [OF r] P(3) [OF assms(2)] P(3) [of r u] assms(3,4) by auto
    assume cl: "sizeclass u \<noteq> 0"
    show "location u = IN_USE" using c [OF r] P(6) [of r u] cl assms(5) by blast
    show "PageMap2_get 35 pm k = r" if "k \<in> span_pages u" for k
      using c [OF r] P(4) [of r u k] that cl assms(5) pg by blast
  next
    fix k assume "PageMap2_get 35 pm k \<noteq> 0"
    from P(5) [OF this] obtain r u where r: "S r = Some u" "k \<in> span_pages u" by blast
    show "\<exists>p' s''. (S(p \<mapsto> s')) p' = Some s'' \<and> k \<in> span_pages s''"
    proof (cases "r = p")
      case True
      then have "k \<in> span_pages s'" using r assms(2) pg by simp
      with True show ?thesis by (intro exI [of _ p] exI [of _ s']) simp
    next
      case False
      with r show ?thesis by (intro exI [of _ r] exI [of _ u]) simp
    qed
  qed
qed

text \<open>A change of the other members of a span, between two detachments.\<close>

lemma upd_hinv:
  assumes inv: "hinvx owned D x h" and p: "hp_spans h p = Some s" and s': "start s' = start s" "len s' = len s"
    and D: "p \<in> D \<or> location s = IN_USE" "p \<in> D' \<or> location s' = IN_USE" "D' - {p} = D - {p}"
    and cl: "sizeclass s' \<noteq> 0 \<Longrightarrow> location s' = IN_USE \<and> (\<forall>k \<in> span_pages s. PageMap2_get 35 (pagemap h) k = p)"
    and x: "x' + 8192 * returned_len s' = x + 8192 * returned_len s"
  shows "hinvx owned D' x' (h\<lparr>hp_spans := (hp_spans h)(p \<mapsto> s')\<rparr>)"
proof -
  note I = hinvxD [OF inv]
  have at: "at_loc ((hp_spans h)(p \<mapsto> s')) D' loc = at_loc (hp_spans h) D loc" if "loc \<noteq> IN_USE" for loc
    using D that by (intro at_loc_cong [where S = "hp_spans h", OF p]) auto
  have "span_mem s' = span_mem s" using s' by (simp add: span_mem_def)
  moreover have "dom ((hp_spans h)(p \<mapsto> s')) = dom (hp_spans h)" using p by auto
  moreover obtain R where R: "alloc_inv owned sizeof_Span R (span_allocator h) (hp_meta h) (dom (hp_spans h))"
     "finite R" "card R = system_bytes (stats h)" "\<And>p s. hp_spans h p = Some s \<Longrightarrow> span_mem s \<subseteq> R"
    using I(5) by (auto simp: mem_ok_def)
  ultimately have m: "mem_ok owned (h\<lparr>hp_spans := (hp_spans h)(p \<mapsto> s')\<rparr>)"
    using R(4) p unfolding mem_ok_def by (intro exI [of _ R]) (simp add: R(1-3))
  show ?thesis
    using spans_ok_upd [OF I(1) p s'] pmap_ok_upd [OF I(2) p s' cl] I(3,4,6) m x
      tot_returned_upd [OF spans_okD(1) [OF I(1)] p s'(2)]
    by (simp add: hinvx_def at)
qed


section \<open>Coalescing\<close>

lemma pagemap_set_spec:
  assumes "ens2 35 pm k"
  obtains pm' where "\<And>h. pagemap h = pm \<Longrightarrow> pagemap_set h k v = Some (h\<lparr>pagemap := pm'\<rparr>)"
    "\<And>j. PageMap2_get 35 pm' j = (if j = k then v else PageMap2_get 35 pm j)"
    "\<And>j. ens2 35 pm' j = ens2 35 pm j"
  using PageMap2_set_get [of 35 pm k v] assms by (auto simp: pagemap_set_def tc_consts)

text \<open>The answer of \<^verbatim>\<open>CheckAndHandlePreMerge\<close>: no, or a free span taken from its list.\<close>

definition premerge_post :: "('o \<Rightarrow> nat set) \<Rightarrow> 'o heap \<Rightarrow> nat \<Rightarrow> span \<Rightarrow> nat \<Rightarrow> nat \<times> 'o heap \<Rightarrow> bool" where
  "premerge_post owned h p s q = (\<lambda>(r, h'). keeps h h' \<and> hp_spans h' = hp_spans h \<and> pagemap h' = pagemap h \<and>
     (if r = 0 then hinv owned {p} h' \<and> fu h' = fu h \<and> free_bytes (stats h') = free_bytes (stats h)
      else r = q \<and> (\<exists>t. hp_spans h q = Some t \<and> location t \<noteq> IN_USE \<and>
        (location t = location s \<or> location s = ON_RETURNED_FREELIST) \<and>
        hinvx owned {q, p} (if location t = location s then 0 else 8192 * len t) h' \<and>
        fu h' + 8192 * len t = fu h \<and> free_bytes (stats h') \<le> free_bytes (stats h))))"

lemma Remove_premerge:
  assumes inv: "hinvx owned {p} (if location t = location s then 0 else 8192 * len t) h" and small: "os_small owned"
    and q: "hp_spans h q = Some t" "q \<noteq> p" "location t \<noteq> IN_USE" "location t = location s \<or> location s = ON_RETURNED_FREELIST"
    and h0: "keeps h0 h" "hp_spans h = hp_spans h0" "pagemap h = pagemap h0" "fu h = fu h0" "free_bytes (stats h) = free_bytes (stats h0)"
    and q0: "q \<noteq> 0"
  shows "wpf f (RemoveFromFreeList h q) (\<lambda>h'. premerge_post owned h0 p s q (q, h'))"
proof (rule wpo_wpf, rule wpo_conseq [OF RemoveFromFreeList_spec [OF inv small q(1)]])
  show "q \<notin> {p}" using q(2) by simp
  show "location t \<noteq> IN_USE" by (rule q(3))
next
  fix h' assume "RemoveFromFreeList h q = Some h'"
    and "hinvx owned (insert q {p}) (if location t = location s then 0 else 8192 * len t) h' \<and> same_but_lists h h' \<and>
      free_bytes (stats h') + (if location t = ON_NORMAL_FREELIST then 8192 * len t else 0) = free_bytes (stats h) \<and>
      unmapped_bytes (stats h') + (if location t = ON_NORMAL_FREELIST then 0 else 8192 * len t) = unmapped_bytes (stats h)"
  then show "premerge_post owned h0 p s q (q, h')"
    using h0 q q0 by (auto simp: premerge_post_def same_but_lists_def fu_def intro: keeps_trans split: if_splits)
qed

lemma PreMerge_spec:
  assumes sane: "os_sane env owned" and inv: "hinv owned {p} h" and small: "os_small owned" and f: "f \<or> release_total env"
    and p: "hp_spans h p = Some s" "location s \<noteq> IN_USE" and q: "q = 0 \<or> hp_spans h q = Some t \<and> q \<noteq> p"
  shows "wpf f (CheckAndHandlePreMerge env h p q) (premerge_post owned h p s q)"
proof (cases "q = 0")
  case True
  then show ?thesis using inv by (simp add: CheckAndHandlePreMerge_def premerge_post_def)
next
  case False
  with q have q: "hp_spans h q = Some t" "q \<noteq> p" by auto
  consider (agg) "aggressive_decommit h" "location t = ON_NORMAL_FREELIST" "location s = ON_RETURNED_FREELIST"
    | (no) "\<not> (aggressive_decommit h \<and> location t = ON_NORMAL_FREELIST \<and> location s = ON_RETURNED_FREELIST)" "location t \<noteq> location s"
    | (yes) "\<not> (aggressive_decommit h \<and> location t = ON_NORMAL_FREELIST \<and> location s = ON_RETURNED_FREELIST)" "location t = location s"
    by blast
  then show ?thesis
  proof cases
    case agg
    have D: "wpf f (DecommitSpan env h q) (\<lambda>(rv, h'). hinvx owned {p} (if rv then 8192 * len t else 0) h' \<and> keeps h h' \<and>
       hp_spans h' = hp_spans h \<and> pagemap h' = pagemap h \<and>
       free_bytes (stats h') = free_bytes (stats h) \<and> unmapped_bytes (stats h') = unmapped_bytes (stats h))"
      using agg by (intro DecommitSpan_spec [OF sane inv small q(1) _ f]) simp
    have R: "wpf f (RemoveFromFreeList h' q) (\<lambda>h''. premerge_post owned h p s q (q, h''))"
      if "hinvx owned {p} (8192 * len t) h'" "keeps h h'" "hp_spans h' = hp_spans h" "pagemap h' = pagemap h"
        "free_bytes (stats h') = free_bytes (stats h)" "unmapped_bytes (stats h') = unmapped_bytes (stats h)" for h'
      using that agg q False by (intro Remove_premerge [where t = t, OF _ small]) (simp_all add: fu_def)
    have N: "premerge_post owned h p s q (0, h')"
      if "hinvx owned {p} 0 h'" "keeps h h'" "hp_spans h' = hp_spans h" "pagemap h' = pagemap h"
        "free_bytes (stats h') = free_bytes (stats h)" "unmapped_bytes (stats h') = unmapped_bytes (stats h)" for h'
      using that by (simp add: premerge_post_def fu_def)
    show ?thesis using agg p(1) q(1) False
      by (auto simp: CheckAndHandlePreMerge_def intro!: wpf_conseq [OF D] R N)
  next
    case no
    then show ?thesis using p(1) q(1) inv by (auto simp: CheckAndHandlePreMerge_def premerge_post_def)
  next
    case yes
    have "wpf f (RemoveFromFreeList h q) (\<lambda>h'. premerge_post owned h p s q (q, h'))"
      using yes p(2) inv q False by (intro Remove_premerge [where t = t, OF _ small]) simp_all
    then show ?thesis using yes p(1) q(1) False by (auto simp: CheckAndHandlePreMerge_def)
  qed
qed


text \<open>What one half of the merge does to the span \<open>p\<close>.\<close>

definition merge_post :: "('o \<Rightarrow> nat set) \<Rightarrow> 'o heap \<Rightarrow> nat \<Rightarrow> span \<Rightarrow> 'o heap \<Rightarrow> bool" where
  "merge_post owned h p s h' \<longleftrightarrow> hinv owned {p} h' \<and> calm h h' \<and> free_bytes (stats h') \<le> free_bytes (stats h) \<and>
     (\<exists>s'. hp_spans h' p = Some s' \<and> location s' = location s \<and> len s \<le> len s' \<and> fu h' + 8192 * len s' = fu h + 8192 * len s)"

lemma inuse_join:
  assumes "S p = Some s" "S q = Some t" "location s \<noteq> IN_USE" "location t \<noteq> IN_USE" "location s' = location s"
  shows "at_loc (S(q := None, p \<mapsto> s')) {} IN_USE = at_loc S {} IN_USE"
  using assms by (auto simp: at_loc_def fun_eq_iff)

lemma join_post:
  assumes inv: "hinvx owned {q, p} (if location t = location s then 0 else 8192 * len t) h" and S: "hp_spans h p = Some s" "hp_spans h q = Some t" "p \<noteq> q"
    and j: "joins s t s' m" and loc: "location s \<noteq> IN_USE" "location t \<noteq> IN_USE" "location t = location s \<or> location s = ON_RETURNED_FREELIST"
    and h0: "keeps h0 h" "hp_spans h = hp_spans h0" "fu h + 8192 * len t = fu h0" "free_bytes (stats h) \<le> free_bytes (stats h0)"
    and get: "\<And>k. PageMap2_get 35 pm' k = (if k = m then p else PageMap2_get 35 (pagemap h) k)"
      "\<And>k. ens2 35 pm' k = ens2 35 (pagemap h) k"
  shows "merge_post owned h0 p s (h\<lparr>span_allocator := PHA_Delete (span_allocator h) q,
    hp_spans := (hp_spans h)(q := None, p \<mapsto> s'), pagemap := pm'\<rparr>)" (is "merge_post _ _ _ _ ?h")
proof -
  have "hinv owned {p} ?h" by (rule join_hinv [OF inv S j loc(1,3) refl get])
  moreover have "pha_room sizeof_Span (PHA_Delete (span_allocator h) q) k" if "pha_room sizeof_Span (span_allocator h) k" for k
  proof -
    obtain R where R: "alloc_inv owned sizeof_Span R (span_allocator h) (hp_meta h) (dom (hp_spans h))"
      using hinvxD(5) [OF inv] by (auto simp: mem_ok_def)
    have "pha_room sizeof_Span (PHA_Delete (span_allocator h) q) (Suc k)"
      using PHA_Delete_spec(2) [OF R _ that] S(2) by blast
    then show ?thesis by (auto simp: pha_room_def)
  qed
  with h0(1) have "keeps h0 ?h" by (simp add: keeps_def)
  moreover have "location s' = location s" "len s' = len s + len t" using j by (simp_all add: joins_def)
  ultimately show ?thesis
    using h0 inuse_join [where S = "hp_spans h", OF S(1,2) loc(1,2)] by (simp add: merge_post_def calm_def inuse_def fu_def)
qed

lemma merge_step:
  fixes h h' :: "'o heap"
  assumes post: "premerge_post owned h p s q (r, h')" and p: "hp_spans h p = Some s" "location s \<noteq> IN_USE" and qp: "q \<noteq> p"
    and j: "\<forall>t. hp_spans h q = Some t \<longrightarrow> joins s t (upd t s) (pos (upd t s)) \<and> ens2 35 (pagemap h) (pos (upd t s))"
  shows "wpf f (if r \<noteq> 0 then do {
       sp \<leftarrow> hp_spans h' r;
       let h = heap_DeleteSpan h' r;
       h \<leftarrow> set_span h p (upd sp);
       s \<leftarrow> hp_spans h p;
       pagemap_set h (pos s) p }
     else Some h') (\<lambda>h''. merge_post owned h p s h'' \<and>
       (hp_spans h'' p = Some s \<or> (\<exists>t. hp_spans h q = Some t \<and> hp_spans h'' p = Some (upd t s))))"
proof (cases "r = 0")
  case True
  then show ?thesis using post p by (auto simp: premerge_post_def merge_post_def calm_def inuse_def)
next
  case False
  with post obtain t where t: "hp_spans h q = Some t" "location t \<noteq> IN_USE" "location t = location s \<or> location s = ON_RETURNED_FREELIST"
    and P: "keeps h h'" "hp_spans h' = hp_spans h" "pagemap h' = pagemap h"
      "hinvx owned {q, p} (if location t = location s then 0 else 8192 * len t) h'"
      "fu h' + 8192 * len t = fu h" "free_bytes (stats h') \<le> free_bytes (stats h)" and r: "r = q" "q \<noteq> 0"
    by (auto simp: premerge_post_def)
  define s' where "s' = upd t s"
  have J: "joins s t s' (pos s')" "ens2 35 (pagemap h') (pos s')" using j t(1) P(3) by (simp_all add: s'_def)
  from J(2) obtain pm' where pm: "\<And>g :: 'o heap. pagemap g = pagemap h' \<Longrightarrow> pagemap_set g (pos s') p = Some (g\<lparr>pagemap := pm'\<rparr>)"
    "\<And>j. PageMap2_get 35 pm' j = (if j = pos s' then p else PageMap2_get 35 (pagemap h') j)"
    "\<And>j. ens2 35 pm' j = ens2 35 (pagemap h') j"
    by (rule pagemap_set_spec [where v = p]) (rule that)
  have "merge_post owned h p s (h'\<lparr>span_allocator := PHA_Delete (span_allocator h') q, hp_spans := (hp_spans h')(q := None, p \<mapsto> s'), pagemap := pm'\<rparr>)"
    using t(1) p qp by (intro join_post [OF P(4) _ _ _ J(1) p(2) t(2,3) P(1,2,5,6) pm(2,3)]) (simp_all add: P(2))
  then show ?thesis
    using r t(1) P(2) p(1) qp pm(1)
    by (simp add: heap_DeleteSpan_def DeleteSpan_def set_span_def Let_def s'_def [symmetric])
qed

lemma merge_prev_spec:
  assumes sane: "os_sane env owned" and inv: "hinv owned {p} h" and small: "os_small owned" and f: "f \<or> release_total env"
    and p: "hp_spans h p = Some s" "location s \<noteq> IN_USE"
  shows "wpf f (merge_prev env h p (start s)) (\<lambda>h'. merge_post owned h p s h' \<and>
    (\<exists>s'. hp_spans h' p = Some s' \<and> start s' + len s' = start s + len s))"
proof -
  define q where "q = GetDescriptor h (start s - 1)"
  note I = hinvxD [OF inv]
  have nb: "q = 0 \<or> (\<exists>t. hp_spans h q = Some t \<and> q \<noteq> p \<and> start t + len t = start s)"
    using neighbour_prev [OF I(1,2) p(1), of q] by (auto simp: q_def GetDescriptor_def tc_consts)
  have p0: "p \<noteq> 0" and none: "hp_spans h 0 = None" using spans_okD(2) [OF I(1)] p(1) by (blast, metis not_Some_eq)
  have qp: "q \<noteq> p" using nb p0 by blast
  have T: "start t + len t = start s" if "hp_spans h q = Some t" for t using nb that none by auto
  let ?upd = "\<lambda>sp s. s\<lparr>start := start s - len sp, len := len s + len sp\<rparr>" and ?pos = start
  have "joins s t (?upd t s) (start (?upd t s)) \<and> ens2 35 (pagemap h) (start (?upd t s))" if "hp_spans h q = Some t" for t
  proof -
    have "start s - len t = start t" using T [OF that] by simp
    then show ?thesis using T [OF that] pmap_okD(1) [OF I(2) that, of "start t"] by (simp add: joins_def)
  qed
  then have j: "\<forall>t. hp_spans h q = Some t \<longrightarrow> joins s t (?upd t s) (?pos (?upd t s)) \<and> ens2 35 (pagemap h) (?pos (?upd t s))" by blast
  obtain t where t: "q = 0 \<or> hp_spans h q = Some t \<and> q \<noteq> p" using nb by blast
  show ?thesis unfolding merge_prev_def q_def [symmetric] wpf_bind
  proof (rule wpf_conseq [OF PreMerge_spec [OF sane inv small f p t]], clarify)
    fix r h' assume "premerge_post owned h p s q (r, h')"
    from merge_step [where upd = ?upd and pos = ?pos, OF this p qp j, of f]
    show "wpf f (if r \<noteq> 0 then do {
       sp \<leftarrow> hp_spans h' r;
       let h = heap_DeleteSpan h' r;
       h \<leftarrow> set_span h p (\<lambda>s. s\<lparr>start := start s - len sp, len := len s + len sp\<rparr>);
       s \<leftarrow> hp_spans h p;
       pagemap_set h (start s) p }
      else Some h') (\<lambda>h'. merge_post owned h p s h' \<and> (\<exists>s'. hp_spans h' p = Some s' \<and> start s' + len s' = start s + len s))"
      by (rule wpf_conseq) (use T in fastforce)
  qed
qed

lemma merge_next_spec:
  assumes sane: "os_sane env owned" and inv: "hinv owned {p} h" and small: "os_small owned" and f: "f \<or> release_total env"
    and p: "hp_spans h p = Some s" "location s \<noteq> IN_USE"
  shows "wpf f (merge_next env h p (start s + len s)) (merge_post owned h p s)"
proof -
  define q where "q = GetDescriptor h (start s + len s)"
  note I = hinvxD [OF inv]
  have nb: "q = 0 \<or> (\<exists>t. hp_spans h q = Some t \<and> q \<noteq> p \<and> start t = start s + len s)"
    using neighbour_next [OF I(1,2) p(1), of q] by (auto simp: q_def GetDescriptor_def tc_consts)
  have p0: "p \<noteq> 0" and none: "hp_spans h 0 = None" using spans_okD(2) [OF I(1)] p(1) by (blast, metis not_Some_eq)
  have qp: "q \<noteq> p" using nb p0 by blast
  have T: "start t = start s + len s" if "hp_spans h q = Some t" for t using nb that none by auto
  let ?upd = "\<lambda>sp s. s\<lparr>len := len s + len sp\<rparr>" and ?pos = "\<lambda>s. start s + len s - 1"
  have "joins s t (?upd t s) (start (?upd t s) + len (?upd t s) - 1) \<and> ens2 35 (pagemap h) (start (?upd t s) + len (?upd t s) - 1)"
    if "hp_spans h q = Some t" for t
    using T [OF that] pmap_okD(1) [OF I(2) that, of "start s + (len s + len t) - 1"] spans_okD(4) [OF I(1) that] by (auto simp: joins_def)
  then have j: "\<forall>t. hp_spans h q = Some t \<longrightarrow> joins s t (?upd t s) (?pos (?upd t s)) \<and> ens2 35 (pagemap h) (?pos (?upd t s))" by blast
  obtain t where t: "q = 0 \<or> hp_spans h q = Some t \<and> q \<noteq> p" using nb by blast
  show ?thesis unfolding merge_next_def q_def [symmetric] wpf_bind
  proof (rule wpf_conseq [OF PreMerge_spec [OF sane inv small f p t]], clarify)
    fix r h' assume "premerge_post owned h p s q (r, h')"
    from merge_step [where upd = ?upd and pos = ?pos, OF this p qp j, of f]
    show "wpf f (if r \<noteq> 0 then do {
       sn \<leftarrow> hp_spans h' r;
       let h = heap_DeleteSpan h' r;
       h \<leftarrow> set_span h p (\<lambda>s. s\<lparr>len := len s + len sn\<rparr>);
       s \<leftarrow> hp_spans h p;
       pagemap_set h (start s + len s - 1) p }
      else Some h') (merge_post owned h p s)"
      by (rule wpf_conseq) (rule conjunct1)
  qed
qed


lemma set_span_eq: "hp_spans h p = Some s \<Longrightarrow> set_span h p g = Some (h\<lparr>hp_spans := (hp_spans h)(p \<mapsto> g s)\<rparr>)"
  by (simp add: set_span_def)

lemma inuse_upd:
  assumes "S p = Some s" "location s \<noteq> IN_USE" "location s' \<noteq> IN_USE"
  shows "at_loc (S(p \<mapsto> s')) {} IN_USE = at_loc S {} IN_USE"
  using assms by (auto simp: at_loc_def fun_eq_iff)

text \<open>The effect of putting the detached free span \<open>p\<close> on a list, after coalescing.\<close>

definition put_back :: "('o \<Rightarrow> nat set) \<Rightarrow> 'o heap \<Rightarrow> span \<Rightarrow> 'o heap \<Rightarrow> bool" where
  "put_back owned h s h' \<longleftrightarrow> hinv owned {} h' \<and> calm h h' \<and> fu h' = fu h + 8192 * len s \<and>
     (location s = ON_RETURNED_FREELIST \<longrightarrow> free_bytes (stats h') \<le> free_bytes (stats h))"

text \<open>The first step of \<^verbatim>\<open>MergeIntoFreeList\<close>: with aggressive decommit the span itself is returned first.\<close>

lemma merge_decommit_spec:
  assumes sane: "os_sane env owned" and inv: "hinv owned {p} h" and small: "os_small owned" and f: "f \<or> release_total env"
    and p: "hp_spans h p = Some s" "location s \<noteq> IN_USE"
  shows "wpf f (if aggressive_decommit h \<and> location s = ON_NORMAL_FREELIST then do {
             (ok, h) \<leftarrow> DecommitSpan env h p;
             if ok then set_span h p (\<lambda>s. s\<lparr>location := ON_RETURNED_FREELIST\<rparr>) else Some h }
           else Some h) (\<lambda>h'. hinv owned {p} h' \<and> calm h h' \<and> fu h' = fu h \<and> free_bytes (stats h') = free_bytes (stats h) \<and>
    (\<exists>s'. hp_spans h' p = Some s' \<and> start s' = start s \<and> len s' = len s \<and> location s' \<noteq> IN_USE \<and>
       (location s' = location s \<or> location s' = ON_RETURNED_FREELIST)))"
proof (cases "aggressive_decommit h \<and> location s = ON_NORMAL_FREELIST")
  case False
  then have "(if aggressive_decommit h \<and> location s = ON_NORMAL_FREELIST then do {
             (ok, h) \<leftarrow> DecommitSpan env h p;
             if ok then set_span h p (\<lambda>s. s\<lparr>location := ON_RETURNED_FREELIST\<rparr>) else Some h }
           else Some h) = Some h" by (rule if_not_P)
  then show ?thesis using inv p by simp
next
  case True
  let ?s = "s\<lparr>location := ON_RETURNED_FREELIST\<rparr>"
  have upd: "hinv owned {p} (h'\<lparr>hp_spans := (hp_spans h')(p \<mapsto> ?s)\<rparr>)"
    if "hinvx owned {p} (8192 * len s) h'" "hp_spans h' = hp_spans h" for h'
    using True that p pmap_okD(6) [OF hinvxD(2) [OF inv] p] by (intro upd_hinv [OF that(1), of p s]) (simp_all add: returned_len_def)
  have iu: "inuse (h'\<lparr>hp_spans := (hp_spans h')(p \<mapsto> ?s)\<rparr>) = inuse h" if "hp_spans h' = hp_spans h" for h' :: "'a heap"
    using that p inuse_upd [of "hp_spans h" p s ?s] by (simp add: inuse_def)
  have D: "wpf f (DecommitSpan env h p) (\<lambda>(rv, h'). hinvx owned {p} (if rv then 8192 * len s else 0) h' \<and> keeps h h' \<and>
       hp_spans h' = hp_spans h \<and> pagemap h' = pagemap h \<and>
       free_bytes (stats h') = free_bytes (stats h) \<and> unmapped_bytes (stats h') = unmapped_bytes (stats h))"
    using True by (intro DecommitSpan_spec [OF sane inv small p(1) _ f]) simp
  show ?thesis unfolding if_P [OF True] wpf_bind
  proof (rule wpf_conseq [OF D], clarify)
    fix ok h1 assume h1: "hinvx owned {p} (if ok then 8192 * len s else 0) h1" "keeps h h1" "hp_spans h1 = hp_spans h" "pagemap h1 = pagemap h"
      "free_bytes (stats h1) = free_bytes (stats h)" "unmapped_bytes (stats h1) = unmapped_bytes (stats h)"
    show "wpf f (if ok then set_span h1 p (\<lambda>s. s\<lparr>location := ON_RETURNED_FREELIST\<rparr>) else Some h1)
    (\<lambda>h'. hinv owned {p} h' \<and> calm h h' \<and> fu h' = fu h \<and> free_bytes (stats h') = free_bytes (stats h) \<and>
    (\<exists>s'. hp_spans h' p = Some s' \<and> start s' = start s \<and> len s' = len s \<and> location s' \<noteq> IN_USE \<and>
       (location s' = location s \<or> location s' = ON_RETURNED_FREELIST)))"
    proof (cases ok)
      case True
      have "hp_spans h1 p = Some s" using h1(3) p(1) by simp
      moreover have "keeps h (h1\<lparr>hp_spans := (hp_spans h1)(p \<mapsto> ?s)\<rparr>)" using h1(2) by (simp add: keeps_def)
      ultimately show ?thesis using True h1 p upd [of h1] iu [of h1] by (simp add: set_span_eq calm_def fu_def)
    next
      case False
      then show ?thesis using h1 p by (simp add: calm_def fu_def inuse_def)
    qed
  qed
qed

lemma MergeIntoFreeList_spec:
  assumes sane: "os_sane env owned" and inv: "hinv owned {p} h" and small: "os_small owned" and f: "f \<or> release_total env"
    and p: "hp_spans h p = Some s" "location s \<noteq> IN_USE"
  shows "wpf f (MergeIntoFreeList env h p) (put_back owned h s)"
proof -
  have last: "wpf f (PrependToFreeList h3 p) (put_back owned h s)"
    if "merge_post owned h2 p s2 h3" "calm h h2" "location s2 \<noteq> IN_USE" "location s2 = location s \<or> location s2 = ON_RETURNED_FREELIST"
      "fu h2 + 8192 * len s2 = fu h + 8192 * len s" "free_bytes (stats h2) \<le> free_bytes (stats h)" for h2 h3 s2
  proof -
    from that(1) obtain s3 where s3: "hp_spans h3 p = Some s3" "location s3 = location s2" "fu h3 + 8192 * len s3 = fu h2 + 8192 * len s2"
      and h3: "hinv owned {p} h3" "calm h2 h3" "free_bytes (stats h3) \<le> free_bytes (stats h2)" by (auto simp: merge_post_def)
    show ?thesis
    proof (rule wpo_wpf, rule wpo_conseq [OF PrependToFreeList_spec [OF _ small s3(1)]])
      fix h4 assume h4: "hinvx owned {} 0 h4 \<and> same_but_lists h3 h4 \<and>
         free_bytes (stats h4) = free_bytes (stats h3) + (if location s3 = ON_NORMAL_FREELIST then 8192 * len s3 else 0) \<and>
         unmapped_bytes (stats h4) = unmapped_bytes (stats h3) + (if location s3 = ON_NORMAL_FREELIST then 0 else 8192 * len s3)"
      have "calm h h4" using that(2) h3(2) calm_lists [of h3 h4] h4 by (blast intro: calm_trans)
      moreover have "fu h4 = fu h + 8192 * len s" using h4 s3(3) that(5) by (auto simp: fu_def)
      moreover have "free_bytes (stats h4) \<le> free_bytes (stats h)" if "location s = ON_RETURNED_FREELIST"
        using h4 s3(2) h3(3) \<open>location s2 = location s \<or> _\<close> \<open>free_bytes (stats h2) \<le> _\<close> that by auto
      ultimately show "put_back owned h s h4" using h4 by (simp add: put_back_def)
    qed (use h3(1) s3(2) that(3) in auto)
  qed
  show ?thesis unfolding MergeIntoFreeList_def p(1) bind.bind_lunit Let_def wpf_bind
  proof (rule wpf_conseq [OF merge_decommit_spec [OF sane inv small f p]], elim conjE exE)
    fix h1 s1 assume h1: "hinv owned {p} h1" "calm h h1" "fu h1 = fu h" "free_bytes (stats h1) = free_bytes (stats h)"
      and s1: "hp_spans h1 p = Some s1" "start s1 = start s" "len s1 = len s" "location s1 \<noteq> IN_USE"
        "location s1 = location s \<or> location s1 = ON_RETURNED_FREELIST"
    show "wpf f (merge_prev env h1 p (start s)) (\<lambda>h2. wpf f (merge_next env h2 p (start s + len s)) (\<lambda>h3. wpf f (PrependToFreeList h3 p) (put_back owned h s)))"
      unfolding s1(2) [symmetric]
    proof (rule wpf_conseq [OF merge_prev_spec [OF sane h1(1) small f s1(1,4)]], elim conjE exE)
      fix h2 s2 assume "merge_post owned h1 p s1 h2" and s2: "hp_spans h2 p = Some s2" "start s2 + len s2 = start s1 + len s1"
      then have h2: "hinv owned {p} h2" "calm h1 h2" "free_bytes (stats h2) \<le> free_bytes (stats h1)"
        "location s2 = location s1" "fu h2 + 8192 * len s2 = fu h1 + 8192 * len s1" by (auto simp: merge_post_def)
      have e: "start s1 + len s = start s2 + len s2" using s2(2) s1(3) by simp
      have loc: "location s2 \<noteq> IN_USE" using h2(4) s1(4) by simp
      show "wpf f (merge_next env h2 p (start s1 + len s)) (\<lambda>h3. wpf f (PrependToFreeList h3 p) (put_back owned h s))"
        unfolding e
        by (rule wpf_conseq [OF merge_next_spec [OF sane h2(1) small f s2(1) loc]], rule last)
          (use h1 h2 s1 calm_trans [of h h1 h2] in auto)
    qed
  qed
qed

end
