(* ===== verification/HeapRelease.thy ===== *)
theory HeapRelease
  imports HeapFree
begin

text \<open>
  Returning memory to the system (\<^verbatim>\<open>ReleaseSpan\<close>, \<^verbatim>\<open>ReleaseAtLeastNPages\<close>, \<^verbatim>\<open>EnsureLimit\<close>, \<^verbatim>\<open>IncrementalScavenge\<close>) and
  \<^verbatim>\<open>Delete\<close>: the loops end, the invariant and the spans in use are kept, and the byte counts move from free to returned.
\<close>

text \<open>The system accepts every release, and its pages are not larger than the allocator's.\<close>

definition release_willing :: "'o env \<Rightarrow> bool" where
  "release_willing env \<longleftrightarrow> \<not> FLAGS_malloc_disable_memory_release env \<and> (\<exists>k \<le> 13. os_getpagesize env = 2 ^ k) \<and>
     (\<forall>os st n. fst (os_madvise env os st n) = Madv_ok)"

lemma madvise_retry_ok: "fst (os_madvise env os st n) = Madv_ok \<Longrightarrow> \<exists>os'. madvise_retry env os st n = Some (True, os')"
  by (subst madvise_retry.simps) (cases "os_madvise env os st n", simp)

lemma release_willing_total: "release_willing env \<Longrightarrow> release_total env"
  unfolding release_total_def TCMalloc_SystemRelease_def Let_def release_willing_def
  using madvise_retry_ok [of env] by (metis (no_types, lifting) bind.bind_lunit case_prod_conv option.distinct(1))

lemma and_pow2_mod: "(x :: nat) AND (2 ^ k - 1) = x mod 2 ^ k"
proof -
  have "(2 ^ k - 1 :: nat) = mask k" by (simp add: mask_eq_exp_minus_1)
  then show ?thesis by (simp only: flip: take_bit_eq_mask take_bit_eq_mod)
qed

lemma and_mask_dvd: "2 ^ k dvd (x :: nat) \<Longrightarrow> x AND (2 ^ k - 1) = 0"
  unfolding and_pow2_mod by auto

lemma round_up_aligned: "2 ^ k dvd (x :: nat) \<Longrightarrow> x + 2 ^ k - 1 - ((x + 2 ^ k - 1) AND (2 ^ k - 1)) = x"
proof -
  assume "2 ^ k dvd x"
  then obtain c where c: "x = 2 ^ k * c" by (rule dvdE)
  have p: "(1::nat) \<le> 2 ^ k" by simp
  then have "x + 2 ^ k - 1 = (2 ^ k - 1) + 2 ^ k * c" unfolding c by simp
  moreover have "((2 ^ k - 1) + 2 ^ k * c) mod 2 ^ k = (2 ^ k - 1 :: nat)" by (subst mod_mult_self2) (simp add: p less_imp_diff_less)
  ultimately show ?thesis unfolding and_pow2_mod using p c by simp
qed

lemma SystemRelease_willing:
  assumes "release_willing env" "1 \<le> n" "a + n < 2 ^ 35"
  shows "\<exists>s'. TCMalloc_SystemRelease env s (page_bytes a) (page_bytes n) = Some (True, s')"
proof -
  obtain k where k: "k \<le> 13" "os_getpagesize env = 2 ^ k" and rel: "\<not> FLAGS_malloc_disable_memory_release env"
    and ok: "\<And>os st n. fst (os_madvise env os st n) = Madv_ok" using assms(1) by (auto simp: release_willing_def)
  have "(2::nat) ^ k dvd 2 ^ 13" using k(1) by (rule le_imp_power_dvd)
  then have d: "2 ^ k dvd 8192 * a" "2 ^ k dvd 8192 * a + 8192 * n" by auto
  have b: "page_bytes a = 8192 * a" "page_bytes n = 8192 * n" using assms(3) by (simp_all add: page_bytes_small)
  obtain os' where "madvise_retry env (sys_os s) (8192 * a) (8192 * a + 8192 * n - 8192 * a) = Some (True, os')"
    using madvise_retry_ok [OF ok] by blast
  then show ?thesis
    unfolding TCMalloc_SystemRelease_def Let_def b k(2) round_up_aligned [OF d(1)] and_mask_dvd [OF d(2)]
    using rel assms(2) by simp
qed

lemma DecommitSpan_willing:
  assumes "release_willing env" "spans_ok (hp_spans h)" "hp_spans h p = Some s"
  shows "\<exists>h'. DecommitSpan env h p = Some (True, h')"
proof -
  have "1 \<le> len s" "start s + len s < 2 ^ 35" using spans_okD(4,5) [OF assms(2,3)] by auto
  then obtain sy where "TCMalloc_SystemRelease env (meta_sys (hp_meta h)) (page_bytes (start s)) (page_bytes (len s)) = Some (True, sy)"
    using SystemRelease_willing [OF assms(1)] by blast
  then show ?thesis using assms(3) by (simp add: DecommitSpan_def Let_def)
qed

definition released :: "('o \<Rightarrow> nat set) \<Rightarrow> 'o heap \<Rightarrow> nat \<Rightarrow> 'o heap \<Rightarrow> bool" where
  "released owned h n h' \<longleftrightarrow> hinv owned {} h' \<and> calm h h' \<and> fu h' = fu h \<and>
     free_bytes (stats h') + 8192 * n \<le> free_bytes (stats h)"

lemma released_trans: "released owned h n h' \<Longrightarrow> released owned h' m h'' \<Longrightarrow> released owned h (n + m) h''"
  by (auto simp: released_def intro: calm_trans)

lemma ReleaseSpan_spec:
  assumes sane: "os_sane env owned" and inv: "hinv owned {} h" and small: "os_small owned" and f: "f \<or> release_total env"
    and p: "hp_spans h p = Some s" "location s = ON_NORMAL_FREELIST"
  shows "wpf f (ReleaseSpan env h p) (\<lambda>(n, h'). released owned h n h' \<and> (n = 0 \<longrightarrow> \<not> release_willing env))"
proof -
  let ?s = "s\<lparr>location := ON_RETURNED_FREELIST\<rparr>"
  note I = hinvxD [OF inv]
  have l: "1 \<le> len s" by (rule spans_okD(4) [OF I(1) p(1)])
  have D: "wpf f (DecommitSpan env h p) (\<lambda>(rv, h'). hinvx owned {} (if rv then 8192 * len s else 0) h' \<and> keeps h h' \<and>
       hp_spans h' = hp_spans h \<and> pagemap h' = pagemap h \<and>
       free_bytes (stats h') = free_bytes (stats h) \<and> unmapped_bytes (stats h') = unmapped_bytes (stats h))"
    using p(2) by (intro DecommitSpan_spec [OF sane inv small p(1) _ f]) simp
  have ok: "wpf f (do {
       h \<leftarrow> RemoveFromFreeList h1 p;
       sp \<leftarrow> hp_spans h p;
       h \<leftarrow> set_span h p (\<lambda>x. x\<lparr>location := ON_RETURNED_FREELIST\<rparr>);
       h \<leftarrow> MergeIntoFreeList env h p;
       Some (len sp, h) }) (\<lambda>(n, h'). released owned h n h' \<and> (n = 0 \<longrightarrow> \<not> release_willing env))"
    if h1: "hinvx owned {} (8192 * len s) h1" "keeps h h1" "hp_spans h1 = hp_spans h" "free_bytes (stats h1) = free_bytes (stats h)" "unmapped_bytes (stats h1) = unmapped_bytes (stats h)" for h1 :: "'a heap"
  proof -
    have p1: "hp_spans h1 p = Some s" using p(1) h1(3) by simp
    show ?thesis unfolding wpf_bind
    proof (rule wpo_wpf [THEN wpf_conseq], rule RemoveFromFreeList_spec [OF h1(1) small p1])
      show "p \<notin> {}" "location s \<noteq> IN_USE" using p(2) by simp_all
      fix h2 assume h2: "hinvx owned {p} (8192 * len s) h2 \<and> same_but_lists h1 h2 \<and>
        free_bytes (stats h2) + (if location s = ON_NORMAL_FREELIST then 8192 * len s else 0) = free_bytes (stats h1) \<and>
        unmapped_bytes (stats h2) + (if location s = ON_NORMAL_FREELIST then 0 else 8192 * len s) = unmapped_bytes (stats h1)"
      then have p2: "hp_spans h2 p = Some s" using p1 by (simp add: same_but_lists_def)
      define h3 where "h3 = h2\<lparr>hp_spans := (hp_spans h2)(p \<mapsto> ?s)\<rparr>"
      have i3: "hinv owned {p} h3" unfolding h3_def using h2 p2 p(2) pmap_okD(6) [OF I(2) p(1)]
        by (intro upd_hinv [where s = s, of owned "{p}" "8192 * len s"]) (simp_all add: returned_len_def)
      have p3: "hp_spans h3 p = Some ?s" by (simp add: h3_def)
      have iu: "inuse h3 = inuse h" using inuse_upd [of "hp_spans h" p s ?s] p h2 h1(3) by (simp add: h3_def inuse_def same_but_lists_def)
      have "keeps h h2" using h1(2) h2 keeps_trans [of h h1 h2] by (simp add: same_but_lists_def)
      then have c3: "calm h h3" using iu by (simp add: calm_def h3_def keeps_def)
      have "wpf f (MergeIntoFreeList env h3 p) (put_back owned h3 ?s)"
        by (rule MergeIntoFreeList_spec [OF sane i3 small f p3]) simp
      then have "wpf f (MergeIntoFreeList env h3 p) (\<lambda>h4. released owned h (len s) h4)"
      proof (rule wpf_conseq)
        fix h4 assume "put_back owned h3 ?s h4"
        then show "released owned h (len s) h4" using c3 h1 h2 p(2)
          by (auto simp: put_back_def released_def fu_def h3_def intro: calm_trans)
      qed
      then show "wpf f (hp_spans h2 p) (\<lambda>sp. wpf f (set_span h2 p (\<lambda>x. x\<lparr>location := ON_RETURNED_FREELIST\<rparr>))
        (\<lambda>g. wpf f (MergeIntoFreeList env g p) (\<lambda>g. wpf f (Some (len sp, g)) (\<lambda>(n, h'). released owned h n h' \<and> (n = 0 \<longrightarrow> \<not> release_willing env)))))"
        using p2 l by (auto simp: set_span_eq h3_def elim: wpf_conseq)
    qed
  qed
  show ?thesis unfolding ReleaseSpan_def wpf_bind
  proof (rule wpf_conseq [OF D], clarify)
    fix rv h1 assume dec: "DecommitSpan env h p = Some (rv, h1)" and h1: "hinvx owned {} (if rv then 8192 * len s else 0) h1" "keeps h h1" "hp_spans h1 = hp_spans h"
      "pagemap h1 = pagemap h" "free_bytes (stats h1) = free_bytes (stats h)" "unmapped_bytes (stats h1) = unmapped_bytes (stats h)"
    show "wpf f (if rv then do {
       h \<leftarrow> RemoveFromFreeList h1 p;
       sp \<leftarrow> hp_spans h p;
       h \<leftarrow> set_span h p (\<lambda>x. x\<lparr>location := ON_RETURNED_FREELIST\<rparr>);
       h \<leftarrow> MergeIntoFreeList env h p;
       Some (len sp, h) } else Some (0, h1)) (\<lambda>(n, h'). released owned h n h' \<and> (n = 0 \<longrightarrow> \<not> release_willing env))"
    proof (cases rv)
      case True
      show ?thesis unfolding if_P [OF True] by (rule ok) (use h1 True in auto)
    next
      case False
      then have "\<not> release_willing env" using DecommitSpan_willing [OF _ I(1) p(1)] dec by force
      then show ?thesis using False h1 by (simp add: released_def fu_def calm_def inuse_def)
    qed
  qed
qed


section \<open>ReleaseAtLeastNPages\<close>

definition norm_index :: "'o heap \<Rightarrow> nat" where
  "norm_index h = (if release_index h > kMaxPages then 0 else release_index h)"

lemma hinvx_release_index [simp]: "hinvx owned D x (h\<lparr>release_index := i\<rparr>) = hinvx owned D x h"
  by (simp add: hinvx_def mem_ok_def)

lemma calm_release_index [simp]: "calm (h\<lparr>release_index := i\<rparr>) h' = calm h h'" "calm h (h'\<lparr>release_index := i\<rparr>) = calm h h'"
  by (simp_all add: calm_def keeps_def inuse_def)

lemma released_release_index [simp]: "released owned (h\<lparr>release_index := i\<rparr>) n h' = released owned h n h'"
    "released owned h n (h'\<lparr>release_index := i\<rparr>) = released owned h n h'"
  by (simp_all add: released_def fu_def)

lemma release_candidate_spec:
  assumes inv: "hinv owned {} h" and c: "release_candidate h = Some p" and i: "release_index h \<le> kMaxPages"
  shows "\<exists>s. hp_spans h p = Some s \<and> location s = ON_NORMAL_FREELIST"
proof -
  let ?X = "at_loc (hp_spans h) {} ON_NORMAL_FREELIST"
  have pool: "pool ?X (free_normal h) (large_normal h) (free_bytes (stats h))" by (rule hinvxD(3) [OF inv])
  have "\<exists>s. ?X p = Some s"
  proof (cases "release_index h = kMaxPages")
    case True
    then obtain e es where "large_normal h = e # es" "p = sp_span e" using c by (auto simp: release_candidate_def split: list.splits)
    then have "e \<in> large_of ?X" using pool by (auto simp: pool_def)
    then show ?thesis using \<open>p = sp_span e\<close> unfolding large_of_def by blast
  next
    case False
    then have "p \<in> set (free_normal h (release_index h))" "release_index h < kMaxPages"
      using c i by (auto simp: release_candidate_def split: if_splits)
    then have "p \<in> small_of ?X (release_index h)" using pool by (auto simp: pool_def)
    then show ?thesis unfolding small_of_def by blast
  qed
  then show ?thesis by auto
qed

lemma candidate_at: "release_candidate (h\<lparr>release_index := i\<rparr>) =
    (if i = kMaxPages then (case large_normal h of [] \<Rightarrow> None | e # _ \<Rightarrow> Some (sp_span e))
     else (if free_normal h i = [] then None else Some (last (free_normal h i))))"
  by (simp add: release_candidate_def)

text \<open>When every list is empty, nothing is free.\<close>

lemma no_candidates:
  assumes inv: "hinv owned {} h" and none: "\<And>i. i \<le> kMaxPages \<Longrightarrow> release_candidate (h\<lparr>release_index := i\<rparr>) = None"
  shows "free_bytes (stats h) = 0"
proof -
  let ?X = "at_loc (hp_spans h) {} ON_NORMAL_FREELIST"
  have pool: "pool ?X (free_normal h) (large_normal h) (free_bytes (stats h))" by (rule hinvxD(3) [OF inv])
  have "large_normal h = []" using none [of kMaxPages] by (auto simp: candidate_at split: list.splits)
  then have lg: "large_of ?X = {}" using pool by (simp add: pool_def)
  have "free_normal h i = []" if "i < kMaxPages" for i using none [of i] that by (auto simp: candidate_at split: if_splits)
  then have sm: "small_of ?X i = {}" if "i < kMaxPages" for i using pool that by (simp add: pool_def)
  have "?X p = None" for p
  proof (rule ccontr)
    assume "?X p \<noteq> None"
    then obtain s where s: "?X p = Some s" by blast
    then have l: "1 \<le> len s" using spans_okD(4) [OF hinvxD(1) [OF inv], of p s] by simp
    show False
    proof (cases "len s \<le> kMaxPages")
      case True
      then have "p \<in> small_of ?X (len s - 1)" using s l by (auto simp: small_of_def)
      then show False using sm [of "len s - 1"] True l by simp
    next
      case False
      then have "the_ptr p s \<in> large_of ?X" using s by (simp add: large_of_def)
      then show False using lg by simp
    qed
  qed
  then have "?X = Map.empty" by (simp add: fun_eq_iff)
  then show ?thesis using pool by (simp add: pool_def tot_def)
qed

lemma release_round_spec:
  assumes sane: "os_sane env owned" and small: "os_small owned" and f: "f \<or> release_total env"
    and inv: "hinv owned {} h" and rel: "8192 * rel + free_bytes (stats h) < 2 ^ 64"
  shows "wpf f (release_round env k n rel h) (\<lambda>(ret, rel', h'). \<exists>m. rel' = rel + m \<and> released owned h m h' \<and>
    (ret \<longrightarrow> \<not> release_willing env) \<and>
    (rel < n \<longrightarrow> ret \<or> 0 < m \<or> (\<forall>j<k. release_candidate (h\<lparr>release_index := (norm_index h + j) mod (kMaxPages + 1)\<rparr>) = None)))"
  using inv rel
proof (induction k arbitrary: rel h)
  case 0
  then show ?case by (simp add: released_def)
next
  case (Suc k)
  define g where "g = h\<lparr>release_index := norm_index h\<rparr>"
  have g: "(if release_index h > kMaxPages then h\<lparr>release_index := 0\<rparr> else h) = g" by (simp add: g_def norm_index_def)
  have ni: "norm_index h \<le> kMaxPages" by (simp add: norm_index_def)
  have ig: "hinv owned {} g" using Suc.prems(1) by (simp add: g_def)
  show ?case
  proof (cases "rel < n")
    case False
    then show ?thesis using Suc.prems(1) by (simp add: released_def)
  next
    case lt: True
    show ?thesis
    proof (cases "release_candidate g")
      case None
      define g1 where "g1 = g\<lparr>release_index := release_index g + 1\<rparr>"
      have eq: "release_round env (Suc k) n rel h = release_round env k n rel g1"
        using lt None by (simp add: g g1_def)
      have n1: "norm_index g1 = (norm_index h + 1) mod (kMaxPages + 1)"
        using ni by (cases "norm_index h = kMaxPages") (auto simp: norm_index_def g1_def g_def)
      have c1: "release_candidate (g1\<lparr>release_index := i\<rparr>) = release_candidate (h\<lparr>release_index := i\<rparr>)" for i
        by (simp add: g1_def g_def)
      have i1: "hinv owned {} g1" "8192 * rel + free_bytes (stats g1) < 2 ^ 64" using ig Suc.prems(2) by (simp_all add: g1_def g_def)
      have c0: "release_candidate (h\<lparr>release_index := (norm_index h + 0) mod (kMaxPages + 1)\<rparr>) = None"
        using None ni by (simp add: g_def)
      have all: "\<forall>j<Suc k. release_candidate (h\<lparr>release_index := (norm_index h + j) mod (kMaxPages + 1)\<rparr>) = None"
        if "\<forall>j<k. release_candidate (g1\<lparr>release_index := (norm_index g1 + j) mod (kMaxPages + 1)\<rparr>) = None"
      proof (intro allI impI)
        fix j assume "j < Suc k"
        then show "release_candidate (h\<lparr>release_index := (norm_index h + j) mod (kMaxPages + 1)\<rparr>) = None"
          using c0 that by (cases j) (auto simp: c1 n1 mod_simps)
      qed
      have rg: "released owned g1 m h' = released owned h m h'" for m h' by (simp add: g1_def g_def)
      show ?thesis unfolding eq
        by (rule wpf_conseq [OF Suc.IH [OF i1]]) (use all lt rg in auto)
    next
      case (Some p)
      obtain s where s: "hp_spans g p = Some s" "location s = ON_NORMAL_FREELIST"
        using release_candidate_spec [OF ig Some] ni by (auto simp: g_def)
      have eq: "release_round env (Suc k) n rel h = do {
               (released_len, h) \<leftarrow> ReleaseSpan env g p;
               if released_len = 0 then Some (True, rel, h)
               else release_round env k n (w64 (rel + released_len)) (h\<lparr>release_index := release_index h + 1\<rparr>) }"
        using lt Some by (simp add: g)
      show ?thesis unfolding eq wpf_bind
      proof (rule wpf_conseq [OF ReleaseSpan_spec [OF sane ig small f s]], clarify)
        fix l h1 assume r: "released owned g l h1" "l = 0 \<longrightarrow> \<not> release_willing env"
        then have r': "released owned h l h1" by (simp add: g_def)
        show "wpf f (if l = 0 then Some (True, rel, h1) else release_round env k n (w64 (rel + l)) (h1\<lparr>release_index := release_index h1 + 1\<rparr>))
          (\<lambda>(ret, rel', h'). \<exists>m. rel' = rel + m \<and> released owned h m h' \<and> (ret \<longrightarrow> \<not> release_willing env) \<and>
            (rel < n \<longrightarrow> ret \<or> 0 < m \<or> (\<forall>j<Suc k. release_candidate (h\<lparr>release_index := (norm_index h + j) mod (kMaxPages + 1)\<rparr>) = None)))"
        proof (cases "l = 0")
          case True
          then show ?thesis using r r' by simp
        next
          case False
          let ?h = "h1\<lparr>release_index := release_index h1 + 1\<rparr>"
          have w: "w64 (rel + l) = rel + l" using Suc.prems(2) r' by (simp add: released_def)
          have i1: "hinv owned {} ?h" "8192 * (rel + l) + free_bytes (stats ?h) < 2 ^ 64"
            using Suc.prems(2) r' by (simp_all add: released_def)
          show ?thesis unfolding if_not_P [OF False] w
          proof (rule wpf_conseq [OF Suc.IH [OF i1]], clarify)
            fix ret h' m assume "released owned ?h m h'" "ret \<longrightarrow> \<not> release_willing env"
            with released_trans [OF r', of m h'] False
            show "\<exists>m'. rel + l + m = rel + m' \<and> released owned h m' h' \<and> (ret \<longrightarrow> \<not> release_willing env) \<and>
              (rel < n \<longrightarrow> ret \<or> 0 < m' \<or> (\<forall>j<Suc k. release_candidate (h\<lparr>release_index := (norm_index h + j) mod (kMaxPages + 1)\<rparr>) = None))"
              by (intro exI [of _ "l + m"]) simp
          qed
        qed
      qed
    qed
  qed
qed


lemma all_indices:
  assumes "\<forall>j<kMaxPages + 1. P ((r + j) mod (kMaxPages + 1))" "i \<le> kMaxPages"
  shows "P i"
proof -
  let ?N = "kMaxPages + 1"
  have "(r + (i + (?N - r mod ?N)) mod ?N) mod ?N = (r mod ?N + (i + (?N - r mod ?N))) mod ?N"
    by (simp only: mod_simps)
  also have "r mod ?N + (i + (?N - r mod ?N)) = i + ?N" using mod_less_divisor [of ?N r] by linarith
  also have "(i + ?N) mod ?N = i mod ?N" by (rule mod_add_self2)
  also have "i mod ?N = i" using assms(2) by simp
  finally show ?thesis using assms(1) mod_less_divisor [of ?N "i + (?N - r mod ?N)"] by (metis add_gr_0 zero_less_one)
qed

definition released_at_least :: "('o \<Rightarrow> nat set) \<Rightarrow> 'o env \<Rightarrow> 'o heap \<Rightarrow> nat \<Rightarrow> nat \<Rightarrow> 'o heap \<Rightarrow> bool" where
  "released_at_least owned env h n m h' \<longleftrightarrow> released owned h m h' \<and>
     (release_willing env \<longrightarrow> n \<le> m \<or> free_bytes (stats h') = 0)"

lemma release_loop_spec:
  assumes sane: "os_sane env owned" and small: "os_small owned" and f: "f \<or> release_total env"
    and inv: "hinv owned {} h" and rel: "8192 * rel + free_bytes (stats h) < 2 ^ 64"
  shows "wpf f (release_loop env n rel h) (\<lambda>(rel', h'). \<exists>m. rel' = rel + m \<and> released owned h m h' \<and>
    (release_willing env \<longrightarrow> n \<le> rel' \<or> free_bytes (stats h') = 0))"
  using inv rel
proof (induction "free_bytes (stats h)" arbitrary: h rel rule: less_induct)
  case less
  show ?case
  proof (cases "rel < n \<and> free_bytes (stats h) > 0")
    case False
    then show ?thesis using less.prems(1) by (subst release_loop.simps) (auto simp: released_def)
  next
    case True
    then have eq: "release_loop env n rel h = do {
        (ret, rel, h) \<leftarrow> release_round env (kMaxPages + 1) n rel h;
        if ret then Some (rel, h) else release_loop env n rel h }"
      by (subst release_loop.simps) simp
    show ?thesis unfolding eq wpf_bind
    proof (rule wpf_conseq [OF release_round_spec [OF sane small f less.prems]], clarify)
      fix ret h1 m assume r: "released owned h m h1" "ret \<longrightarrow> \<not> release_willing env"
        and prog: "rel < n \<longrightarrow> ret \<or> 0 < m \<or> (\<forall>j<kMaxPages + 1. release_candidate (h\<lparr>release_index := (norm_index h + j) mod (kMaxPages + 1)\<rparr>) = None)"
      show "wpf f (if ret then Some (rel + m, h1) else release_loop env n (rel + m) h1) (\<lambda>(rel', h'). \<exists>m. rel' = rel + m \<and> released owned h m h' \<and>
        (release_willing env \<longrightarrow> n \<le> rel' \<or> free_bytes (stats h') = 0))"
      proof (cases ret)
        case True
        then show ?thesis using r by simp
      next
        case False
        have "0 < m"
        proof (rule ccontr)
          assume "\<not> 0 < m"
          with prog False True have "\<forall>j<kMaxPages + 1. release_candidate (h\<lparr>release_index := (norm_index h + j) mod (kMaxPages + 1)\<rparr>) = None" by simp
          from all_indices [of "\<lambda>i. release_candidate (h\<lparr>release_index := i\<rparr>) = None", OF this]
          have "free_bytes (stats h) = 0" by (intro no_candidates [OF less.prems(1)])
          with True show False by simp
        qed
        then have lt: "free_bytes (stats h1) < free_bytes (stats h)" using r(1) by (simp add: released_def)
        have i1: "hinv owned {} h1" "8192 * (rel + m) + free_bytes (stats h1) < 2 ^ 64"
          using r(1) less.prems(2) by (simp_all add: released_def)
        show ?thesis unfolding if_not_P [OF False]
        proof (rule wpf_conseq [OF less.hyps [OF lt i1]], clarify)
          fix h2 l assume "released owned h1 l h2" "release_willing env \<longrightarrow> n \<le> rel + m + l \<or> free_bytes (stats h2) = 0"
          then show "\<exists>m'. rel + m + l = rel + m' \<and> released owned h m' h2 \<and> (release_willing env \<longrightarrow> n \<le> rel + m + l \<or> free_bytes (stats h2) = 0)"
            using released_trans [OF r(1)] by (intro exI [of _ "m + l"]) simp
        qed
      qed
    qed
  qed
qed

lemma ReleaseAtLeastNPages_spec:
  assumes sane: "os_sane env owned" and inv: "hinv owned {} h" and small: "os_small owned" and f: "f \<or> release_total env"
  shows "wpf f (ReleaseAtLeastNPages env h n) (\<lambda>(m, h'). released_at_least owned env h n m h')"
proof -
  have "8192 * 0 + free_bytes (stats h) < 2 ^ 64" using hinv_bounds(1,3) [OF inv small] by simp
  from release_loop_spec [OF sane small f inv this, of n] show ?thesis
    unfolding ReleaseAtLeastNPages_def by (rule wpf_conseq) (auto simp: released_at_least_def)
qed

section \<open>EnsureLimit, IncrementalScavenge and Delete\<close>

lemma EnsureLimit_spec:
  assumes sane: "os_sane env owned" and inv: "hinv owned {} h" and small: "os_small owned" and f: "f \<or> release_total env"
  shows "wpf f (EnsureLimit env h n w) (\<lambda>(ok, h'). \<exists>m. released owned h m h' \<and> (\<not> w \<longrightarrow> h' = h))"
proof -
  have r0: "released owned h 0 h" using inv by (simp add: released_def)
  note R = ReleaseAtLeastNPages_spec [OF sane inv small f]
  show ?thesis unfolding EnsureLimit_def Let_def
    using r0 by (auto intro!: wpf_conseq [OF R] simp: released_at_least_def)
qed

lemma hinvx_counters [simp]:
  "hinvx owned D x (h\<lparr>scavenge_counter := c\<rparr>) = hinvx owned D x h"
  "hinvx owned D x (h\<lparr>stats := (stats h)\<lparr>scavenge_count := c'\<rparr>\<rparr>) = hinvx owned D x h"
  by (simp_all add: hinvx_def mem_ok_def)

lemma released_counters [simp]:
  "released owned (h\<lparr>scavenge_counter := c\<rparr>) n h' = released owned h n h'"
  "released owned h n (h'\<lparr>scavenge_counter := c\<rparr>) = released owned h n h'"
  "released owned (h\<lparr>stats := (stats h)\<lparr>scavenge_count := c'\<rparr>\<rparr>) n h' = released owned h n h'"
  by (simp_all add: released_def fu_def calm_def keeps_def inuse_def)

lemma IncrementalScavenge_spec:
  assumes sane: "os_sane env owned" and inv: "hinv owned {} h" and small: "os_small owned" and f: "f \<or> release_total env"
  shows "wpf f (IncrementalScavenge env h n) (\<lambda>h'. \<exists>m. released owned h m h')"
proof -
  have r0: "released owned h 0 h" using inv by (simp add: released_def)
  define g where "g = h\<lparr>scavenge_counter := scavenge_counter h - int n\<rparr>"
  define g' where "g' = g\<lparr>stats := (stats g)\<lparr>scavenge_count := w64 (scavenge_count (stats g) + 1)\<rparr>\<rparr>"
  have ig: "hinv owned {} g'" using inv unfolding g'_def hinvx_counters g_def by simp
  have rg: "released owned g' m h' = released owned h m h'" for m h'
    unfolding g'_def released_counters g_def by simp
  show ?thesis
    unfolding IncrementalScavenge_def Let_def g_def [symmetric] g'_def [symmetric]
    using r0 by (auto simp: g_def rg released_at_least_def intro!: wpf_conseq [OF ReleaseAtLeastNPages_spec [OF sane ig small f]])
qed


lemma inuse_free:
  assumes "S p = Some s" "location s' \<noteq> IN_USE"
  shows "at_loc (S(p \<mapsto> s')) {} IN_USE = (at_loc S {} IN_USE)(p := None)"
  using assms by (auto simp: at_loc_def fun_eq_iff)

text \<open>\<^verbatim>\<open>Delete\<close> takes the span out of use and keeps everything else that is in use.\<close>

lemma DeleteLocked_spec:
  assumes sane: "os_sane env owned" and inv: "hinv owned {} h" and small: "os_small owned" and f: "f \<or> release_total env"
    and p: "hp_spans h p = Some s" "location s = IN_USE"
  shows "wpf f (DeleteLocked env h p) (\<lambda>h'. hinv owned {} h' \<and> keeps h h' \<and> inuse h' = (inuse h)(p := None) \<and>
    fu h' = fu h + 8192 * len s)"
proof -
  define s1 where "s1 = s\<lparr>sizeclass := 0, sample := False, location := ON_NORMAL_FREELIST\<rparr>"
  define h1 where "h1 = h\<lparr>hp_spans := (hp_spans h)(p \<mapsto> s1)\<rparr>"
  have i1: "hinv owned {p} h1" unfolding h1_def
    by (rule upd_hinv [OF inv p(1)]) (use p(2) in \<open>simp_all add: s1_def returned_len_def\<close>)
  have p1: "hp_spans h1 p = Some s1" "location s1 \<noteq> IN_USE" by (simp_all add: h1_def s1_def)
  have u1: "inuse h1 = (inuse h)(p := None)" using inuse_free [of "hp_spans h" p s s1] p by (simp add: h1_def inuse_def s1_def)
  have k1: "keeps h h1" "fu h1 = fu h" by (simp_all add: h1_def keeps_def fu_def)
  have eq: "DeleteLocked env h p = do { h \<leftarrow> MergeIntoFreeList env h1 p; IncrementalScavenge env h (len s) }"
    using p(1) by (simp add: DeleteLocked_def set_span_eq h1_def s1_def)
  show ?thesis unfolding eq wpf_bind
  proof (rule wpf_conseq [OF MergeIntoFreeList_spec [OF sane i1 small f p1]])
    fix h2 assume "put_back owned h1 s1 h2"
    then have h2: "hinv owned {} h2" "calm h1 h2" "fu h2 = fu h + 8192 * len s"
      using k1 by (simp_all add: put_back_def s1_def)
    show "wpf f (IncrementalScavenge env h2 (len s)) (\<lambda>h'. hinv owned {} h' \<and> keeps h h' \<and> inuse h' = (inuse h)(p := None) \<and>
      fu h' = fu h + 8192 * len s)"
      by (rule wpf_conseq [OF IncrementalScavenge_spec [OF sane h2(1) small f]])
        (use h2 k1(1) u1 in \<open>auto simp: released_def calm_def intro: keeps_trans\<close>)
  qed
qed

end
