(* ===== verification/HeapAlloc.thy ===== *)
theory HeapAlloc
  imports HeapRelease
begin

text \<open>
  Taking pages out of the free ones (\<^verbatim>\<open>Split\<close>, \<^verbatim>\<open>Carve\<close>, \<^verbatim>\<open>AllocLarge\<close>, \<^verbatim>\<open>SearchFreeAndLargeLists\<close>): the searches end, the
  invariant is kept, and a span that is returned has the length asked for and was not in use.
\<close>

section \<open>Cutting a span\<close>

text \<open>The span \<open>s\<close> becomes its first part \<open>s'\<close> and the rest \<open>t\<close>, a new object \<open>q\<close>.\<close>

definition cuts :: "span \<Rightarrow> span \<Rightarrow> span \<Rightarrow> bool" where
  "cuts s s' t \<longleftrightarrow> start s' = start s \<and> 1 \<le> len s' \<and> 1 \<le> len t \<and> start t = start s + len s' \<and> len s' + len t = len s \<and>
     sizeclass s' = 0 \<and> sizeclass t = 0"

lemma cuts_pages: "cuts s s' t \<Longrightarrow> span_pages s = span_pages s' \<union> span_pages t" "cuts s s' t \<Longrightarrow> span_pages s' \<inter> span_pages t = {}"
  by (auto simp: cuts_def span_pages_def)

lemma cuts_mem: "cuts s s' t \<Longrightarrow> span_mem s' \<subseteq> span_mem s" "cuts s s' t \<Longrightarrow> span_mem t \<subseteq> span_mem s"
  by (auto simp: cuts_def span_mem_def)

lemma cut_cases:
  assumes "(S(q \<mapsto> t, p \<mapsto> s')) r = Some u"
  shows "r = p \<and> u = s' \<or> r \<noteq> p \<and> r = q \<and> u = t \<or> r \<noteq> p \<and> r \<noteq> q \<and> S r = Some u"
  using assms by (simp split: if_splits)

lemma cut_spans_ok:
  assumes ok: "spans_ok S" and S: "S p = Some s" "q \<notin> dom S" "q \<noteq> 0" and c: "cuts s s' t"
  shows "spans_ok (S(q \<mapsto> t, p \<mapsto> s'))"
proof -
  note D = spans_okD [OF ok]
  have b: "1 \<le> start s'" "1 \<le> len s'" "start s' + len s' < 2 ^ 35" "1 \<le> start t" "1 \<le> len t" "start t + len t < 2 ^ 35"
    using c D(3,4,5) [OF S(1)] by (auto simp: cuts_def)
  have pg: "span_pages s' \<inter> span_pages u = {}" "span_pages t \<inter> span_pages u = {}" if "S r = Some u" "r \<noteq> p" for r u
    using D(6) [OF that(1) S(1) that(2)] cuts_pages(1) [OF c] by blast+
  show ?thesis unfolding spans_ok_def
  proof (intro conjI allI impI)
    show "finite (dom (S(q \<mapsto> t, p \<mapsto> s')))" using D(1) by simp
    fix r u assume r: "(S(q \<mapsto> t, p \<mapsto> s')) r = Some u"
    show "r \<noteq> 0" using cut_cases [OF r] D(2) S(1,3) by blast
    show "1 \<le> start u" using cut_cases [OF r] D(3) b(1,4) by blast
    show "1 \<le> len u" using cut_cases [OF r] D(4) b(2,5) by blast
    show "start u + len u < 2 ^ 35" using cut_cases [OF r] D(5) b(3,6) by blast
    fix r' u' assume r': "(S(q \<mapsto> t, p \<mapsto> s')) r' = Some u'" "r \<noteq> r'"
    consider (a) "u = s'" "u' = t" | (b) "u = t" "u' = s'" | (c) "u = s'" "S r' = Some u'" "r' \<noteq> p"
      | (d) "u = t" "S r' = Some u'" "r' \<noteq> p" | (e) "u' = s'" "S r = Some u" "r \<noteq> p"
      | (f) "u' = t" "S r = Some u" "r \<noteq> p" | (g) "S r = Some u" "S r' = Some u'"
      using cut_cases [OF r] cut_cases [OF r'(1)] r'(2) by blast
    then show "span_pages u \<inter> span_pages u' = {}"
    proof cases
      case a then show ?thesis using cuts_pages(2) [OF c] by simp
    next
      case b then show ?thesis using cuts_pages(2) [OF c] by (simp add: Int_commute)
    next
      case c then show ?thesis using pg(1) by simp
    next
      case d then show ?thesis using pg(2) by simp
    next
      case e then show ?thesis using pg(1) by blast
    next
      case f then show ?thesis using pg(2) by blast
    next
      case g then show ?thesis by (rule D(6) [OF _ _ r'(2)])
    qed
  qed
qed

lemma cut_pmap_ok:
  assumes ok: "spans_ok S" and pm: "pmap_ok S pm" and S: "S p = Some s" "q \<notin> dom S" and c: "cuts s s' t" and cl: "sizeclass s = 0"
    and get: "\<And>k. PageMap2_get 35 pm' k = (if k = start s + len s' - 1 then p
        else if k = start t \<or> k = start t + len t - 1 then q else PageMap2_get 35 pm k)"
    and ens: "\<And>k. ens2 35 pm' k = ens2 35 pm k"
  shows "pmap_ok (S(q \<mapsto> t, p \<mapsto> s')) pm'"
proof -
  note D = spans_okD [OF ok] and P = pmap_okD [OF pm]
  have cc: "start s' = start s" "1 \<le> len s'" "1 \<le> len t" "start t = start s + len s'" "len s' + len t = len s"
    "sizeclass s' = 0" "sizeclass t = 0" using c by (auto simp: cuts_def)
  have ends: "PageMap2_get 35 pm' (start s') = p" "PageMap2_get 35 pm' (start s' + len s' - 1) = p"
    "PageMap2_get 35 pm' (start t) = q" "PageMap2_get 35 pm' (start t + len t - 1) = q"
    using cc P(2) [OF S(1)] by (auto simp: get)
  have e: "ens2 35 pm' k" if "start s \<le> k + 1" "k \<le> start s + len s" for k unfolding ens using that by (rule P(1) [OF S(1)])
  have touched: "k \<in> span_pages s" if "k = start s + len s' - 1 \<or> k = start t \<or> k = start t + len t - 1" for k
    using that cc by (auto simp: span_pages_def)
  have other: "PageMap2_get 35 pm' k = PageMap2_get 35 pm k" if "S r = Some u" "r \<noteq> p" "k \<in> span_pages u" for r u k
  proof -
    have "k \<notin> span_pages s" using D(6) [OF that(1) S(1) that(2)] that(3) by blast
    then show ?thesis using touched [of k] get [of k] by auto
  qed
  have inside: "start u \<in> span_pages u" "start u + len u - 1 \<in> span_pages u" if "S r = Some u" for r u
    using D(4) [OF that] by (auto simp: span_pages_def)
  show ?thesis unfolding pmap_ok_def
  proof (intro conjI allI impI ballI)
    fix r u assume r: "(S(q \<mapsto> t, p \<mapsto> s')) r = Some u"
    note c3 = cut_cases [OF r]
    show "ens2 35 pm' k" if "start u \<le> k + 1" "k \<le> start u + len u" for k
      using c3 that e [of k] cc P(1) [of r u k] ens [of k] by (elim disjE conjE) simp_all
    show "PageMap2_get 35 pm' (start u) = r"
      using c3 ends(1,3) P(2) [of r u] other [of r u, OF _ _ inside(1)] by (elim disjE conjE) simp_all
    show "PageMap2_get 35 pm' (start u + len u - 1) = r"
      using c3 ends(2,4) P(3) [of r u] other [of r u, OF _ _ inside(2)] by (elim disjE conjE) simp_all
    assume "sizeclass u \<noteq> 0"
    then have u: "r \<noteq> p" "S r = Some u" using c3 cc(6,7) by auto
    show "location u = IN_USE" using P(6) [OF u(2)] \<open>sizeclass u \<noteq> 0\<close> by blast
    show "PageMap2_get 35 pm' k = r" if "k \<in> span_pages u" for k
      using other [OF u(2,1) that] P(4) [OF u(2) \<open>sizeclass u \<noteq> 0\<close> that] by simp
  next
    fix k assume k: "PageMap2_get 35 pm' k \<noteq> 0"
    have "\<exists>r u. S r = Some u \<and> k \<in> span_pages u"
    proof (cases "k = start s + len s' - 1 \<or> k = start t \<or> k = start t + len t - 1")
      case True
      then show ?thesis using S(1) touched by blast
    next
      case False
      then have "PageMap2_get 35 pm k \<noteq> 0" using k get [of k] by simp
      then show ?thesis by (rule P(5))
    qed
    then obtain r u where r: "S r = Some u" "k \<in> span_pages u" by blast
    consider "r \<noteq> p" | "k \<in> span_pages s'" | "k \<in> span_pages t" using r S(1) cuts_pages(1) [OF c] by (metis UnE option.inject)
    then show "\<exists>p' s''. (S(q \<mapsto> t, p \<mapsto> s')) p' = Some s'' \<and> k \<in> span_pages s''"
    proof cases
      case 1
      moreover have "r \<noteq> q" using r(1) S(2) by blast
      ultimately show ?thesis using r by (intro exI [of _ r] exI [of _ u]) simp
    next
      case 2
      then show ?thesis by (intro exI [of _ p] exI [of _ s']) simp
    next
      case 3
      moreover have "q \<noteq> p" using S by blast
      ultimately show ?thesis by (intro exI [of _ q] exI [of _ t]) simp
    qed
  qed
qed

lemma hinvx_inuse_detached:
  assumes "hp_spans h q = Some t" "location t = IN_USE"
  shows "hinvx owned (insert q D) x h = hinvx owned D x h"
proof -
  have "at_loc (hp_spans h) (insert q D) loc = at_loc (hp_spans h) D loc" if "loc \<noteq> IN_USE" for loc
    using assms that by (auto simp: at_loc_def fun_eq_iff split: option.splits)
  then show ?thesis by (simp add: hinvx_def)
qed

lemma cut_hinv:
  assumes inv: "hinvx owned {} x h" and S: "hp_spans h p = Some s" "q \<notin> dom (hp_spans h)" "q \<noteq> 0" and c: "cuts s s' t"
    and loc: "location s = IN_USE" "location s' = IN_USE" and cl: "sizeclass s = 0"
    and get: "\<And>k. PageMap2_get 35 pm' k = (if k = start s + len s' - 1 then p
        else if k = start t \<or> k = start t + len t - 1 then q else PageMap2_get 35 (pagemap h) k)"
      "\<And>k. ens2 35 pm' k = ens2 35 (pagemap h) k"
    and mem: "mem_ok owned h'" and x: "x' + 8192 * returned_len t = x"
    and h': "hp_spans h' = (hp_spans h)(q \<mapsto> t, p \<mapsto> s')" "pagemap h' = pm'" "stats h' = stats h" "free_normal h' = free_normal h"
      "free_returned h' = free_returned h" "large_normal h' = large_normal h" "large_returned h' = large_returned h"
  shows "hinvx owned {q} x' h'"
proof -
  note I = hinvxD [OF inv]
  have qp: "q \<noteq> p" using S by blast
  have at: "at_loc ((hp_spans h)(q \<mapsto> t, p \<mapsto> s')) {q} loc = at_loc (hp_spans h) {} loc" if "loc \<noteq> IN_USE" for loc
    using that loc S by (auto simp: at_loc_def fun_eq_iff split: option.splits)
  have "at_loc ((hp_spans h)(q \<mapsto> t, p \<mapsto> s')) {} ON_RETURNED_FREELIST =
      (if location t = ON_RETURNED_FREELIST then (at_loc (hp_spans h) {} ON_RETURNED_FREELIST)(q \<mapsto> t) else at_loc (hp_spans h) {} ON_RETURNED_FREELIST)"
    using loc S by (auto simp: at_loc_def fun_eq_iff split: option.splits)
  moreover have "at_loc (hp_spans h) {} ON_RETURNED_FREELIST q = None" using S(2) by (auto simp: at_loc_def split: option.splits)
  ultimately have "tot (at_loc ((hp_spans h)(q \<mapsto> t, p \<mapsto> s')) {} ON_RETURNED_FREELIST) =
      tot (at_loc (hp_spans h) {} ON_RETURNED_FREELIST) + returned_len t"
    using tot_new [OF I(7)] by (simp add: returned_len_def)
  then show ?thesis
    using cut_spans_ok [OF I(1) S c] cut_pmap_ok [OF I(1,2) S(1,2) c cl get] I(3,4,6) mem x
    by (simp add: hinvx_def h' at)
qed


section \<open>New descriptors\<close>

text \<open>What an allocation keeps; \<open>k\<close> descriptors may have been used.\<close>

definition akeeps :: "nat \<Rightarrow> 'o heap \<Rightarrow> 'o heap \<Rightarrow> bool" where
  "akeeps k h h' \<longleftrightarrow> smallest_span_size h' = smallest_span_size h \<and> pagemap_cache h' = pagemap_cache h \<and>
     aggressive_decommit h' = aggressive_decommit h \<and> stacktrace_allocator h' = stacktrace_allocator h \<and>
     growth_stacks h' = growth_stacks h \<and>
     (\<forall>j. pha_room sizeof_Span (span_allocator h) (j + k) \<longrightarrow> pha_room sizeof_Span (span_allocator h') j)"

lemma akeeps_refl [simp]: "akeeps 0 h h"
  by (simp add: akeeps_def)

lemma akeeps_trans: "akeeps k h h' \<Longrightarrow> akeeps l h' h'' \<Longrightarrow> akeeps (k + l) h h''"
  by (simp add: akeeps_def ac_simps)

lemma keeps_akeeps: "keeps h h' \<Longrightarrow> akeeps 0 h h'"
  by (simp add: akeeps_def keeps_def)

lemma pha_room_less: "pha_room sz a k \<Longrightarrow> j \<le> k \<Longrightarrow> pha_room sz a j"
  by (auto simp: pha_room_def)

lemma akeeps_mono: "akeeps k h h' \<Longrightarrow> k \<le> l \<Longrightarrow> akeeps l h h'"
  using pha_room_less [of sizeof_Span "span_allocator h"] unfolding akeeps_def by (meson add_left_mono)

definition newspan_post :: "('o \<Rightarrow> nat set) \<Rightarrow> 'o heap \<Rightarrow> nat \<Rightarrow> nat \<Rightarrow> nat \<times> 'o heap \<Rightarrow> bool" where
  "newspan_post owned h a n = (\<lambda>(q, h'). q \<notin> dom (hp_spans h) \<and> q \<noteq> 0 \<and>
    h' = h\<lparr>span_allocator := span_allocator h', hp_meta := hp_meta h', hp_spans := (hp_spans h)(q \<mapsto> zero_span\<lparr>start := a, len := n\<rparr>)\<rparr> \<and>
    akeeps 1 h h' \<and>
    (\<forall>g :: 'o heap. span_allocator g = span_allocator h' \<longrightarrow> hp_meta g = hp_meta h' \<longrightarrow> dom (hp_spans g) = insert q (dom (hp_spans h)) \<longrightarrow>
      system_bytes (stats g) = system_bytes (stats h) \<longrightarrow>
      (\<forall>r u. hp_spans g r = Some u \<longrightarrow> (\<exists>p s. hp_spans h p = Some s \<and> span_mem u \<subseteq> span_mem s)) \<longrightarrow> mem_ok owned g))"

lemma heap_NewSpan_spec:
  fixes h :: "'o heap"
  assumes sane: "os_sane env owned" and mem: "mem_ok owned h" and room: "f \<or> pha_room sizeof_Span (span_allocator h) 1"
  shows "wpf f (heap_NewSpan env h a n) (newspan_post owned h a n)"
proof -
  obtain R where R: "alloc_inv owned sizeof_Span R (span_allocator h) (hp_meta h) (dom (hp_spans h))"
     "finite R" "card R = system_bytes (stats h)" "\<And>p s. hp_spans h p = Some s \<Longrightarrow> span_mem s \<subseteq> R"
    using mem by (auto simp: mem_ok_def)
  have sz: "0 < sizeof_Span" "sizeof_Span \<le> kAllocIncrement" by (simp_all add: tc_consts)
  have post: "newspan_post owned h a n (q, h\<lparr>span_allocator := al, hp_meta := m, hp_spans := (hp_spans h)(q \<mapsto> zero_span\<lparr>start := a, len := n\<rparr>)\<rparr>)"
    if q: "q \<notin> dom (hp_spans h)" "q \<noteq> 0" and al: "alloc_inv owned sizeof_Span R al m (insert q (dom (hp_spans h)))"
      "\<forall>k. pha_room sizeof_Span (span_allocator h) (Suc k) \<longrightarrow> pha_room sizeof_Span al k" for q al m
  proof -
    have "mem_ok owned g" if g: "span_allocator g = al" "hp_meta g = m" "dom (hp_spans g) = insert q (dom (hp_spans h))"
      "system_bytes (stats g) = system_bytes (stats h)"
      "\<forall>r u. hp_spans g r = Some u \<longrightarrow> (\<exists>p s. hp_spans h p = Some s \<and> span_mem u \<subseteq> span_mem s)" for g :: "'o heap"
      unfolding mem_ok_def
    proof (intro exI [of _ R] conjI allI impI)
      fix r u assume "hp_spans g r = Some u"
      with g(5) R(4) show "span_mem u \<subseteq> R" by blast
    qed (use g R al in auto)
    then show ?thesis using q al(2) by (simp add: newspan_post_def akeeps_def)
  qed
  show ?thesis unfolding heap_NewSpan_def NewSpan_def
    by (simp, rule wpf_conseq [OF PHA_New_spec [OF sane R(1) sz room]]) (auto intro!: post)
qed

lemma newspan_mem:
  fixes g h h' :: "'o heap"
  assumes "newspan_post owned h a n (q, h')" "span_allocator g = span_allocator h'" "hp_meta g = hp_meta h'"
    "hp_spans h p = Some s" "hp_spans g = (hp_spans h)(q \<mapsto> t, p \<mapsto> s')" "cuts s s' t" "system_bytes (stats g) = system_bytes (stats h)"
  shows "mem_ok owned g"
proof -
  have qp: "q \<noteq> p" using assms(1,4) by (auto simp: newspan_post_def)
  have "\<exists>p s. hp_spans h p = Some s \<and> span_mem u \<subseteq> span_mem s" if "hp_spans g r = Some u" for r u
    using cut_cases [where S = "hp_spans h", OF that [unfolded assms(5)]] assms(4) cuts_mem [OF assms(6)] by blast
  moreover have "dom (hp_spans g) = insert q (dom (hp_spans h))" using assms(4,5) by auto
  ultimately show ?thesis using assms(1-3,7) unfolding newspan_post_def by auto
qed

section \<open>Split and Carve\<close>

text \<open>The page map entries that both operations write.\<close>

lemma record_span:
  assumes "ens2 35 pm (start t)" "ens2 35 pm (start t + len t - 1)" "1 \<le> len t"
  obtains pm1 where "\<And>g :: 'o heap. pagemap g = pm \<Longrightarrow> hp_spans g q = Some t \<Longrightarrow> RecordSpan g q = Some (g\<lparr>pagemap := pm1\<rparr>)"
    "\<And>k. PageMap2_get 35 pm1 k = (if k = start t \<or> k = start t + len t - 1 then q else PageMap2_get 35 pm k)"
    "\<And>k. ens2 35 pm1 k = ens2 35 pm k"
proof -
  obtain pa where a: "\<And>g :: 'o heap. pagemap g = pm \<Longrightarrow> pagemap_set g (start t) q = Some (g\<lparr>pagemap := pa\<rparr>)"
    "\<And>k. PageMap2_get 35 pa k = (if k = start t then q else PageMap2_get 35 pm k)" "\<And>k. ens2 35 pa k = ens2 35 pm k"
    by (rule pagemap_set_spec [OF assms(1), where v = q]) (rule that)
  have "ens2 35 pa (start t + len t - 1)" using assms(2) a(3) by simp
  then obtain pb where b: "\<And>g :: 'o heap. pagemap g = pa \<Longrightarrow> pagemap_set g (start t + len t - 1) q = Some (g\<lparr>pagemap := pb\<rparr>)"
    "\<And>k. PageMap2_get 35 pb k = (if k = start t + len t - 1 then q else PageMap2_get 35 pa k)" "\<And>k. ens2 35 pb k = ens2 35 pa k"
    by (rule pagemap_set_spec [where v = q]) (rule that)
  define pm1 where "pm1 = (if len t > 1 then pb else pa)"
  have g1: "PageMap2_get 35 pm1 k = (if k = start t \<or> k = start t + len t - 1 then q else PageMap2_get 35 pm k)"
      "ens2 35 pm1 k = ens2 35 pm k" for k
    using assms(3) by (auto simp: pm1_def a b)
  have "RecordSpan g q = Some (g\<lparr>pagemap := pm1\<rparr>)" if "pagemap g = pm" "hp_spans g q = Some t" for g :: "'o heap"
    using that a(1) [of g] b(1) [of "g\<lparr>pagemap := pa\<rparr>"] by (simp add: RecordSpan_def pm1_def)
  with g1 show thesis by (intro that [of pm1]) simp_all
qed

lemma record_cut:
  assumes "ens2 35 pm (start t)" "ens2 35 pm (start t + len t - 1)" "ens2 35 pm j" "1 \<le> len t" "j \<noteq> start t" "j \<noteq> start t + len t - 1"
  obtains pm1 pm2 where "\<And>g :: 'o heap. pagemap g = pm \<Longrightarrow> hp_spans g q = Some t \<Longrightarrow> RecordSpan g q = Some (g\<lparr>pagemap := pm1\<rparr>)"
    "\<And>g :: 'o heap. pagemap g = pm1 \<Longrightarrow> pagemap_set g j p = Some (g\<lparr>pagemap := pm2\<rparr>)"
    "\<And>k. PageMap2_get 35 pm2 k = (if k = j then p else if k = start t \<or> k = start t + len t - 1 then q else PageMap2_get 35 pm k)"
    "\<And>k. ens2 35 pm2 k = ens2 35 pm k"
proof -
  obtain pm1 where g1: "\<And>g :: 'o heap. pagemap g = pm \<Longrightarrow> hp_spans g q = Some t \<Longrightarrow> RecordSpan g q = Some (g\<lparr>pagemap := pm1\<rparr>)"
    "\<And>k. PageMap2_get 35 pm1 k = (if k = start t \<or> k = start t + len t - 1 then q else PageMap2_get 35 pm k)"
    "\<And>k. ens2 35 pm1 k = ens2 35 pm k"
    by (rule record_span [OF assms(1,2,4), where q = q]) (rule that)
  have "ens2 35 pm1 j" using assms(3) g1(3) by simp
  then obtain pm2 where c: "\<And>g :: 'o heap. pagemap g = pm1 \<Longrightarrow> pagemap_set g j p = Some (g\<lparr>pagemap := pm2\<rparr>)"
    "\<And>k. PageMap2_get 35 pm2 k = (if k = j then p else PageMap2_get 35 pm1 k)" "\<And>k. ens2 35 pm2 k = ens2 35 pm1 k"
    by (rule pagemap_set_spec [where v = p]) (rule that)
  show thesis using c g1 by (intro that [of pm1 pm2]) simp_all
qed

text \<open>\<^verbatim>\<open>PrependToFreeList\<close> does not look at other spans or at the page map.\<close>

lemma Prepend_frame:
  assumes "q \<noteq> p"
  shows "PrependToFreeList (h\<lparr>hp_spans := (hp_spans h)(p \<mapsto> s'), pagemap := pm\<rparr>) q =
    map_option (\<lambda>g. g\<lparr>hp_spans := (hp_spans g)(p \<mapsto> s'), pagemap := pm\<rparr>) (PrependToFreeList h q)"
  using assms by (cases "hp_spans h q") (auto simp: PrependToFreeList_def Let_def SpanPtrWithLength_def)

lemma PrependToFreeList_frame:
  "PrependToFreeList h q = Some h' \<Longrightarrow> hp_spans h' = hp_spans h \<and> pagemap h' = pagemap h"
  by (cases "hp_spans h q") (auto simp: PrependToFreeList_def Let_def SpanPtrWithLength_def split: if_splits)

lemma Prepend_late:
  assumes "q \<noteq> p" "hp_spans h p = Some s" "\<And>g :: 'o heap. pagemap g = pagemap h \<Longrightarrow> pagemap_set g j p = Some (g\<lparr>pagemap := pm\<rparr>)"
  shows "do { h \<leftarrow> PrependToFreeList h q; h \<leftarrow> set_span h p u; pagemap_set h j p } =
    PrependToFreeList ((h :: 'o heap)\<lparr>hp_spans := (hp_spans h)(p \<mapsto> u s), pagemap := pm\<rparr>) q"
proof (cases "PrependToFreeList h q")
  case None
  then show ?thesis using Prepend_frame [OF assms(1), where h = h and s' = "u s" and pm = pm] by simp
next
  case (Some g)
  note fr = PrependToFreeList_frame [OF Some]
  have "pagemap_set (g\<lparr>hp_spans := (hp_spans h)(p \<mapsto> u s)\<rparr>) j p = Some (g\<lparr>hp_spans := (hp_spans h)(p \<mapsto> u s), pagemap := pm\<rparr>)"
    using assms(3) [of "g\<lparr>hp_spans := (hp_spans h)(p \<mapsto> u s)\<rparr>"] fr by simp
  then show ?thesis using Some fr assms(2) Prepend_frame [OF assms(1), where h = h and s' = "u s" and pm = pm] by (simp add: set_span_eq)
qed

text \<open>The rest of a span that is being carved goes back to the list it came from.\<close>

definition carve_rest :: "'o env \<Rightarrow> 'o heap \<Rightarrow> nat \<Rightarrow> span \<Rightarrow> nat \<Rightarrow> location \<Rightarrow> nat \<Rightarrow> 'o heap option" where
  "carve_rest env h p s n loc extra = do {
     (leftover, h) \<leftarrow> heap_NewSpan env h (start s + n) extra;
     h \<leftarrow> set_span h leftover (\<lambda>s. s\<lparr>location := loc\<rparr>);
     h \<leftarrow> RecordSpan h leftover;
     h \<leftarrow> PrependToFreeList h leftover;
     h \<leftarrow> set_span h p (\<lambda>s. s\<lparr>len := n\<rparr>);
     pagemap_set h (start s + n - 1) p }"

lemma carve_rest_spec:
  fixes h :: "'o heap"
  assumes sane: "os_sane env owned" and inv: "hinvx owned {} x h" and small: "os_small owned"
    and room: "f \<or> pha_room sizeof_Span (span_allocator h) 1"
    and p: "hp_spans h p = Some s" "location s = IN_USE" "sizeclass s = 0" and n: "1 \<le> n" "n < len s" and loc: "loc \<noteq> IN_USE"
    and x: "x = (if loc = ON_RETURNED_FREELIST then 8192 * len s else 0)"
  shows "wpf f (carve_rest env h p s n loc (len s - n)) (\<lambda>h'. hinvx owned {} (if loc = ON_RETURNED_FREELIST then 8192 * n else 0) h' \<and>
    akeeps 1 h h' \<and> hp_spans h' p = Some (s\<lparr>len := n\<rparr>) \<and> inuse h' = (inuse h)(p \<mapsto> s\<lparr>len := n\<rparr>) \<and>
    fu h' = fu h + 8192 * (len s - n) \<and> system_bytes (stats h') = system_bytes (stats h))"
proof -
  note I = hinvxD [OF inv]
  define t where "t = zero_span\<lparr>start := start s + n, len := len s - n, location := loc\<rparr>"
  define s' where "s' = s\<lparr>len := n\<rparr>"
  have c: "cuts s s' t" using n p(3) by (simp add: cuts_def s'_def t_def zero_span_def)
  have e: "ens2 35 (pagemap h) (start t)" "ens2 35 (pagemap h) (start t + len t - 1)" "ens2 35 (pagemap h) (start s + n - 1)"
    by (rule pmap_okD(1) [OF I(2) p(1)]; use n in \<open>simp add: t_def\<close>)+
  show ?thesis unfolding carve_rest_def wpf_bind
  proof (rule wpf_conseq [OF heap_NewSpan_spec [OF sane I(5) room]], clarify)
    fix q h1 assume post: "newspan_post owned h (start s + n) (len s - n) (q, h1)"
    then have q: "q \<notin> dom (hp_spans h)" "q \<noteq> 0" "akeeps 1 h h1" and h1: "h1 = h\<lparr>span_allocator := span_allocator h1, hp_meta := hp_meta h1,
        hp_spans := (hp_spans h)(q \<mapsto> zero_span\<lparr>start := start s + n, len := len s - n\<rparr>)\<rparr>" by (auto simp: newspan_post_def)
    obtain pm1 pm2 where pm: "\<And>g :: 'o heap. pagemap g = pagemap h \<Longrightarrow> hp_spans g q = Some t \<Longrightarrow> RecordSpan g q = Some (g\<lparr>pagemap := pm1\<rparr>)"
      "\<And>g :: 'o heap. pagemap g = pm1 \<Longrightarrow> pagemap_set g (start s + n - 1) p = Some (g\<lparr>pagemap := pm2\<rparr>)"
      "\<And>k. PageMap2_get 35 pm2 k = (if k = start s + n - 1 then p else if k = start t \<or> k = start t + len t - 1 then q else PageMap2_get 35 (pagemap h) k)"
      "\<And>k. ens2 35 pm2 k = ens2 35 (pagemap h) k"
      by (rule record_cut [OF e, where q = q and p = p]) (use n in \<open>auto simp: t_def\<close>)
    define h3 where "h3 = h\<lparr>span_allocator := span_allocator h1, hp_meta := hp_meta h1, hp_spans := (hp_spans h)(q \<mapsto> t), pagemap := pm1\<rparr>"
    define h4 where "h4 = h3\<lparr>hp_spans := (hp_spans h3)(p \<mapsto> s'), pagemap := pm2\<rparr>"
    have qp: "q \<noteq> p" using q(1) p(1) by blast
    have i4: "hinvx owned {q} (if loc = ON_RETURNED_FREELIST then 8192 * n else 0) h4"
    proof (rule cut_hinv [OF inv p(1) q(1,2) c p(2) _ p(3) _ pm(4)])
      show "mem_ok owned h4" by (rule newspan_mem [OF post, where p = p and s = s and s' = s' and t = t]) (simp_all add: h4_def h3_def p c)
    qed (use n p(2) x in \<open>simp_all add: h4_def h3_def s'_def t_def returned_len_def pm(3) diff_mult_distrib2\<close>)
    have q4: "hp_spans h4 q = Some t" using qp by (simp add: h4_def h3_def)
    have eq: "do { h \<leftarrow> set_span h1 q (\<lambda>s. s\<lparr>location := loc\<rparr>); h \<leftarrow> RecordSpan h q; h \<leftarrow> PrependToFreeList h q;
        h \<leftarrow> set_span h p (\<lambda>s. s\<lparr>len := n\<rparr>); pagemap_set h (start s + n - 1) p } = PrependToFreeList h4 q"
    proof -
      have s1: "set_span h1 q (\<lambda>s. s\<lparr>location := loc\<rparr>) = Some (h\<lparr>span_allocator := span_allocator h1, hp_meta := hp_meta h1, hp_spans := (hp_spans h)(q \<mapsto> t)\<rparr>)"
        by (subst h1, subst (2) h1) (simp add: set_span_def t_def)
      have s2: "RecordSpan (h\<lparr>span_allocator := span_allocator h1, hp_meta := hp_meta h1, hp_spans := (hp_spans h)(q \<mapsto> t)\<rparr>) q = Some h3"
        by (simp add: pm(1) h3_def)
      have "do { h \<leftarrow> PrependToFreeList h3 q; h \<leftarrow> set_span h p (\<lambda>s. s\<lparr>len := n\<rparr>); pagemap_set h (start s + n - 1) p } = PrependToFreeList h4 q"
        unfolding h4_def s'_def by (rule Prepend_late [OF qp]) (use qp p(1) pm(2) in \<open>simp_all add: h3_def\<close>)
      then show ?thesis by (simp only: s1 s2 bind.bind_lunit)
    qed
    have P: "wpo (PrependToFreeList h4 q) (\<lambda>h'. hinvx owned {} (if loc = ON_RETURNED_FREELIST then 8192 * n else 0) h' \<and> same_but_lists h4 h' \<and>
      free_bytes (stats h') = free_bytes (stats h4) + (if location t = ON_NORMAL_FREELIST then 8192 * len t else 0) \<and>
      unmapped_bytes (stats h') = unmapped_bytes (stats h4) + (if location t = ON_NORMAL_FREELIST then 0 else 8192 * len t))"
      using loc by (intro PrependToFreeList_spec [OF i4 small q4]) (simp_all add: t_def)
    have iu: "inuse h4 = (inuse h)(p \<mapsto> s\<lparr>len := n\<rparr>)"
      using qp p(2) q(1) loc by (auto simp: inuse_def h4_def h3_def s'_def t_def at_loc_def fun_eq_iff zero_span_def split: option.splits)
    have ak: "akeeps 1 h h4" using q(3) by (simp add: akeeps_def h4_def h3_def)
    have "wpf f (PrependToFreeList h4 q) (\<lambda>h'. hinvx owned {} (if loc = ON_RETURNED_FREELIST then 8192 * n else 0) h' \<and>
       akeeps 1 h h' \<and> hp_spans h' p = Some (s\<lparr>len := n\<rparr>) \<and> inuse h' = (inuse h)(p \<mapsto> s\<lparr>len := n\<rparr>) \<and>
       fu h' = fu h + 8192 * (len s - n) \<and> system_bytes (stats h') = system_bytes (stats h))"
    proof (rule wpo_wpf, rule wpo_conseq [OF P], elim conjE)
      fix h' assume h': "hinvx owned {} (if loc = ON_RETURNED_FREELIST then 8192 * n else 0) h'" "same_but_lists h4 h'"
        "free_bytes (stats h') = free_bytes (stats h4) + (if location t = ON_NORMAL_FREELIST then 8192 * len t else 0)"
        "unmapped_bytes (stats h') = unmapped_bytes (stats h4) + (if location t = ON_NORMAL_FREELIST then 0 else 8192 * len t)"
      have "akeeps (1 + 0) h h'" using ak h'(2) by (intro akeeps_trans [OF ak keeps_akeeps]) (simp add: same_but_lists_def)
      moreover have "inuse h' = inuse h4" "hp_spans h' = hp_spans h4" using h'(2) by (simp_all add: same_but_lists_def inuse_def)
      moreover have "fu h' = fu h4 + 8192 * len t" using h'(3,4) by (auto simp: fu_def)
      moreover have "system_bytes (stats h') = system_bytes (stats h4)" using h'(2) by (simp add: same_but_lists_def keeps_def)
      ultimately show "hinvx owned {} (if loc = ON_RETURNED_FREELIST then 8192 * n else 0) h' \<and>
       akeeps 1 h h' \<and> hp_spans h' p = Some (s\<lparr>len := n\<rparr>) \<and> inuse h' = (inuse h)(p \<mapsto> s\<lparr>len := n\<rparr>) \<and>
       fu h' = fu h + 8192 * (len s - n) \<and> system_bytes (stats h') = system_bytes (stats h)"
        using h'(1) iu by (simp add: h4_def h3_def s'_def t_def fu_def)
    qed
    then show "wpf f (do { h \<leftarrow> set_span h1 q (\<lambda>s. s\<lparr>location := loc\<rparr>); h \<leftarrow> RecordSpan h q; h \<leftarrow> PrependToFreeList h q;
        h \<leftarrow> set_span h p (\<lambda>s. s\<lparr>len := n\<rparr>); pagemap_set h (start s + n - 1) p })
      (\<lambda>h'. hinvx owned {} (if loc = ON_RETURNED_FREELIST then 8192 * n else 0) h' \<and>
       akeeps 1 h h' \<and> hp_spans h' p = Some (s\<lparr>len := n\<rparr>) \<and> inuse h' = (inuse h)(p \<mapsto> s\<lparr>len := n\<rparr>) \<and>
       fu h' = fu h + 8192 * (len s - n) \<and> system_bytes (stats h') = system_bytes (stats h))"
      unfolding eq .
  qed
qed


lemma Carve_rest: "Carve env h p n = do {
     s \<leftarrow> hp_spans h p;
     h \<leftarrow> RemoveFromFreeList h p;
     h \<leftarrow> set_span h p (\<lambda>s. s\<lparr>location := IN_USE\<rparr>);
     h \<leftarrow> (if int32_of (int (sub64 (len s) n)) > 0
           then carve_rest env h p s n (location s) (size_of_int (int32_of (int (sub64 (len s) n)))) else Some h);
     h \<leftarrow> (if location s = ON_RETURNED_FREELIST then CommitSpan h p else Some h);
     Some (p, h) }"
  by (simp only: Carve_def carve_rest_def Let_def)

text \<open>The outcome of taking \<open>n\<close> pages out of the free ones.\<close>

definition taken :: "('o \<Rightarrow> nat set) \<Rightarrow> nat \<Rightarrow> 'o heap \<Rightarrow> nat \<Rightarrow> nat \<Rightarrow> 'o heap \<Rightarrow> bool" where
  "taken owned k h n r h' \<longleftrightarrow> hinv owned {} h' \<and> akeeps k h h' \<and> r \<noteq> 0 \<and> r \<notin> dom (inuse h) \<and> fu h' + 8192 * n = fu h \<and>
     system_bytes (stats h') = system_bytes (stats h) \<and>
     (\<exists>s. inuse h' = (inuse h)(r \<mapsto> s) \<and> len s = n \<and> sizeclass s = 0)"

lemma CommitSpan_spec:
  assumes inv: "hinvx owned {} (8192 * len s) h" and small: "os_small owned" and p: "hp_spans h p = Some s"
  shows "wpo (CommitSpan h p) (\<lambda>h'. hinv owned {} h' \<and> keeps h h' \<and> hp_spans h' = hp_spans h \<and> fu h' = fu h)"
proof -
  note b = hinv_bounds [OF inv small] and pb = hinv_page_bytes [OF inv small p] and I = hinvxD [OF inv]
  have "committed_bytes (stats h) + 8192 * len s < 2 ^ 64" using b(1) I(6) by simp
  then show ?thesis using p pb I by (simp add: CommitSpan_def Let_def hinvx_def mem_ok_def keeps_def fu_def)
qed

lemma Carve_spec:
  fixes h :: "'o heap"
  assumes sane: "os_sane env owned" and inv: "hinv owned {} h" and small: "os_small owned"
    and room: "f \<or> pha_room sizeof_Span (span_allocator h) 1"
    and p: "hp_spans h p = Some s" "location s \<noteq> IN_USE" and n: "1 \<le> n" "n \<le> len s"
  shows "wpf f (Carve env h p n) (\<lambda>(r, h'). taken owned 1 h n r h')"
proof -
  note I = hinvxD [OF inv]
  define loc where "loc = location s"
  define s1 where "s1 = s\<lparr>location := IN_USE\<rparr>"
  have l31: "len s < 2 ^ 31" by (rule hinv_bounds(5) [OF inv small p(1)])
  have ex: "int32_of (int (sub64 (len s) n)) = int (len s - n)" "size_of_int (int (len s - n)) = len s - n"
    using l31 n by simp_all
  have cl: "sizeclass s = 0" by (rule pmap_okD(6) [OF I(2) p])
  have p0: "p \<noteq> 0" by (rule spans_okD(2) [OF I(1) p(1)])
  have pu: "p \<notin> dom (inuse h)" using p by (auto simp: inuse_def)
  have fin: "wpf f (do { h \<leftarrow> (if loc = ON_RETURNED_FREELIST then CommitSpan h3 p else Some h3); Some (p, h) }) (\<lambda>(r, h'). taken owned 1 h n r h')"
    if h3: "hinvx owned {} (if loc = ON_RETURNED_FREELIST then 8192 * n else 0) h3" "akeeps 1 h h3" "hp_spans h3 p = Some (s1\<lparr>len := n\<rparr>)"
      "inuse h3 = (inuse h)(p \<mapsto> s1\<lparr>len := n\<rparr>)" "fu h3 + 8192 * n = fu h" "system_bytes (stats h3) = system_bytes (stats h)" for h3 :: "'o heap"
  proof (cases "loc = ON_RETURNED_FREELIST")
    case True
    have "wpo (CommitSpan h3 p) (\<lambda>h'. hinv owned {} h' \<and> keeps h3 h' \<and> hp_spans h' = hp_spans h3 \<and> fu h' = fu h3)"
      using h3(1) True by (intro CommitSpan_spec [OF _ small h3(3)]) simp
    then have "wpf f (CommitSpan h3 p) (taken owned 1 h n p)"
    proof (rule wpo_wpf [THEN wpf_conseq], elim conjE)
      fix h' assume h': "hinv owned {} h'" "keeps h3 h'" "hp_spans h' = hp_spans h3" "fu h' = fu h3"
      have "akeeps (1 + 0) h h'" by (rule akeeps_trans [OF h3(2) keeps_akeeps [OF h'(2)]])
      then show "taken owned 1 h n p h'"
        using h' h3 p0 pu cl by (auto simp: taken_def inuse_def keeps_def s1_def)
    qed
    with True show ?thesis by simp
  next
    case False
    then show ?thesis using h3 p0 pu cl by (auto simp: taken_def s1_def)
  qed
  show ?thesis unfolding Carve_rest p(1) bind.bind_lunit ex wpf_bind [of f "RemoveFromFreeList h p"] loc_def [symmetric]
  proof (rule wpo_wpf [THEN wpf_conseq], rule RemoveFromFreeList_spec [OF inv small p(1) _ p(2)], simp, elim conjE)
    fix h1 assume h1: "hinvx owned (insert p {}) 0 h1" "same_but_lists h h1"
      "free_bytes (stats h1) + (if location s = ON_NORMAL_FREELIST then 8192 * len s else 0) = free_bytes (stats h)"
      "unmapped_bytes (stats h1) + (if location s = ON_NORMAL_FREELIST then 0 else 8192 * len s) = unmapped_bytes (stats h)"
    have p1: "hp_spans h1 p = Some s" using h1(2) p(1) by (simp add: same_but_lists_def)
    define h2 where "h2 = h1\<lparr>hp_spans := (hp_spans h1)(p \<mapsto> s1)\<rparr>"
    have i2: "hinvx owned {} (if loc = ON_RETURNED_FREELIST then 8192 * len s else 0) h2" unfolding h2_def
      by (rule upd_hinv [OF h1(1) p1]) (use p(2) cl in \<open>simp_all add: s1_def returned_len_def loc_def\<close>)
    have p2: "hp_spans h2 p = Some s1" "location s1 = IN_USE" "sizeclass s1 = 0" using cl by (simp_all add: h2_def s1_def)
    have u2: "inuse h2 = (inuse h)(p \<mapsto> s1)" using h1(2)
      by (auto simp: h2_def inuse_def same_but_lists_def s1_def at_loc_def fun_eq_iff)
    have "free_bytes (stats h1) + unmapped_bytes (stats h1) + 8192 * len s = free_bytes (stats h) + unmapped_bytes (stats h)"
      using h1(3,4) by (cases "location s = ON_NORMAL_FREELIST") simp_all
    then have k2: "akeeps 0 h h2" "fu h2 + 8192 * len s = fu h" "system_bytes (stats h2) = system_bytes (stats h)"
      "span_allocator h2 = span_allocator h"
      using h1 by (auto simp: h2_def akeeps_def same_but_lists_def keeps_def fu_def)
    have cr: "wpf f (carve_rest env h2 p s n loc (len s - n)) (\<lambda>h'. hinvx owned {} (if loc = ON_RETURNED_FREELIST then 8192 * n else 0) h' \<and>
      akeeps 1 h2 h' \<and> hp_spans h' p = Some (s1\<lparr>len := n\<rparr>) \<and> inuse h' = (inuse h2)(p \<mapsto> s1\<lparr>len := n\<rparr>) \<and>
      fu h' = fu h2 + 8192 * (len s - n) \<and> system_bytes (stats h') = system_bytes (stats h2))" if lt: "n < len s"
    proof -
      have "carve_rest env h2 p s n loc (len s - n) = carve_rest env h2 p s1 n loc (len s1 - n)" by (simp add: carve_rest_def s1_def)
      moreover have "len s1 = len s" by (simp add: s1_def)
      ultimately show ?thesis
        using carve_rest_spec [OF sane i2 small _ p2 n(1), of f loc] room k2(4) lt p(2) by (simp add: loc_def)
    qed
    show "wpf f (do { h \<leftarrow> set_span h1 p (\<lambda>s. s\<lparr>location := IN_USE\<rparr>);
        h \<leftarrow> (if int (len s - n) > 0 then carve_rest env h p s n loc (len s - n) else Some h);
        h \<leftarrow> (if loc = ON_RETURNED_FREELIST then CommitSpan h p else Some h); Some (p, h) }) (\<lambda>(r, h'). taken owned 1 h n r h')"
    proof (cases "n < len s")
      case True
      have "wpf f (carve_rest env h2 p s n loc (len s - n)) (\<lambda>h3. wpf f (do { h \<leftarrow> (if loc = ON_RETURNED_FREELIST then CommitSpan h3 p else Some h3); Some (p, h) }) (\<lambda>(r, h'). taken owned 1 h n r h'))"
      proof (rule wpf_conseq [OF cr [OF True]], elim conjE)
        fix h3 assume h3: "hinvx owned {} (if loc = ON_RETURNED_FREELIST then 8192 * n else 0) h3" "akeeps 1 h2 h3"
          "hp_spans h3 p = Some (s1\<lparr>len := n\<rparr>)" "inuse h3 = (inuse h2)(p \<mapsto> s1\<lparr>len := n\<rparr>)"
          "fu h3 = fu h2 + 8192 * (len s - n)" "system_bytes (stats h3) = system_bytes (stats h2)"
        have "akeeps (0 + 1) h h3" by (rule akeeps_trans [OF k2(1) h3(2)])
        moreover have "fu h3 + 8192 * n = fu h" using h3(5) k2(2) n True by (simp add: diff_mult_distrib2)
        ultimately show "wpf f (do { h \<leftarrow> (if loc = ON_RETURNED_FREELIST then CommitSpan h3 p else Some h3); Some (p, h) }) (\<lambda>(r, h'). taken owned 1 h n r h')"
          using h3 u2 k2(3) by (intro fin) simp_all
      qed
      moreover have "set_span h1 p (\<lambda>s. s\<lparr>location := IN_USE\<rparr>) = Some h2" using p1 by (simp add: set_span_eq h2_def s1_def)
      ultimately show ?thesis using True by (simp only: wpf_bind bind.bind_lunit) simp
    next
      case False
      then have e: "n = len s" using n by simp
      then have s1n: "s1\<lparr>len := n\<rparr> = s1" by (simp add: s1_def)
      have "wpf f (do { h \<leftarrow> (if loc = ON_RETURNED_FREELIST then CommitSpan h2 p else Some h2); Some (p, h) }) (\<lambda>(r, h'). taken owned 1 h n r h')"
        by (rule fin) (use i2 e k2 u2 p2 akeeps_mono [OF k2(1), of 1] s1n in \<open>simp_all split: if_splits\<close>)
      moreover have "set_span h1 p (\<lambda>s. s\<lparr>location := IN_USE\<rparr>) = Some h2" using p1 by (simp add: set_span_eq h2_def s1_def)
      ultimately show ?thesis using e by simp
    qed
  qed
qed


lemma Split_spec:
  fixes h :: "'o heap"
  assumes sane: "os_sane env owned" and inv: "hinv owned {} h" and small: "os_small owned"
    and room: "f \<or> pha_room sizeof_Span (span_allocator h) 1"
    and p: "hp_spans h p = Some s" "location s = IN_USE" "sizeclass s = 0" and n: "1 \<le> n" "n < len s"
  shows "wpf f (Split env h p n) (\<lambda>(q, h'). hinv owned {} h' \<and> akeeps 1 h h' \<and> q \<noteq> 0 \<and> q \<notin> dom (hp_spans h) \<and> fu h' = fu h \<and>
    system_bytes (stats h') = system_bytes (stats h) \<and>
    inuse h' = (inuse h)(p \<mapsto> s\<lparr>len := n\<rparr>, q \<mapsto> zero_span\<lparr>start := start s + n, len := len s - n\<rparr>))"
proof -
  note I = hinvxD [OF inv]
  define t where "t = zero_span\<lparr>start := start s + n, len := len s - n\<rparr>"
  define s' where "s' = s\<lparr>len := n\<rparr>"
  have l31: "len s < 2 ^ 31" by (rule hinv_bounds(5) [OF inv small p(1)])
  have ex: "int32_of (int (sub64 (len s) n)) = int (len s - n)" "size_of_int (int (len s - n)) = len s - n"
    using l31 n by simp_all
  have c: "cuts s s' t" using n p(3) by (simp add: cuts_def s'_def t_def zero_span_def)
  have e: "ens2 35 (pagemap h) (start t)" "ens2 35 (pagemap h) (start t + len t - 1)" "ens2 35 (pagemap h) (start s + n - 1)"
    by (rule pmap_okD(1) [OF I(2) p(1)]; use n in \<open>simp add: t_def\<close>)+
  show ?thesis unfolding Split_def p(1) bind.bind_lunit Let_def ex wpf_bind [of f "heap_NewSpan env h (start s + n) (len s - n)"]
  proof (rule wpf_conseq [OF heap_NewSpan_spec [OF sane I(5) room]], clarify)
    fix q h1 assume post: "newspan_post owned h (start s + n) (len s - n) (q, h1)"
    then have q: "q \<notin> dom (hp_spans h)" "q \<noteq> 0" "akeeps 1 h h1" and h1: "h1 = h\<lparr>span_allocator := span_allocator h1, hp_meta := hp_meta h1,
        hp_spans := (hp_spans h)(q \<mapsto> t)\<rparr>" by (auto simp: newspan_post_def t_def)
    have h1f: "pagemap h1 = pagemap h" "hp_spans h1 = (hp_spans h)(q \<mapsto> t)" "stats h1 = stats h" by (subst h1, simp)+
    obtain pm1 pm2 where pm: "\<And>g :: 'o heap. pagemap g = pagemap h \<Longrightarrow> hp_spans g q = Some t \<Longrightarrow> RecordSpan g q = Some (g\<lparr>pagemap := pm1\<rparr>)"
      "\<And>g :: 'o heap. pagemap g = pm1 \<Longrightarrow> pagemap_set g (start s + n - 1) p = Some (g\<lparr>pagemap := pm2\<rparr>)"
      "\<And>k. PageMap2_get 35 pm2 k = (if k = start s + n - 1 then p else if k = start t \<or> k = start t + len t - 1 then q else PageMap2_get 35 (pagemap h) k)"
      "\<And>k. ens2 35 pm2 k = ens2 35 (pagemap h) k"
      by (rule record_cut [OF e, where q = q and p = p]) (use n in \<open>auto simp: t_def\<close>)
    have qp: "q \<noteq> p" using q(1) p(1) by blast
    define h4 where "h4 = h\<lparr>span_allocator := span_allocator h1, hp_meta := hp_meta h1, hp_spans := (hp_spans h)(q \<mapsto> t, p \<mapsto> s'), pagemap := pm2\<rparr>"
    have eq: "do { h \<leftarrow> RecordSpan h1 q; h \<leftarrow> pagemap_set h (start s + n - 1) p; h \<leftarrow> set_span h p (\<lambda>s. s\<lparr>len := n\<rparr>); Some (q, h) } = Some (q, h4)"
    proof -
      have "RecordSpan h1 q = Some (h1\<lparr>pagemap := pm1\<rparr>)" by (rule pm(1)) (simp_all add: h1f)
      moreover have "pagemap_set (h1\<lparr>pagemap := pm1\<rparr>) (start s + n - 1) p = Some (h1\<lparr>pagemap := pm1, pagemap := pm2\<rparr>)" by (rule pm(2)) simp
      moreover have "h1\<lparr>pagemap := pm1, pagemap := pm2, hp_spans := (hp_spans h1)(p \<mapsto> s')\<rparr> = h4"
        unfolding h4_def by (subst h1) (simp add: h1f)
      ultimately show ?thesis using p(1) qp by (simp add: set_span_def h1f s'_def)
    qed
    have "hinvx owned {q} 0 h4"
    proof (rule cut_hinv [OF inv p(1) q(1,2) c p(2) _ p(3) _ pm(4)])
      show "mem_ok owned h4" by (rule newspan_mem [OF post, where p = p and s = s and s' = s' and t = t]) (simp_all add: h4_def p c)
    qed (use n p(2) in \<open>simp_all add: h4_def s'_def t_def returned_len_def pm(3) zero_span_def\<close>)
    moreover have "hp_spans h4 q = Some t" using qp by (simp add: h4_def)
    ultimately have "hinv owned {} h4" using hinvx_inuse_detached [of h4 q t owned "{}" 0] by (simp add: t_def zero_span_def)
    moreover have "inuse h4 = (inuse h)(p \<mapsto> s', q \<mapsto> t)"
      using qp p q(1) by (auto simp: inuse_def h4_def s'_def t_def at_loc_def fun_eq_iff zero_span_def split: option.splits)
    moreover have "akeeps 1 h h4" using q(3) by (simp add: akeeps_def h4_def)
    ultimately show "wpf f (do { h \<leftarrow> RecordSpan h1 q; h \<leftarrow> pagemap_set h (start s + n - 1) p; h \<leftarrow> set_span h p (\<lambda>s. s\<lparr>len := n\<rparr>); Some (q, h) })
      (\<lambda>(q, h'). hinv owned {} h' \<and> akeeps 1 h h' \<and> q \<noteq> 0 \<and> q \<notin> dom (hp_spans h) \<and> fu h' = fu h \<and> system_bytes (stats h') = system_bytes (stats h) \<and>
        inuse h' = (inuse h)(p \<mapsto> s\<lparr>len := n\<rparr>, q \<mapsto> zero_span\<lparr>start := start s + n, len := len s - n\<rparr>))"
      unfolding eq using q by (simp add: h4_def fu_def s'_def t_def)
  qed
qed

section \<open>Searching\<close>

text \<open>The outcome of a search: a span, or nothing and at most some memory returned to the system.\<close>

definition search_post :: "('o \<Rightarrow> nat set) \<Rightarrow> 'o heap \<Rightarrow> nat \<Rightarrow> nat \<times> 'o heap \<Rightarrow> bool" where
  "search_post owned h n = (\<lambda>(r, h'). (if r = 0 then \<exists>m. released owned h m h' else taken owned 1 h n r h'))"

lemma released_akeeps: "released owned h m h' \<Longrightarrow> akeeps 0 h h'"
  by (auto simp: released_def calm_def intro: keeps_akeeps)

lemma released_sys: "released owned h m h' \<Longrightarrow> system_bytes (stats h') = system_bytes (stats h)"
  by (simp add: released_def calm_def keeps_def)

lemma taken_after: "released owned h m h' \<Longrightarrow> taken owned k h' n r h'' \<Longrightarrow> taken owned k h n r h''"
  using akeeps_trans [OF released_akeeps, of owned h m h' k h''] released_sys [of owned h m h']
  by (auto simp: taken_def released_def calm_def)

lemma search_after: "released owned h m h' \<Longrightarrow> search_post owned h' n x \<Longrightarrow> search_post owned h n x"
  using taken_after [of owned h m h'] released_trans [of owned h m h'] by (fastforce simp: search_post_def split: prod.splits if_splits)

lemma EnsureLimit_progress:
  assumes sane: "os_sane env owned" and inv: "hinv owned {} h" and small: "os_small owned" and f: "f \<or> release_total env"
    and no: "EnsureLimit env h n False = Some (False, h0)"
  shows "wpf f (EnsureLimit env h n True) (\<lambda>(ok, h'). \<exists>m. released owned h m h' \<and> (ok \<longrightarrow> 0 < m))"
proof -
  have no': "\<not> (w64 (sub64 (drop_bit kPageShift (SystemTaken (meta_sys (hp_meta h)))) (drop_bit kPageShift (unmapped_bytes (stats h))) + n)
      \<le> drop_bit kPageShift (w64 (FLAGS_tcmalloc_heap_limit_mb env * 1024 * 1024)))"
     "drop_bit kPageShift (w64 (FLAGS_tcmalloc_heap_limit_mb env * 1024 * 1024)) \<noteq> 0"
    using no by (auto simp: EnsureLimit_def Let_def split: if_splits)
  have z: "w64 (sub64 (sub64 a b) 0 + n) = w64 (sub64 a b + n)" for a b n by (simp add: sub64_def w64_def)
  have R: "wpf f (ReleaseAtLeastNPages env h k) (\<lambda>(m, h'). released owned h m h')" for k
    by (rule wpf_conseq [OF ReleaseAtLeastNPages_spec [OF sane inv small f]]) (auto simp: released_at_least_def)
  show ?thesis unfolding EnsureLimit_def Let_def if_not_P [OF no'(2)] if_not_P [OF no'(1)]
    using no' z by (auto simp: not_le intro!: wpf_conseq [OF R]) (metis gr0I not_le z)+
qed

lemma released_room: "released owned h m h' \<Longrightarrow> pha_room sizeof_Span (span_allocator h) k \<Longrightarrow> pha_room sizeof_Span (span_allocator h') k"
  by (auto simp: released_def calm_def keeps_def)

lemma large_candidate:
  assumes "pool (at_loc S {} loc) fl lg b" "SpanSet_upper_bound \<lparr>sp_length = n, sp_start = 0, sp_span = 0\<rparr> lg = Some p" "loc \<noteq> IN_USE"
  shows "\<exists>s. S p = Some s \<and> location s \<noteq> IN_USE \<and> n \<le> len s"
proof -
  obtain e where "find (SpanBestFitLess \<lparr>sp_length = n, sp_start = 0, sp_span = 0\<rparr>) lg = Some e" "p = sp_span e"
    using assms(2) by (auto simp: SpanSet_upper_bound_def)
  then have e: "e \<in> set lg" "SpanBestFitLess \<lparr>sp_length = n, sp_start = 0, sp_span = 0\<rparr> e" "p = sp_span e"
    by (auto simp: find_Some_iff)
  have "e \<in> large_of (at_loc S {} loc)" using assms(1) e(1) by (simp add: pool_def)
  then obtain s where s: "at_loc S {} loc (sp_span e) = Some s" "e = the_ptr (sp_span e) s" unfolding large_of_def by blast
  have "sp_length e = len s" by (subst s(2)) simp
  then have "n \<le> len s" using e(2) by (auto simp: SpanBestFitLess_def split: if_splits)
  with s(1) e(3) assms(3) show ?thesis by auto
qed

lemma small_candidate:
  assumes "pool (at_loc S {} loc) fl lg b" "fl i = p # ps" "i < kMaxPages" "loc \<noteq> IN_USE"
  shows "\<exists>s. S p = Some s \<and> location s \<noteq> IN_USE \<and> len s = i + 1"
proof -
  have "p \<in> small_of (at_loc S {} loc) i" using assms(1-3) unfolding pool_def by (metis list.set_intros(1))
  with assms(4) show ?thesis by (auto simp: small_of_def)
qed

lemma Carve_search:
  assumes "os_sane env owned" "hinv owned {} h" "os_small owned" "f \<or> pha_room sizeof_Span (span_allocator h) 1"
    "\<exists>s. hp_spans h p = Some s \<and> location s \<noteq> IN_USE \<and> n \<le> len s" "1 \<le> n"
  shows "wpf f (Carve env h p n) (search_post owned h n)"
proof -
  obtain s where "hp_spans h p = Some s" "location s \<noteq> IN_USE" "n \<le> len s" using assms(5) by blast
  from Carve_spec [OF assms(1-4) this(1,2) assms(6) this(3)] show ?thesis
    by (rule wpf_conseq) (auto simp: search_post_def taken_def)
qed

lemma AllocLarge_spec:
  assumes sane: "os_sane env owned" and inv: "hinv owned {} h" and small: "os_small owned" and f: "f \<or> release_total env"
    and room: "f \<or> pha_room sizeof_Span (span_allocator h) 1" and n: "1 \<le> n"
  shows "wpf f (AllocLarge env h n) (search_post owned h n)"
  using inv room
proof (induction "free_bytes (stats h)" arbitrary: h rule: less_induct)
  case less
  note I = hinvxD [OF less.prems(1)]
  let ?b = "\<lparr>sp_length = n, sp_start = 0, sp_span = 0\<rparr>"
  define bn where "bn = SpanSet_upper_bound ?b (large_normal h)"
  define br where "br = SpanSet_upper_bound ?b (large_returned h)"
  have cn: "\<exists>s. hp_spans h b = Some s \<and> location s \<noteq> IN_USE \<and> n \<le> len s" if "bn = Some b" for b
    by (rule large_candidate [OF I(3)]) (use that in \<open>simp_all add: bn_def\<close>)
  have cr: "\<exists>s. hp_spans h b = Some s \<and> location s \<noteq> IN_USE \<and> n \<le> len s" if "br = Some b" for b
    by (rule large_candidate [OF I(4)]) (use that in \<open>simp_all add: br_def\<close>)
  note carve = Carve_search [OF sane less.prems(1) small less.prems(2) _ n]
  have r0: "released owned h 0 h" using less.prems(1) by (simp add: released_def)
  have best: "wpf f (case br of None \<Rightarrow> Some bn | Some c \<Rightarrow> (case bn of None \<Rightarrow> Some (Some c)
      | Some b \<Rightarrow> do { sc \<leftarrow> hp_spans h c; sb \<leftarrow> hp_spans h b; Some (if len sc < len sb then Some c else Some b) }))
    (\<lambda>best. best = bn \<or> (\<exists>c. best = br \<and> br = Some c))"
    using cn cr by (fastforce split: option.splits)
  have again: "wpf f (do { (ok, h) \<leftarrow> EnsureLimit env h n True; if ok then AllocLarge env h n else Some (0, h) }) (search_post owned h n)"
    if no: "EnsureLimit env h n False = Some (False, h)"
    unfolding wpf_bind
  proof (rule wpf_conseq [OF EnsureLimit_progress [OF sane less.prems(1) small f no]], clarify)
    fix ok h' m assume h': "released owned h m h'" "ok \<longrightarrow> 0 < m"
    show "wpf f (if ok then AllocLarge env h' n else Some (0, h')) (search_post owned h n)"
    proof (cases ok)
      case True
      have "wpf f (AllocLarge env h' n) (search_post owned h' n)"
        by (rule less.hyps) (use h' True less.prems(2) released_room [OF h'(1)] in \<open>auto simp: released_def\<close>)
      then show ?thesis using True search_after [OF h'(1)] by (auto elim: wpf_conseq)
    next
      case False
      with h'(1) show ?thesis by (auto simp: search_post_def)
    qed
  qed
  have ret: "wpf f (do { (ok, h) \<leftarrow> EnsureLimit env h n False; if ok then Carve env h c n
      else do { (ok, h) \<leftarrow> EnsureLimit env h n True; if ok then AllocLarge env h n else Some (0, h) } }) (search_post owned h n)"
    if c: "br = Some c" for c
    unfolding wpf_bind [of f "EnsureLimit env h n False"]
  proof (rule wpf_conseq [OF EnsureLimit_spec [OF sane less.prems(1) small f, where w = False]], clarify)
    fix ok h' assume e: "EnsureLimit env h n False = Some (ok, h')" and "\<not> False \<longrightarrow> h' = h"
    then have "h' = h" by simp
    with e again carve [OF cr [OF c]] show "wpf f (if ok then Carve env h' c n
      else do { (ok, h) \<leftarrow> EnsureLimit env h' n True; if ok then AllocLarge env h n else Some (0, h) }) (search_post owned h n)"
      by (cases ok) simp_all
  qed
  show ?case unfolding AllocLarge.simps [of env h n] Let_def bn_def [symmetric] br_def [symmetric] wpf_bind [of f "case br of None \<Rightarrow> _ | Some c \<Rightarrow> _ c"]
  proof (rule wpf_conseq [OF best], goal_cases)
    case (1 best)
    show ?case
    proof (cases "best = bn")
      case True
      then show ?thesis using carve [OF cn] r0 by (cases bn) (auto simp: search_post_def)
    next
      case False
      with 1(2) obtain c where c: "best = Some c" "br = Some c" by auto
      show ?thesis using ret [OF c(2)] False unfolding c(1) option.sel by simp
    qed
  qed
qed

lemma search_lists_spec:
  assumes sane: "os_sane env owned" and inv: "hinv owned {} h" and small: "os_small owned" and f: "f \<or> release_total env"
    and room: "f \<or> pha_room sizeof_Span (span_allocator h) 1" and n: "1 \<le> n" "n \<le> s"
  shows "wpf f (search_lists env h n s) (search_post owned h n)"
  using inv room n(2)
proof (induction "kMaxPages + 1 - s" arbitrary: h s)
  case 0
  then show ?case using AllocLarge_spec [OF sane _ small f _ n(1)] by (subst search_lists.simps) simp
next
  case (Suc k)
  note I = hinvxD [OF Suc.prems(1)]
  have s: "s \<le> kMaxPages" "s - 1 < kMaxPages" "s - 1 + 1 = s" using Suc.hyps(2) Suc.prems(3) n(1) by simp_all
  have next': "wpf f (search_lists env h' n (s + 1)) (search_post owned h n)" if h': "released owned h m h'" for m h'
  proof (rule wpf_conseq [OF Suc.hyps(1)])
    show "k = kMaxPages + 1 - (s + 1)" using Suc.hyps(2) by simp
    show "hinv owned {} h'" "f \<or> pha_room sizeof_Span (span_allocator h') 1" "n \<le> s + 1"
      using h' Suc.prems released_room [OF h'] by (auto simp: released_def)
  qed (rule search_after [OF h'])
  have r0: "released owned h 0 h" using Suc.prems(1) by (simp add: released_def)
  have ret: "wpf f (do { (ok, h) \<leftarrow> EnsureLimit env h n True;
      (if ok then (case free_returned h (s - 1) of x # _ \<Rightarrow> Carve env h x n | [] \<Rightarrow> search_lists env h n (s + 1))
       else search_lists env h n (s + 1)) }) (search_post owned h n)"
    unfolding wpf_bind
  proof (rule wpf_conseq [OF EnsureLimit_spec [OF sane Suc.prems(1) small f]], clarify)
    fix ok h' m assume h': "released owned h m h'"
    have inv': "hinv owned {} h'" using h' by (simp add: released_def)
    have "wpf f (Carve env h' x n) (search_post owned h n)" if "free_returned h' (s - 1) = x # xs" for x xs
    proof (rule wpf_conseq [OF Carve_search [OF sane inv' small]])
      show "f \<or> pha_room sizeof_Span (span_allocator h') 1" using Suc.prems(2) released_room [OF h'] by auto
      show "\<exists>t. hp_spans h' x = Some t \<and> location t \<noteq> IN_USE \<and> n \<le> len t"
        using small_candidate [OF hinvxD(4) [OF inv'] that s(2)] s(3) Suc.prems(3) by auto
    qed (use n search_after [OF h'] in auto)
    then show "wpf f (if ok then (case free_returned h' (s - 1) of x # _ \<Rightarrow> Carve env h' x n | [] \<Rightarrow> search_lists env h' n (s + 1))
       else search_lists env h' n (s + 1)) (search_post owned h n)" using next' [OF h'] by (auto split: list.splits)
  qed
  show ?case
  proof (cases "free_normal h (s - 1)")
    case Nil
    show ?thesis
    proof (cases "free_returned h (s - 1) = []")
      case True
      then show ?thesis using s(1) Nil next' [OF r0] by (subst search_lists.simps) simp
    next
      case False
      then show ?thesis using s(1) Nil ret by (subst search_lists.simps) (simp only: if_True list.case simp_thms)
    qed
  next
    case (Cons x xs)
    have "\<exists>t. hp_spans h x = Some t \<and> location t \<noteq> IN_USE \<and> n \<le> len t"
      using small_candidate [OF I(3) Cons s(2)] s(3) Suc.prems(3) by auto
    then show ?thesis using s(1) Cons Carve_search [OF sane Suc.prems(1) small Suc.prems(2) _ n(1)] by (subst search_lists.simps) simp
  qed
qed

end
