(* ===== verification/HeapGrow.thy ===== *)
theory HeapGrow
  imports HeapAlloc
begin

text \<open>
  Growing the heap (\<^verbatim>\<open>GrowHeap\<close>) and handing out spans (\<^verbatim>\<open>NewLocked\<close>, \<^verbatim>\<open>NewWithSizeClass\<close>, the parts of \<^verbatim>\<open>NewAligned\<close>): a
  span that is returned has the pages asked for and the size class asked for, nothing else that is in use changes,
  and the bytes of a new region are disjoint from the metadata and from every span.
\<close>

section \<open>Memory from the system\<close>

text \<open>The metadata allocator survives \<^verbatim>\<open>Ensure\<close>, whatever the page map asks for.\<close>

lemma Ensure_meta:
  assumes sane: "os_sane env owned" and ens: "PageMap2_Ensure 35 (meta_allocator env) pm (Some m) x n = (ok, pm', mo)"
    and inv: "alloc_inv owned sz R a m L"
  shows "\<exists>m'. mo = Some m' \<and> alloc_inv owned sz R a m' L"
proof -
  let ?st = "PageMap2_Ensure_step 35 (meta_allocator env)"
  have step: "\<exists>m2. mo2 = Some m2 \<and> alloc_inv owned sz R a m2 L" if st: "?st pm1 (Some m1) key = (go, pm2, mo2)" and i: "alloc_inv owned sz R a m1 L"
    for pm1 m1 key go pm2 mo2
  proof -
    obtain p2 m2 where m2: "MetaDataAlloc env m1 (8 * LEAF_LENGTH2 35) = Some (p2, m2)" "alloc_inv owned sz R a m2 L"
      using alloc_inv_MetaDataAlloc [OF sane i, of "8 * LEAF_LENGTH2 35"] by (auto simp: wpo_def pm2_consts split: option.splits prod.splits)
    then show ?thesis using st i
      by (auto simp: PageMap2_Ensure_step_def Let_def meta_allocator_def split: if_splits option.splits prod.splits)
  qed
  have "radix_Ensure ?st lb pm1 (Some m1) key lk = (ok, pm', mo) \<Longrightarrow> alloc_inv owned sz R a m1 L \<Longrightarrow>
      \<exists>m'. mo = Some m' \<and> alloc_inv owned sz R a m' L" for lb pm1 m1 key lk
  proof (induction pm1 "Some m1" key arbitrary: m1 rule: radix_Ensure_induct [where lk = lk and st = ?st and lb = lb])
    case (1 root key)
    obtain go r b where st: "?st root (Some m1) key = (go, r, b)" by (metis prod_cases3)
    obtain m2 where b: "b = Some m2" "alloc_inv owned sz R a m2 L" using step [OF st "1.prems"(2)] by blast
    show ?case
    proof (cases "key \<le> lk \<and> go")
      case True
      have rest: "radix_Ensure ?st lb r (Some m2) (push_bit lb (drop_bit lb key + 1)) lk = (ok, pm', mo)"
        using "1.prems"(1) st b True by (subst (asm) radix_Ensure_cases) simp
      show ?thesis by (rule "1.hyps" [OF _ _ rest b(2)]) (use True st b in auto)
    next
      case False
      then show ?thesis using "1.prems" st b by (subst (asm) radix_Ensure_cases) (auto split: if_splits)
    qed
  qed
  with ens inv show ?thesis unfolding PageMap2_Ensure_def by blast
qed

text \<open>A region \<open>N\<close> of whole pages that the process owns and that is neither metadata nor part of the heap.\<close>

definition spare :: "('o \<Rightarrow> nat set) \<Rightarrow> 'o heap \<Rightarrow> nat set \<Rightarrow> bool" where
  "spare owned h N \<longleftrightarrow> (\<exists>R. alloc_inv owned sizeof_Span (R \<union> N) (span_allocator h) (hp_meta h) (dom (hp_spans h)) \<and>
     R \<inter> N = {} \<and> finite R \<and> card R = system_bytes (stats h) \<and> (\<forall>p s. hp_spans h p = Some s \<longrightarrow> span_mem s \<subseteq> R))"

text \<open>The heap did nothing but return memory and talk to the system.\<close>

definition quiet :: "('o \<Rightarrow> nat set) \<Rightarrow> nat \<Rightarrow> 'o heap \<Rightarrow> 'o heap \<Rightarrow> bool" where
  "quiet owned k h h' \<longleftrightarrow> hinv owned {} h' \<and> akeeps k h h' \<and> inuse h' = inuse h"

lemma quiet_trans: "quiet owned k h h' \<Longrightarrow> quiet owned l h' h'' \<Longrightarrow> quiet owned (k + l) h h''"
  by (auto simp: quiet_def intro: akeeps_trans)

lemma released_quiet: "released owned h m h' \<Longrightarrow> quiet owned 0 h h'"
  by (auto simp: quiet_def released_def calm_def intro: keeps_akeeps)

definition asked :: "('o \<Rightarrow> nat set) \<Rightarrow> 'o heap \<Rightarrow> nat \<Rightarrow> (nat \<times> nat) option \<times> 'o heap \<Rightarrow> bool" where
  "asked owned h n = (\<lambda>(r, h'). quiet owned 0 h h' \<and> fu h' = fu h \<and>
     (\<forall>ptr act. r = Some (ptr, act) \<longrightarrow> (\<exists>p k. ptr = 8192 * p \<and> act = 8192 * k \<and> 1 \<le> p \<and> n \<le> k \<and> p + k \<le> 2 ^ 35 \<and>
        spare owned h' (bytes_at ptr act))))"

lemma grow_ask_spec:
  assumes sane: "os_sane env owned" and inv: "hinv owned {} h" and small: "os_small owned" and f: "f \<or> release_total env"
    and n: "1 \<le> n" "n \<le> kMaxValidPages"
  shows "wpf f (grow_ask env h n) (asked owned h n)"
  unfolding grow_ask_def wpf_bind
proof (rule wpf_conseq [OF EnsureLimit_spec [OF sane inv small f]], clarify)
  fix ok m h1 assume r: "released owned h m h1"
  have i1: "hinv owned {} h1" and q1: "quiet owned 0 h h1" using r released_quiet by (auto simp: released_def)
  note I = hinvxD [OF i1]
  obtain R where R: "alloc_inv owned sizeof_Span R (span_allocator h1) (hp_meta h1) (dom (hp_spans h1))"
     "finite R" "card R = system_bytes (stats h1)" "\<And>p s. hp_spans h1 p = Some s \<Longrightarrow> span_mem s \<subseteq> R"
    using I(5) by (auto simp: mem_ok_def)
  have pb: "page_bytes n = 8192 * n" "0 < page_bytes n" "page_bytes n < 2 ^ 64"
    using n by (simp_all add: page_bytes_small tc_consts)
  have al: "kPageSize = 2 ^ 13" by (simp add: tc_consts)
  from SystemAlloc_spec [OF sane al pb(2,3), of "meta_sys (hp_meta h1)"]
  obtain x s where s: "TCMalloc_SystemAlloc env (meta_sys (hp_meta h1)) (page_bytes n) kPageSize = Some (x, s)"
    "alloc_spec (owned (sys_os (meta_sys (hp_meta h1)))) (owned (sys_os s)) (page_bytes n) kPageSize x" by (auto simp: wpo_def split: option.splits prod.splits)
  define h2 where "h2 = h1\<lparr>hp_meta := (hp_meta h1)\<lparr>meta_sys := s\<rparr>\<rparr>"
  have mono: "owned (sys_os (meta_sys (hp_meta h1))) \<subseteq> owned (sys_os s)" using s(2) by (simp add: alloc_spec_def)
  have "mem_ok owned h2" unfolding mem_ok_def
    by (intro exI [of _ R]) (use R alloc_inv_sys_mono [OF R(1) mono] in \<open>auto simp: h2_def\<close>)
  then have "hinv owned {} h2" using I by (simp add: hinvx_def h2_def)
  then have q2: "quiet owned 0 h h2" using q1 by (simp add: quiet_def akeeps_def h2_def inuse_def)
  have fu: "fu h2 = fu h" "fu h1 = fu h" using r by (simp_all add: released_def h2_def fu_def)
  have "asked owned h n (x, h2)" unfolding asked_def
  proof (clarsimp simp: q2 fu)
    fix ptr act assume "x = Some (ptr, act)"
    then have fr: "fresh_region (owned (sys_os (meta_sys (hp_meta h1)))) (owned (sys_os s)) (page_bytes n) kPageSize ptr act"
      using s(2) by (simp add: alloc_spec_def)
    then obtain p k where pk: "ptr = 8192 * p" "act = 8192 * k" unfolding fresh_region_def kPageSize_def by (auto simp: tc_consts dvd_def)
    have "1 \<le> p" "n \<le> k" "p + k \<le> 2 ^ 35" using fr unfolding pk fresh_region_def pb(1) by (auto simp: tc_consts)
    moreover have "spare owned h2 (bytes_at ptr act)" unfolding spare_def
      by (intro exI [of _ R]) (use R alloc_inv_system [OF R(1) mono fr] in \<open>auto simp: h2_def\<close>)
    ultimately show "\<exists>p. ptr = 8192 * p \<and> (\<exists>k. act = 8192 * k \<and> Suc 0 \<le> p \<and> n \<le> k \<and> p + k \<le> 34359738368 \<and> spare owned h2 (bytes_at ptr act))"
      using pk by auto
  qed
  then show "wpf f (if ok then do { (r, s) \<leftarrow> TCMalloc_SystemAlloc env (meta_sys (hp_meta h1)) (page_bytes n) kPageSize;
       Some (r, h1\<lparr>hp_meta := (hp_meta h1)\<lparr>meta_sys := s\<rparr>\<rparr>) } else Some (None, h1)) (asked owned h n)"
    using q1 s(1) fu by (auto simp: h2_def asked_def)
qed

section \<open>A new span\<close>

lemma byte_of_page: "j \<in> span_pages s \<Longrightarrow> 8192 * j \<in> span_mem s"
  by (auto simp: span_pages_def span_mem_def)

lemma fresh_pages:
  assumes "span_mem s \<inter> bytes_at (8192 * p) (8192 * k) = {}" "j \<in> span_pages s"
  shows "\<not> (p \<le> j \<and> j < p + k)"
  using assms(1) byte_of_page [OF assms(2)] by auto

lemma fresh_span_hinv:
  assumes inv: "hinv owned {} h" and t: "start t = p" "len t = k" "sizeclass t = 0" "location t = IN_USE" "1 \<le> p" "1 \<le> k" "p + k < 2 ^ 35"
    and q: "q \<notin> dom (hp_spans h)" "q \<noteq> 0"
    and fr: "\<And>r s. hp_spans h r = Some s \<Longrightarrow> span_mem s \<inter> bytes_at (8192 * p) (8192 * k) = {}"
    and h': "hp_spans h' = (hp_spans h)(q \<mapsto> t)"
      "\<And>j. PageMap2_get 35 (pagemap h') j = (if j = p \<or> j = p + k - 1 then q else PageMap2_get 35 (pagemap h) j)"
      "\<And>j. ens2 35 (pagemap h) j \<Longrightarrow> ens2 35 (pagemap h') j" "\<And>j. p \<le> j + 1 \<Longrightarrow> j \<le> p + k \<Longrightarrow> ens2 35 (pagemap h') j"
      "free_normal h' = free_normal h" "large_normal h' = large_normal h" "free_returned h' = free_returned h" "large_returned h' = large_returned h"
      "free_bytes (stats h') = free_bytes (stats h)" "unmapped_bytes (stats h') = unmapped_bytes (stats h)"
      "committed_bytes (stats h') = committed_bytes (stats h) + c" "system_bytes (stats h') = system_bytes (stats h) + c" "mem_ok owned h'"
  shows "hinv owned {} h'"
proof -
  note I = hinvxD [OF inv]
  have old: "\<not> (p \<le> j \<and> j < p + k)" if "hp_spans h r = Some s" "j \<in> span_pages s" for r s j
    by (rule fresh_pages [OF fr [OF that(1)] that(2)])
  have tp: "span_pages t = {p..<p + k}" using t by (simp add: span_pages_def)
  have dj: "span_pages s \<inter> span_pages t = {}" if "hp_spans h r = Some s" for r s
    using old [OF that] unfolding tp by fastforce
  have so: "spans_ok (hp_spans h')" unfolding spans_ok_def h'(1)
  proof (intro conjI allI impI)
    show "finite (dom ((hp_spans h)(q \<mapsto> t)))" using I(1) by (simp add: spans_ok_def)
    fix r u v assume u: "((hp_spans h)(q \<mapsto> t)) r = Some u"
    then show "r \<noteq> 0" "1 \<le> start u" "1 \<le> len u" "start u + len u < 2 ^ 35"
      using spans_okD(2-5) [OF I(1), of r u] t q(2) by (auto split: if_splits)
    fix r' assume v: "((hp_spans h)(q \<mapsto> t)) r' = Some v" "r \<noteq> r'"
    show "span_pages u \<inter> span_pages v = {}"
      using u v dj [of r u] dj [of r' v] spans_okD(6) [OF I(1), of r u r' v] by (auto split: if_splits)
  qed
  have bnd: "start s \<in> span_pages s" "start s + len s - 1 \<in> span_pages s" if "hp_spans h r = Some s" for r s
    using spans_okD(4) [OF I(1) that] by (auto simp: span_pages_def)
  have keep: "PageMap2_get 35 (pagemap h') j = PageMap2_get 35 (pagemap h) j" if "hp_spans h r = Some s" "j \<in> span_pages s" for r s j
    using old [OF that] t(6) unfolding h'(2) by auto
  have "pmap_ok (hp_spans h') (pagemap h')" unfolding pmap_ok_def
  proof (intro conjI allI impI)
    fix r u assume u: "hp_spans h' r = Some u"
    show "ens2 35 (pagemap h') j" if "start u \<le> j + 1" "j \<le> start u + len u" for j
      using u that t(1,2) h'(3) [OF pmap_okD(1) [OF I(2), of r u j]] h'(4) [of j] by (auto simp: h'(1) split: if_splits)
    show "PageMap2_get 35 (pagemap h') (start u) = r" "PageMap2_get 35 (pagemap h') (start u + len u - 1) = r"
      using u t(1,2) keep [of r u] bnd [of r u] pmap_okD(2,3) [OF I(2), of r u] by (auto simp: h'(1) split: if_splits) (simp_all add: h'(2))
    assume c: "sizeclass u \<noteq> 0"
    then have r: "hp_spans h r = Some u" using u t(3) by (auto simp: h'(1) split: if_splits)
    show "location u = IN_USE" using pmap_okD(6) [OF I(2) r] c by blast
    show "\<forall>j \<in> span_pages u. PageMap2_get 35 (pagemap h') j = r" using keep [OF r] pmap_okD(4) [OF I(2) r c] by simp
  next
    fix j assume j: "PageMap2_get 35 (pagemap h') j \<noteq> 0"
    show "\<exists>r u. hp_spans h' r = Some u \<and> j \<in> span_pages u"
    proof (cases "j = p \<or> j = p + k - 1")
      case True
      then have "j \<in> span_pages t" using t(6) by (auto simp: tp)
      then show ?thesis using h'(1) by auto
    next
      case False
      then obtain r u where ru: "hp_spans h r = Some u" "j \<in> span_pages u" using pmap_okD(5) [OF I(2), of j] j h'(2) by auto
      moreover have "r \<noteq> q" using ru(1) q(1) by blast
      ultimately show ?thesis using h'(1) by auto
    qed
  qed
  moreover have "at_loc (hp_spans h') {} loc = at_loc (hp_spans h) {} loc" if "loc \<noteq> IN_USE" for loc
    using that t(4) q(1) unfolding h'(1) at_loc_upd by (auto simp: fun_eq_iff at_loc_def split: option.splits)
  ultimately show ?thesis using so h' I by (simp add: hinvx_def)
qed

definition newspan_alloc :: "('o \<Rightarrow> nat set) \<Rightarrow> nat set \<Rightarrow> 'o heap \<Rightarrow> nat \<Rightarrow> nat \<Rightarrow> nat \<times> 'o heap \<Rightarrow> bool" where
  "newspan_alloc owned R h a n = (\<lambda>(q, h'). q \<notin> dom (hp_spans h) \<and> q \<noteq> 0 \<and> akeeps 1 h h' \<and>
    alloc_inv owned sizeof_Span R (span_allocator h') (hp_meta h') (insert q (dom (hp_spans h))) \<and>
    h' = h\<lparr>span_allocator := span_allocator h', hp_meta := hp_meta h', hp_spans := (hp_spans h)(q \<mapsto> zero_span\<lparr>start := a, len := n\<rparr>)\<rparr>)"

lemma heap_NewSpan_alloc:
  fixes h :: "'o heap"
  assumes sane: "os_sane env owned" and R: "alloc_inv owned sizeof_Span R (span_allocator h) (hp_meta h) (dom (hp_spans h))"
    and room: "f \<or> pha_room sizeof_Span (span_allocator h) 1"
  shows "wpf f (heap_NewSpan env h a n) (newspan_alloc owned R h a n)"
proof -
  have sz: "0 < sizeof_Span" "sizeof_Span \<le> kAllocIncrement" by (simp_all add: tc_consts)
  show ?thesis unfolding heap_NewSpan_def NewSpan_def
    by (simp, rule wpf_conseq [OF PHA_New_spec [OF sane R sz room]]) (auto simp: akeeps_def newspan_alloc_def)
qed

section \<open>GrowHeap\<close>

text \<open>The part of \<^verbatim>\<open>GrowHeap\<close> after the system has given memory.\<close>

definition grow_rest :: "'o env \<Rightarrow> 'o heap \<Rightarrow> nat \<Rightarrow> nat \<Rightarrow> nat \<Rightarrow> (bool \<times> nat \<times> 'o heap) option" where
  "grow_rest env h grown_by ptr actual_size = do {
     let ask = drop_bit kPageShift actual_size;
     let grown_by = w64 (grown_by + page_bytes ask);
     let st = stats h;
     let old_system_bytes = system_bytes st;
     let st = st\<lparr>reserve_count := w64 (reserve_count st + 1), commit_count := w64 (commit_count st + 1),
       system_bytes := w64 (system_bytes st + page_bytes ask),
       committed_bytes := w64 (committed_bytes st + page_bytes ask),
       total_commit_bytes := w64 (total_commit_bytes st + page_bytes ask),
       total_reserve_bytes := w64 (total_reserve_bytes st + page_bytes ask)\<rparr>;
     let h = h\<lparr>stats := st\<rparr>;
     let p = drop_bit kPageShift ptr;
     let (pm, mo) =
       (if old_system_bytes < kPageMapBigAllocationThreshold \<and> system_bytes st \<ge> kPageMapBigAllocationThreshold
        then PageMap2_PreallocateMoreMemory kPageMapBits (meta_allocator env) (pagemap h) (Some (hp_meta h))
        else (pagemap h, Some (hp_meta h)));
     let (ok, pm, mo) = PageMap2_Ensure kPageMapBits (meta_allocator env) pm mo (p - 1) (ask + 2);
     m \<leftarrow> mo;
     let h = h\<lparr>pagemap := pm, hp_meta := m\<rparr>;
     if ok then do {
       (span, h) \<leftarrow> heap_NewSpan env h p ask;
       h \<leftarrow> RecordSpan h span;
       h \<leftarrow> DeleteLocked env h span;
       Some (True, grown_by, h) }
     else Some (False, grown_by, h) }"

lemma GrowHeap_rest:
  "GrowHeap env h n grown_by =
     (if n > kMaxValidPages then Some (False, grown_by, h)
      else do {
        let ask = (if n > kMinSystemAlloc then n else kMinSystemAlloc);
        (r, h) \<leftarrow> grow_ask env h ask;
        (r, h) \<leftarrow> (if r = None \<and> n < ask then grow_ask env h n else Some (r, h));
        (case r of None \<Rightarrow> Some (False, grown_by, h) | Some (ptr, actual_size) \<Rightarrow> grow_rest env h grown_by ptr actual_size) })"
  unfolding GrowHeap_def grow_rest_def by (rule refl)

lemma spare_bounds:
  assumes "spare owned h (bytes_at ptr act)" "os_small owned"
  shows "system_bytes (stats h) + act < 2 ^ 44"
proof -
  obtain R where R: "alloc_inv owned sizeof_Span (R \<union> bytes_at ptr act) (span_allocator h) (hp_meta h) (dom (hp_spans h))"
     "R \<inter> bytes_at ptr act = {}" "finite R" "card R = system_bytes (stats h)" using assms(1) by (auto simp: spare_def)
  have "R \<union> bytes_at ptr act \<subseteq> owned (sys_os (meta_sys (hp_meta h)))" by (rule alloc_inv_owned [OF R(1)])
  then have "card (R \<union> bytes_at ptr act) < 2 ^ 44" using assms(2) unfolding os_small_def by (meson card_mono le_less_trans)
  then show ?thesis using R by (simp add: card_Un_disjoint)
qed

lemma pmap_ok_mono:
  assumes "pmap_ok S pm" "\<And>j. PageMap2_get 35 pm' j = PageMap2_get 35 pm j" "\<And>j. ens2 35 pm j \<Longrightarrow> ens2 35 pm' j"
  shows "pmap_ok S pm'"
  using assms(1,3) unfolding pmap_ok_def assms(2) by blast

definition grown :: "('o \<Rightarrow> nat set) \<Rightarrow> 'o heap \<Rightarrow> nat \<Rightarrow> bool \<times> nat \<times> 'o heap \<Rightarrow> bool" where
  "grown owned h n = (\<lambda>(ok, g, h'). quiet owned 1 h h' \<and> (ok \<longrightarrow> fu h + 8192 * n \<le> fu h'))"

lemma grow_rest_spec:
  fixes h :: "'o heap"
  assumes sane: "os_sane env owned" and inv: "hinv owned {} h" and small: "os_small owned" and f: "f \<or> release_total env"
    and room: "f \<or> pha_room sizeof_Span (span_allocator h) 1"
    and r: "1 \<le> p" "1 \<le> k" "p + k \<le> 2 ^ 35" "spare owned h (bytes_at (8192 * p) (8192 * k))"
  shows "wpf f (grow_rest env h g (8192 * p) (8192 * k)) (grown owned h k)"
proof -
  note I = hinvxD [OF inv] and sb = spare_bounds [OF r(4) small] and cb = hinv_bounds(4) [OF inv small]
  let ?N = "bytes_at (8192 * p) (8192 * k)"
  obtain R where R: "alloc_inv owned sizeof_Span (R \<union> ?N) (span_allocator h) (hp_meta h) (dom (hp_spans h))"
     "R \<inter> ?N = {}" "finite R" "card R = system_bytes (stats h)" "\<And>p s. hp_spans h p = Some s \<Longrightarrow> span_mem s \<subseteq> R"
    using r(4) by (auto simp: spare_def)
  have pg: "drop_bit kPageShift (8192 * k) = k" "drop_bit kPageShift (8192 * p) = p" "page_bytes k = 8192 * k"
    using r(3) by (simp_all add: drop_bit_eq_div tc_consts page_bytes_small)
  have w: "w64 (system_bytes (stats h) + 8192 * k) = system_bytes (stats h) + 8192 * k"
    "w64 (committed_bytes (stats h) + 8192 * k) = committed_bytes (stats h) + 8192 * k" using sb cb by simp_all
  have pre: "PageMap2_PreallocateMoreMemory 35 al pm a = (pm, a)" for al :: "'o meta option allocator" and pm a
    by (simp add: PageMap2_PreallocateMoreMemory_def)
  have bits: "kPageMapBits = 35" by (simp add: tc_consts)
  obtain ok pm mo where E: "PageMap2_Ensure 35 (meta_allocator env) (pagemap h) (Some (hp_meta h)) (p - 1) (k + 2) = (ok, pm, mo)"
    by (metis prod_cases3)
  obtain m where m: "mo = Some m" "alloc_inv owned sizeof_Span (R \<union> ?N) (span_allocator h) m (dom (hp_spans h))"
    using Ensure_meta [OF sane E R(1)] by blast
  note PM = PageMap2_page_map [of 35, where 'a = "'o meta option", simplified]
  have keep: "\<And>j. PageMap2_get 35 pm j = PageMap2_get 35 (pagemap h) j" "\<And>j. ens2 35 (pagemap h) j \<Longrightarrow> ens2 35 pm j"
    using page_map.ensure_keeps [OF checked_page_map.axioms(1) [OF PM] E] by blast+
  have cov: "p + k < 2 ^ 35" "\<And>j. p \<le> j + 1 \<Longrightarrow> j \<le> p + k \<Longrightarrow> ens2 35 pm j" if ok: ok
  proof -
    have E': "PageMap2_Ensure 35 (meta_allocator env) (pagemap h) (Some (hp_meta h)) (p - 1) (k + 2) = (True, pm, mo)" using E ok by simp
    have le: "p - 1 + (k + 2) \<le> 2 ^ 35"
      using checked_page_map.ensure_checks [OF PM E'] r(3) by simp
    then show "p + k < 2 ^ 35" using r(1) by simp
    show "ens2 35 pm j" if "p \<le> j + 1" "j \<le> p + k" for j
      by (rule page_map.ensure_ens [OF checked_page_map.axioms(1) [OF PM] E' _ le]) (use that in auto)
  qed
  define st where "st = (stats h)\<lparr>reserve_count := w64 (reserve_count (stats h) + 1), commit_count := w64 (commit_count (stats h) + 1),
       system_bytes := system_bytes (stats h) + 8192 * k, committed_bytes := committed_bytes (stats h) + 8192 * k,
       total_commit_bytes := w64 (total_commit_bytes (stats h) + 8192 * k),
       total_reserve_bytes := w64 (total_reserve_bytes (stats h) + 8192 * k)\<rparr>"
  define h1 where "h1 = h\<lparr>stats := st, pagemap := pm, hp_meta := m\<rparr>"
  have eq: "grow_rest env h g (8192 * p) (8192 * k) = (if ok then do {
       (span, h) \<leftarrow> heap_NewSpan env h1 p k;
       h \<leftarrow> RecordSpan h span;
       h \<leftarrow> DeleteLocked env h span;
       Some (True, w64 (g + 8192 * k), h) } else Some (False, w64 (g + 8192 * k), h1))"
    unfolding grow_rest_def Let_def pg bits pre w if_cancel case_prod_conv
    by (simp add: E [simplified] m(1) h1_def st_def cong: if_cong)
  have fin: "finite (R \<union> ?N)" "card (R \<union> ?N) = system_bytes st" using R(2-4) by (simp_all add: card_Un_disjoint st_def)
  have mem: "mem_ok owned g" if "span_allocator g = a'" "hp_meta g = m'" "stats g = st" "alloc_inv owned sizeof_Span (R \<union> ?N) a' m' (dom (hp_spans g))"
    "\<And>p s. hp_spans g p = Some s \<Longrightarrow> span_mem s \<subseteq> R \<union> ?N" for g :: "'o heap" and a' m'
    unfolding mem_ok_def by (intro exI [of _ "R \<union> ?N"]) (use that fin in auto)
  have m1: "mem_ok owned h1" by (rule mem [where a' = "span_allocator h" and m' = m]) (use R(5) m(2) in \<open>auto simp: h1_def\<close>)
  have "hinv owned {} h1" using I m1 pmap_ok_mono [OF I(2) keep] by (simp add: hinvx_def h1_def st_def)
  then have q1: "quiet owned 1 h h1" using akeeps_mono [OF akeeps_refl, of 1 h] by (simp add: quiet_def akeeps_def inuse_def h1_def)
  show ?thesis
  proof (cases ok)
    case False
    then show ?thesis using q1 by (simp add: eq grown_def)
  next
    case True
    define t where "t = zero_span\<lparr>start := p, len := k\<rparr>"
    have room1: "f \<or> pha_room sizeof_Span (span_allocator h1) 1" using room by (simp add: h1_def)
    have m2: "alloc_inv owned sizeof_Span (R \<union> ?N) (span_allocator h1) (hp_meta h1) (dom (hp_spans h1))" using m(2) by (simp add: h1_def)
    have "wpf f (do { (span, h) \<leftarrow> heap_NewSpan env h1 p k; h \<leftarrow> RecordSpan h span; h \<leftarrow> DeleteLocked env h span;
      Some (True, w64 (g + 8192 * k), h) }) (grown owned h k)" unfolding wpf_bind [of f "heap_NewSpan env h1 p k"]
    proof (rule wpf_conseq [OF heap_NewSpan_alloc [OF sane m2 room1]], clarify)
      fix q h2 assume "newspan_alloc owned (R \<union> ?N) h1 p k (q, h2)"
      then have q: "q \<notin> dom (hp_spans h1)" "q \<noteq> 0" and ak: "akeeps 1 h1 h2"
        and al: "alloc_inv owned sizeof_Span (R \<union> ?N) (span_allocator h2) (hp_meta h2) (insert q (dom (hp_spans h1)))"
        and h2: "h2 = h1\<lparr>span_allocator := span_allocator h2, hp_meta := hp_meta h2, hp_spans := (hp_spans h1)(q \<mapsto> zero_span\<lparr>start := p, len := k\<rparr>)\<rparr>"
        unfolding newspan_alloc_def by blast+
      have h2f: "pagemap h2 = pm" "hp_spans h2 = (hp_spans h)(q \<mapsto> t)" "stats h2 = st" by (subst h2, simp add: h1_def t_def)+
      have ent: "ens2 35 pm (start t)" "ens2 35 pm (start t + len t - 1)" "1 \<le> len t"
        using cov(2) [OF True] r(2) by (simp_all add: t_def)
      obtain pm1 where pm1: "\<And>g :: 'o heap. pagemap g = pm \<Longrightarrow> hp_spans g q = Some t \<Longrightarrow> RecordSpan g q = Some (g\<lparr>pagemap := pm1\<rparr>)"
        "\<And>j. PageMap2_get 35 pm1 j = (if j = start t \<or> j = start t + len t - 1 then q else PageMap2_get 35 pm j)"
        "\<And>j. ens2 35 pm1 j = ens2 35 pm j"
        by (rule record_span [OF ent, where q = q]) (rule that)
      define h3 where "h3 = h1\<lparr>span_allocator := span_allocator h2, hp_meta := hp_meta h2, hp_spans := (hp_spans h)(q \<mapsto> t), pagemap := pm1\<rparr>"
      have h23: "h2\<lparr>pagemap := pm1\<rparr> = h3" unfolding h3_def by (subst h2) (simp add: h1_def t_def)
      have m3: "mem_ok owned h3"
      proof (rule mem)
        show "alloc_inv owned sizeof_Span (R \<union> ?N) (span_allocator h2) (hp_meta h2) (dom (hp_spans h3))" using al by (simp add: h3_def h1_def)
        show "span_mem u \<subseteq> R \<union> ?N" if "hp_spans h3 v = Some u" for v u
          using that R(5) by (auto simp: h3_def t_def span_mem_def split: if_splits)
      qed (simp_all add: h3_def h1_def)
      have i3: "hinv owned {} h3"
      proof (rule fresh_span_hinv [OF inv, where p = p and k = k and t = t and q = q and c = "8192 * k"])
        show "span_mem s \<inter> ?N = {}" if "hp_spans h v = Some s" for v s using R(2) R(5) [OF that] by blast
      qed (use q r cov(1) [OF True] cov(2) [OF True] keep m3 pm1(2,3) in \<open>simp_all add: h3_def h1_def t_def zero_span_def st_def\<close>)
      have s3: "hp_spans h3 q = Some t" "location t = IN_USE" by (simp_all add: h3_def t_def zero_span_def)
      have u3: "(inuse h3)(q := None) = inuse h" using q(1) by (auto simp: inuse_def h3_def h1_def at_loc_def fun_eq_iff split: option.splits)
      have a3: "akeeps 1 h h3" using ak by (simp add: akeeps_def h3_def h1_def)
      show "wpf f (do { h \<leftarrow> RecordSpan h2 q; h \<leftarrow> DeleteLocked env h q; Some (True, w64 (g + 8192 * k), h) }) (grown owned h k)"
        unfolding pm1(1) [OF h2f(1), unfolded h2f(2), OF fun_upd_same] bind.bind_lunit h23 wpf_bind
      proof (rule wpf_conseq [OF DeleteLocked_spec [OF sane i3 small f s3]], elim conjE)
        fix h4 assume h4: "hinv owned {} h4" "keeps h3 h4" "inuse h4 = (inuse h3)(q := None)" "fu h4 = fu h3 + 8192 * len t"
        have "akeeps (1 + 0) h h4" by (rule akeeps_trans [OF a3 keeps_akeeps [OF h4(2)]])
        moreover have "fu h3 = fu h" by (simp add: fu_def h3_def h1_def st_def)
        ultimately show "wpf f (Some (True, w64 (g + 8192 * k), h4)) (grown owned h k)"
          using h4 u3 by (simp add: grown_def quiet_def t_def)
      qed
    qed
    then show ?thesis using True by (simp add: eq)
  qed
qed

lemma GrowHeap_spec:
  assumes sane: "os_sane env owned" and inv: "hinv owned {} h" and small: "os_small owned" and f: "f \<or> release_total env"
    and room: "f \<or> pha_room sizeof_Span (span_allocator h) 1" and n: "1 \<le> n"
  shows "wpf f (GrowHeap env h n g) (grown owned h n)"
proof (cases "n > kMaxValidPages")
  case True
  then show ?thesis using inv akeeps_mono [OF akeeps_refl, of 1 h] by (simp add: GrowHeap_rest grown_def quiet_def)
next
  case False
  define ask where "ask = (if n > kMinSystemAlloc then n else kMinSystemAlloc)"
  have a: "1 \<le> ask" "ask \<le> kMaxValidPages" "n \<le> ask" using n False by (auto simp: ask_def tc_consts)
  have nv: "n \<le> kMaxValidPages" using False by simp
  have two: "wpf f (do { (r, h) \<leftarrow> grow_ask env h ask; if r = None \<and> n < ask then grow_ask env h n else Some (r, h) }) (asked owned h n)"
    unfolding wpf_bind
  proof (rule wpf_conseq [OF grow_ask_spec [OF sane inv small f a(1,2)]], clarify)
    fix r h1 assume a1: "asked owned h ask (r, h1)"
    have i1: "hinv owned {} h1" "quiet owned 0 h h1" "fu h1 = fu h" using a1 by (auto simp: asked_def quiet_def)
    have "asked owned h n (r, h1)" using a1 a(3) by (fastforce simp: asked_def)
    moreover have "wpf f (grow_ask env h1 n) (asked owned h n)"
      by (rule wpf_conseq [OF grow_ask_spec [OF sane i1(1) small f n nv]]) (use i1(3) quiet_trans [OF i1(2)] in \<open>fastforce simp: asked_def\<close>)
    ultimately show "wpf f (if r = None \<and> n < ask then grow_ask env h1 n else Some (r, h1)) (asked owned h n)" by simp
  qed
  have eq: "GrowHeap env h n g = do {
      (r, h) \<leftarrow> do { (r, h) \<leftarrow> grow_ask env h ask; if r = None \<and> n < ask then grow_ask env h n else Some (r, h) };
      (case r of None \<Rightarrow> Some (False, g, h) | Some (ptr, actual_size) \<Rightarrow> grow_rest env h g ptr actual_size) }"
    using False by (simp add: GrowHeap_rest ask_def [symmetric] Let_def case_prod_unfold)
  show ?thesis unfolding eq wpf_bind [of f "do { (r, h) \<leftarrow> grow_ask env h ask; if r = None \<and> n < ask then grow_ask env h n else Some (r, h) }"]
  proof (rule wpf_conseq [OF two], clarify)
    fix r h1 assume a1: "asked owned h n (r, h1)"
    then have q1: "quiet owned 0 h h1" and i1: "hinv owned {} h1" and fu1: "fu h1 = fu h" by (auto simp: asked_def quiet_def)
    have room1: "f \<or> pha_room sizeof_Span (span_allocator h1) 1" using room q1 by (auto simp: quiet_def akeeps_def)
    have q01: "quiet owned 1 h h1" using q1 akeeps_mono [of 0 h h1 1] by (simp add: quiet_def)
    show "wpf f (case r of None \<Rightarrow> Some (False, g, h1) | Some (ptr, actual_size) \<Rightarrow> grow_rest env h1 g ptr actual_size) (grown owned h n)"
    proof (cases r)
      case None
      then show ?thesis using q01 by (simp add: grown_def)
    next
      case (Some x)
      then obtain p k where pk: "x = (8192 * p, 8192 * k)" "1 \<le> p" "n \<le> k" "p + k \<le> 2 ^ 35" "spare owned h1 (bytes_at (8192 * p) (8192 * k))"
        using a1 by (cases x) (auto simp: asked_def)
      have "wpf f (grow_rest env h1 g (8192 * p) (8192 * k)) (grown owned h n)"
        by (rule wpf_conseq [OF grow_rest_spec [OF sane i1 small f room1 pk(2) _ pk(4,5)]])
          (use pk(3) n fu1 quiet_trans [OF q1] in \<open>auto simp: grown_def\<close>)
      then show ?thesis using Some pk(1) by simp
    qed
  qed
qed

section \<open>NewLocked\<close>

text \<open>The outcome of a request for \<open>n\<close> pages.\<close>

definition given :: "('o \<Rightarrow> nat set) \<Rightarrow> 'o heap \<Rightarrow> nat \<Rightarrow> nat \<Rightarrow> 'o heap \<Rightarrow> bool" where
  "given owned h n r h' \<longleftrightarrow> hinv owned {} h' \<and> akeeps 2 h h' \<and>
     (if r = 0 then inuse h' = inuse h
      else r \<notin> dom (inuse h) \<and> (\<exists>s. inuse h' = (inuse h)(r \<mapsto> s) \<and> len s = n \<and> sizeclass s = 0))"

lemma search_given: "quiet owned 1 h h1 \<Longrightarrow> search_post owned h1 n (r, h') \<Longrightarrow> given owned h n r h'"
proof -
  assume q: "quiet owned 1 h h1" and s: "search_post owned h1 n (r, h')"
  show "given owned h n r h'"
  proof (cases "r = 0")
    case True
    then obtain m where "released owned h1 m h'" using s by (auto simp: search_post_def)
    then have "quiet owned 0 h1 h'" by (rule released_quiet)
    from quiet_trans [OF q this] show ?thesis using True akeeps_mono [of 1 h h' 2] by (simp add: given_def quiet_def)
  next
    case False
    then have t: "taken owned 1 h1 n r h'" using s by (simp add: search_post_def)
    then show ?thesis using q False akeeps_trans [of 1 h h1 1 h'] by (auto simp: given_def taken_def quiet_def numeral_2_eq_2)
  qed
qed

lemma NewLocked_spec:
  assumes sane: "os_sane env owned" and inv: "hinv owned {} h" and small: "os_small owned" and f: "f \<or> release_total env"
    and room: "f \<or> pha_room sizeof_Span (span_allocator h) 2" and n: "1 \<le> RoundUpSize h n"
  shows "wpf f (NewLocked env h n g) (\<lambda>(r, g', h'). given owned h (RoundUpSize h n) r h')"
proof -
  define k where "k = RoundUpSize h n"
  have k: "1 \<le> k" using n by (simp add: k_def)
  note search = search_lists_spec [OF sane _ small f _ k order_refl, folded SearchFreeAndLargeLists_def]
  have room1: "f \<or> pha_room sizeof_Span (span_allocator h') 1" if "quiet owned 1 h h'" for h'
    using that room by (auto simp: quiet_def akeeps_def numeral_2_eq_2)
  have q0: "quiet owned 1 h h" using inv akeeps_mono [OF akeeps_refl, of 1 h] by (simp add: quiet_def)
  have q01: "quiet owned 1 h h'" if "quiet owned 0 h h'" for h' using that akeeps_mono [of 0 h h' 1] by (simp add: quiet_def)
  have sg: "wpf f (SearchFreeAndLargeLists env h' k) (\<lambda>(r, h''). given owned h k r h'' \<and> (r = 0 \<longrightarrow> quiet owned 0 h' h''))"
    if "quiet owned 1 h h'" for h'
  proof (rule wpf_conseq [OF search])
    show "hinv owned {} h'" using that by (simp add: quiet_def)
    show "f \<or> pha_room sizeof_Span (span_allocator h') 1" by (rule room1 [OF that])
    fix x assume "search_post owned h' k x"
    then show "case x of (r, h'') \<Rightarrow> given owned h k r h'' \<and> (r = 0 \<longrightarrow> quiet owned 0 h' h'')"
      using search_given [OF that] by (auto simp: search_post_def released_quiet split: prod.splits)
  qed
  have grow: "wpf f (do { (ok, g', h') \<leftarrow> GrowHeap env h1 k g;
      if \<not> ok then Some (0, g', h') else do { (r, h') \<leftarrow> SearchFreeAndLargeLists env h' k; Some (r, g', h') } })
    (\<lambda>(r, g', h'). given owned h k r h')" if q1: "quiet owned 0 h h1" for h1
    unfolding wpf_bind [of f "GrowHeap env h1 k g"]
  proof (rule wpf_conseq [OF GrowHeap_spec [OF sane _ small f _ k]])
    show "hinv owned {} h1" "f \<or> pha_room sizeof_Span (span_allocator h1) 1" using q1 room1 [OF q01] by (auto simp: quiet_def)
    fix x assume x: "grown owned h1 k x"
    obtain ok g' h2 where e: "x = (ok, g', h2)" by (cases x)
    have q2: "quiet owned 1 h h2" using x quiet_trans [OF q1, of 1 h2] by (simp add: e grown_def)
    then show "wpf f (case x of (ok, g', h') \<Rightarrow> if \<not> ok then Some (0, g', h') else do { (r, h') \<leftarrow> SearchFreeAndLargeLists env h' k; Some (r, g', h') })
      (\<lambda>(r, g', h'). given owned h k r h')"
      using akeeps_mono [of 1 h h2 2] by (auto simp: e given_def quiet_def intro!: wpf_conseq [OF sg [OF q2]])
  qed
  define again where "again h1 = (let st = stats h1 in
         (if free_bytes st \<noteq> 0 \<and> unmapped_bytes st \<noteq> 0 \<and> w64 (free_bytes st + unmapped_bytes st) \<ge> system_bytes st div 4 \<and>
             system_bytes st div kForcedCoalesceInterval \<noteq> w64 (system_bytes st + page_bytes k) div kForcedCoalesceInterval
          then do { (released, h) \<leftarrow> ReleaseAtLeastNPages env h1 0x7fffffff; SearchFreeAndLargeLists env h k }
          else Some (0, h1)))" for h1
  have ag: "wpf f (again h1) (\<lambda>(r, h2). given owned h k r h2 \<and> (r = 0 \<longrightarrow> quiet owned 0 h h2))" if q1: "quiet owned 0 h h1" for h1
  proof -
    have i1: "hinv owned {} h1" using q1 by (simp add: quiet_def)
    have "wpf f (do { (released, h) \<leftarrow> ReleaseAtLeastNPages env h1 0x7fffffff; SearchFreeAndLargeLists env h k })
      (\<lambda>(r, h2). given owned h k r h2 \<and> (r = 0 \<longrightarrow> quiet owned 0 h h2))" unfolding wpf_bind
    proof (rule wpf_conseq [OF ReleaseAtLeastNPages_spec [OF sane i1 small f]], clarify)
      fix m h2 assume "released_at_least owned env h1 2147483647 m h2"
      then have q2: "quiet owned 0 h h2" using released_quiet quiet_trans [OF q1, of 0 h2] by (auto simp: released_at_least_def)
      show "wpf f (SearchFreeAndLargeLists env h2 k) (\<lambda>(r, h2). given owned h k r h2 \<and> (r = 0 \<longrightarrow> quiet owned 0 h h2))"
        by (rule wpf_conseq [OF sg [OF q01 [OF q2]]]) (use quiet_trans [OF q2] in fastforce)
    qed
    then show ?thesis using q1 akeeps_mono [of 0 h h1 2] by (simp add: again_def Let_def given_def quiet_def)
  qed
  have eq: "NewLocked env h n g = do {
      (r, h) \<leftarrow> SearchFreeAndLargeLists env h k;
      if r \<noteq> 0 then Some (r, g, h)
      else do {
        (r, h) \<leftarrow> again h;
        if r \<noteq> 0 then Some (r, g, h)
        else do { (ok, g', h') \<leftarrow> GrowHeap env h k g;
          if \<not> ok then Some (0, g', h') else do { (r, h') \<leftarrow> SearchFreeAndLargeLists env h' k; Some (r, g', h') } } } }"
    unfolding NewLocked_def again_def k_def Let_def by (rule refl)
  show ?thesis unfolding eq k_def [symmetric] wpf_bind [of f "SearchFreeAndLargeLists env h k"]
  proof (rule wpf_conseq [OF sg [OF q0]], clarify)
    fix r h1 assume g1: "given owned h k r h1" "r = 0 \<longrightarrow> quiet owned 0 h h1"
    show "wpf f (if r \<noteq> 0 then Some (r, g, h1) else do { (r, h) \<leftarrow> again h1; if r \<noteq> 0 then Some (r, g, h)
        else do { (ok, g', h') \<leftarrow> GrowHeap env h k g;
          if \<not> ok then Some (0, g', h') else do { (r, h') \<leftarrow> SearchFreeAndLargeLists env h' k; Some (r, g', h') } } })
      (\<lambda>(r, g', h'). given owned h k r h')"
    proof (cases "r = 0")
      case True
      have "wpf f (do { (r, h) \<leftarrow> again h1; if r \<noteq> 0 then Some (r, g, h)
        else do { (ok, g', h') \<leftarrow> GrowHeap env h k g;
          if \<not> ok then Some (0, g', h') else do { (r, h') \<leftarrow> SearchFreeAndLargeLists env h' k; Some (r, g', h') } } })
        (\<lambda>(r, g', h'). given owned h k r h')" unfolding wpf_bind [of f "again h1"]
      proof (rule wpf_conseq [OF ag], goal_cases)
        case 1
        then show ?case using g1 True by simp
      next
        case (2 x)
        obtain r2 h2 where e: "x = (r2, h2)" by (cases x)
        show ?case using 2(2) grow [of h2] unfolding e case_prod_conv by (cases "r2 = 0") simp_all
      qed
      then show ?thesis using True by simp
    qed (use g1 in simp)
  qed
qed

section \<open>Registering a size class\<close>

lemma register_pages_spec:
  fixes h :: "'o heap"
  assumes "\<And>j. a \<le> j \<Longrightarrow> j < a + k \<Longrightarrow> ens2 35 (pagemap h) j"
  shows "\<exists>pm. register_pages h q a k = Some (h\<lparr>pagemap := pm\<rparr>) \<and>
    (\<forall>j. PageMap2_get 35 pm j = (if a \<le> j \<and> j < a + k then q else PageMap2_get 35 (pagemap h) j)) \<and>
    (\<forall>j. ens2 35 pm j = ens2 35 (pagemap h) j)"
  using assms
proof (induction k arbitrary: h a)
  case 0
  show ?case by (rule exI [of _ "pagemap h"]) simp
next
  case (Suc k)
  have "ens2 35 (pagemap h) a" using Suc.prems by simp
  then obtain pa where a: "\<And>g :: 'o heap. pagemap g = pagemap h \<Longrightarrow> pagemap_set g a q = Some (g\<lparr>pagemap := pa\<rparr>)"
    "\<And>j. PageMap2_get 35 pa j = (if j = a then q else PageMap2_get 35 (pagemap h) j)" "\<And>j. ens2 35 pa j = ens2 35 (pagemap h) j"
    by (rule pagemap_set_spec [where v = q]) (rule that)
  obtain pm where pm: "register_pages (h\<lparr>pagemap := pa\<rparr>) q (a + 1) k = Some (h\<lparr>pagemap := pa, pagemap := pm\<rparr>)"
    "\<forall>j. PageMap2_get 35 pm j = (if a + 1 \<le> j \<and> j < a + 1 + k then q else PageMap2_get 35 pa j)"
    "\<forall>j. ens2 35 pm j = ens2 35 pa j"
    using Suc.IH [of "a + 1" "h\<lparr>pagemap := pa\<rparr>"] Suc.prems a(3) by auto
  show ?case
  proof (rule exI [of _ pm], intro conjI allI)
    show "register_pages h q a (Suc k) = Some (h\<lparr>pagemap := pm\<rparr>)" using pm(1) a(1) [of h] by simp
    show "PageMap2_get 35 pm j = (if a \<le> j \<and> j < a + Suc k then q else PageMap2_get 35 (pagemap h) j)" for j
      using pm(2) a(2) by (cases "j = a") auto
    show "ens2 35 pm j = ens2 35 (pagemap h) j" for j using pm(3) a(3) by simp
  qed
qed

lemma RegisterSizeClass_spec:
  assumes inv: "hinv owned {} h" and p: "hp_spans h p = Some s" "location s = IN_USE"
  shows "\<exists>pm. RegisterSizeClass h p sc = Some (h\<lparr>hp_spans := (hp_spans h)(p \<mapsto> s\<lparr>sizeclass := sc\<rparr>), pagemap := pm\<rparr>) \<and>
    hinv owned {} (h\<lparr>hp_spans := (hp_spans h)(p \<mapsto> s\<lparr>sizeclass := sc\<rparr>), pagemap := pm\<rparr>)"
proof -
  note I = hinvxD [OF inv]
  define s' where "s' = s\<lparr>sizeclass := sc\<rparr>"
  define h1 where "h1 = h\<lparr>hp_spans := (hp_spans h)(p \<mapsto> s')\<rparr>"
  have l: "1 \<le> len s" by (rule spans_okD(4) [OF I(1) p(1)])
  have "ens2 35 (pagemap h1) j" if "start s + 1 \<le> j" "j < start s + 1 + (len s - 2)" for j
    by (simp add: h1_def, rule pmap_okD(1) [OF I(2) p(1)]) (use that in auto)
  then obtain pm where pm: "register_pages h1 p (start s + 1) (len s - 2) = Some (h1\<lparr>pagemap := pm\<rparr>)"
    "\<And>j. PageMap2_get 35 pm j = (if start s + 1 \<le> j \<and> j < start s + 1 + (len s - 2) then p else PageMap2_get 35 (pagemap h) j)"
    "\<And>j. ens2 35 pm j = ens2 35 (pagemap h) j"
    using register_pages_spec [of "start s + 1" "len s - 2" h1 p] by (auto simp: h1_def)
  have eq: "RegisterSizeClass h p sc = Some (h1\<lparr>pagemap := pm\<rparr>)"
    using p(1) pm(1) by (simp add: RegisterSizeClass_def set_span_eq h1_def s'_def)
  have all: "PageMap2_get 35 pm j = p" if "j \<in> span_pages s" for j
  proof -
    consider "j = start s" | "j = start s + len s - 1" | "start s + 1 \<le> j" "j < start s + 1 + (len s - 2)"
      using \<open>j \<in> span_pages s\<close> l unfolding span_pages_def by force
    then show ?thesis using pmap_okD(2,3) [OF I(2) p(1)] by cases (metis pm(2))+
  qed
  have other: "PageMap2_get 35 pm j = PageMap2_get 35 (pagemap h) j" if "j \<notin> span_pages s" for j
    using that unfolding span_pages_def pm(2) by auto
  have dj: "j \<notin> span_pages s" if "hp_spans h r = Some u" "r \<noteq> p" "j \<in> span_pages u" for r u j
    using spans_okD(6) [OF I(1) that(1) p(1) that(2)] that(3) by blast
  have pg: "span_pages s' = span_pages s" "start s' = start s" "len s' = len s" by (simp_all add: s'_def span_pages_def)
  have bnd: "start u \<in> span_pages u" "start u + len u - 1 \<in> span_pages u" if "hp_spans h r = Some u" for r u
    using spans_okD(4) [OF I(1) that] by (auto simp: span_pages_def)
  have "pmap_ok ((hp_spans h)(p \<mapsto> s')) pm" unfolding pmap_ok_def
  proof (intro conjI allI impI)
    fix r u assume u: "((hp_spans h)(p \<mapsto> s')) r = Some u"
    have old: "r = p \<and> u = s' \<or> r \<noteq> p \<and> hp_spans h r = Some u" using u by (auto split: if_splits)
    show "ens2 35 pm j" if "start u \<le> j + 1" "j \<le> start u + len u" for j
      using old that pmap_okD(1) [OF I(2) p(1), of j] pmap_okD(1) [OF I(2), of r u j] by (auto simp: pm(3) pg)
    show "PageMap2_get 35 pm (start u) = r" "PageMap2_get 35 pm (start u + len u - 1) = r"
      using old all [OF bnd(1) [OF p(1)]] all [OF bnd(2) [OF p(1)]] other [OF dj, of r u] bnd [of r u] pmap_okD(2,3) [OF I(2), of r u]
      by (auto simp: pg)
    assume c: "sizeclass u \<noteq> 0"
    show "location u = IN_USE" using old c p(2) pmap_okD(6) [OF I(2), of r u] by (auto simp: s'_def)
    show "\<forall>j \<in> span_pages u. PageMap2_get 35 pm j = r"
      using old all other [OF dj, of r u] pmap_okD(4) [OF I(2), of r u] c by (auto simp: pg)
  next
    fix j assume j: "PageMap2_get 35 pm j \<noteq> 0"
    show "\<exists>r u. ((hp_spans h)(p \<mapsto> s')) r = Some u \<and> j \<in> span_pages u"
    proof (cases "j \<in> span_pages s")
      case True
      then show ?thesis using pg(1) by (intro exI [of _ p] exI [of _ s']) simp
    next
      case False
      then obtain r u where ru: "hp_spans h r = Some u" "j \<in> span_pages u" using pmap_okD(5) [OF I(2), of j] j other by auto
      moreover have "r \<noteq> p" using ru False p(1) by auto
      ultimately show ?thesis by auto
    qed
  qed
  moreover have "spans_ok ((hp_spans h)(p \<mapsto> s'))"
    using I(1) p(1) pg unfolding spans_ok_def by (auto split: if_splits)
  moreover have "at_loc ((hp_spans h)(p \<mapsto> s')) {} loc = at_loc (hp_spans h) {} loc" if "loc \<noteq> IN_USE" for loc
    using that p unfolding at_loc_upd by (auto simp: fun_eq_iff at_loc_def s'_def)
  moreover have "mem_ok owned (h1\<lparr>pagemap := pm\<rparr>)"
  proof -
    have "dom ((hp_spans h)(p \<mapsto> s')) = dom (hp_spans h)" "span_mem s' = span_mem s" using p(1) by (auto simp: s'_def span_mem_def)
    then show ?thesis using I(5) p(1) by (auto simp: mem_ok_def h1_def split: if_splits) metis
  qed
  ultimately have "hinv owned {} (h1\<lparr>pagemap := pm\<rparr>)" using I by (simp add: hinvx_def h1_def)
  then show ?thesis unfolding eq by (intro exI [of _ pm]) (simp add: h1_def s'_def)
qed

section \<open>The entry points\<close>

text \<open>\<^verbatim>\<open>HandleUnlock\<close> records a growth; it touches only the metadata.\<close>

lemma hinvx_meta:
  assumes "hinvx owned D x h" "\<And>R L. alloc_inv owned sizeof_Span R (span_allocator h) (hp_meta h) L \<Longrightarrow> alloc_inv owned sizeof_Span R (span_allocator h) m L"
  shows "hinvx owned D x (h\<lparr>stacktrace_allocator := a, hp_meta := m, growth_stacks := gs\<rparr>)"
proof -
  have "mem_ok owned (h\<lparr>stacktrace_allocator := a, hp_meta := m, growth_stacks := gs\<rparr>)"
    using hinvxD(5) [OF assms(1)] assms(2) unfolding mem_ok_def by fastforce
  then show ?thesis using assms(1) by (simp add: hinvx_def)
qed

definition noted :: "('o \<Rightarrow> nat set) \<Rightarrow> 'o heap \<Rightarrow> 'o heap \<Rightarrow> bool" where
  "noted owned h h' \<longleftrightarrow> hinv owned {} h' \<and> (\<exists>a m gs. h' = h\<lparr>stacktrace_allocator := a, hp_meta := m, growth_stacks := gs\<rparr>)"

lemma HandleUnlock_spec:
  assumes sane: "os_sane env owned" and inv: "hinv owned {} h"
    and room: "f \<or> pha_room sizeof_StackTrace (stacktrace_allocator h) 1"
  shows "wpf f (HandleUnlock env h g) (noted owned h)"
proof (cases "g = 0")
  case True
  have "h = h\<lparr>stacktrace_allocator := stacktrace_allocator h, hp_meta := hp_meta h, growth_stacks := growth_stacks h\<rparr>" by simp
  then show ?thesis using True inv unfolding HandleUnlock_def noted_def by (simp, metis)
next
  case False
  let ?a = "stacktrace_allocator h" and ?m = "hp_meta h"
  have post: "noted owned h (h\<lparr>stacktrace_allocator := a, hp_meta := m, growth_stacks := gs\<rparr>)"
    if "\<And>R L. alloc_inv owned sizeof_Span R (span_allocator h) ?m L \<Longrightarrow> alloc_inv owned sizeof_Span R (span_allocator h) m L" for a m gs
    using hinvx_meta [OF inv that] by (auto simp: noted_def)
  have new: "wpf f (PHA_New env sizeof_StackTrace ?a ?m) (\<lambda>(t, a, m). noted owned h (h\<lparr>stacktrace_allocator := a, hp_meta := m, growth_stacks := (t, g) # growth_stacks h\<rparr>))"
  proof (cases "free_list ?a = 0 \<and> free_avail ?a < sizeof_StackTrace")
    case no: True
    then have "\<not> pha_room sizeof_StackTrace ?a 1" by (simp add: pha_room_def)
    with room have f: f by simp
    obtain R where R: "alloc_inv owned sizeof_Span R (span_allocator h) ?m (dom (hp_spans h))"
      using hinvxD(5) [OF inv] by (auto simp: mem_ok_def)
    have c: "0 < kAllocIncrement" "kAllocIncrement < 2 ^ 64" by (simp_all add: tc_consts)
    have "alloc_inv owned sizeof_Span R' (span_allocator h) m L" if "MetaDataAlloc env ?m kAllocIncrement = Some (p, m)"
      "alloc_inv owned sizeof_Span R' (span_allocator h) ?m L" for p m R' L
      using alloc_inv_MetaDataAlloc [OF sane that(2) c] that(1) by (simp add: wpo_def)
    then show ?thesis using no f by (auto simp: PHA_New_def wpf_partial split: if_splits intro!: post)
  next
    case False
    then show ?thesis using post [of ?m] by (auto simp: PHA_New_def)
  qed
  show ?thesis using False new by (simp add: HandleUnlock_def case_prod_unfold)
qed

text \<open>What a caller of the entry points sees: the spans in use, and how much room for descriptors is left.\<close>

definition served :: "('o \<Rightarrow> nat set) \<Rightarrow> 'o heap \<Rightarrow> nat \<Rightarrow> nat \<Rightarrow> nat \<Rightarrow> 'o heap \<Rightarrow> bool" where
  "served owned h n sc r h' \<longleftrightarrow> hinv owned {} h' \<and> smallest_span_size h' = smallest_span_size h \<and>
     (if r = 0 then inuse h' = inuse h
      else r \<notin> dom (inuse h) \<and> (\<exists>s. inuse h' = (inuse h)(r \<mapsto> s) \<and> len s = n \<and> sizeclass s = sc))"

lemma inuse_spans: "inuse h p = Some s \<Longrightarrow> hp_spans h p = Some s \<and> location s = IN_USE"
  by (simp add: inuse_def)

lemma noted_served: "served owned h n sc r h1 \<Longrightarrow> noted owned h1 h' \<Longrightarrow> served owned h n sc r h'"
  by (auto simp: served_def noted_def inuse_def)

lemma hinvx_cache [simp]: "hinvx owned D x (h\<lparr>pagemap_cache := c\<rparr>) = hinvx owned D x h"
  by (simp add: hinvx_def mem_ok_def)

lemma NewWithSizeClass_spec:
  assumes sane: "os_sane env owned" and inv: "hinv owned {} h" and small: "os_small owned" and f: "f \<or> release_total env"
    and room: "f \<or> pha_room sizeof_Span (span_allocator h) 2" "f \<or> pha_room sizeof_StackTrace (stacktrace_allocator h) 1"
    and n: "1 \<le> RoundUpSize h n"
  shows "wpf f (NewWithSizeClass env h n sc) (\<lambda>(r, h'). served owned h (RoundUpSize h n) sc r h')"
proof -
  define k where "k = RoundUpSize h n"
  define mid where "mid r h1 = (if r = 0 then Some h1
           else do { s \<leftarrow> hp_spans h1 r; let h1 = InvalidateCachedSizeClass h1 (start s);
             if sc \<noteq> 0 then RegisterSizeClass h1 r sc else Some h1 })" for r and h1 :: "'a heap"
  have mid: "\<exists>h2. mid r h1 = Some h2 \<and> served owned h k sc r h2 \<and> stacktrace_allocator h2 = stacktrace_allocator h" if g: "given owned h k r h1" for r h1
  proof (cases "r = 0")
    case True
    then show ?thesis using g by (simp add: mid_def served_def given_def akeeps_def)
  next
    case False
    obtain s where s: "inuse h1 = (inuse h)(r \<mapsto> s)" "len s = k" "sizeclass s = 0" "r \<notin> dom (inuse h)"
      using g False by (auto simp: given_def)
    then have p: "hp_spans h1 r = Some s" "location s = IN_USE" using inuse_spans [of h1 r s] by simp_all
    define h2 where "h2 = InvalidateCachedSizeClass h1 (start s)"
    have i2: "hinv owned {} h2" "inuse h2 = inuse h1" "hp_spans h2 = hp_spans h1" "smallest_span_size h2 = smallest_span_size h"
      "stacktrace_allocator h2 = stacktrace_allocator h"
      using g by (simp_all add: h2_def InvalidateCachedSizeClass_def given_def inuse_def akeeps_def)
    have m: "mid r h1 = (if sc \<noteq> 0 then RegisterSizeClass h2 r sc else Some h2)" using False p(1) by (simp add: mid_def h2_def)
    show ?thesis
    proof (cases "sc = 0")
      case True
      then show ?thesis using i2 s False m by (auto simp: served_def)
    next
      case sc: False
      obtain pm where pm: "RegisterSizeClass h2 r sc = Some (h2\<lparr>hp_spans := (hp_spans h2)(r \<mapsto> s\<lparr>sizeclass := sc\<rparr>), pagemap := pm\<rparr>)"
        "hinv owned {} (h2\<lparr>hp_spans := (hp_spans h2)(r \<mapsto> s\<lparr>sizeclass := sc\<rparr>), pagemap := pm\<rparr>)"
        using RegisterSizeClass_spec [OF i2(1), of r s sc] p i2(3) by auto
      have "inuse (h2\<lparr>hp_spans := (hp_spans h2)(r \<mapsto> s\<lparr>sizeclass := sc\<rparr>), pagemap := pm\<rparr>) = (inuse h)(r \<mapsto> s\<lparr>sizeclass := sc\<rparr>)"
        using s(1) i2(3) p(2) by (simp add: inuse_def at_loc_upd)
      then show ?thesis using pm m sc s(2,4) False i2 by (auto simp: served_def)
    qed
  qed
  have eq: "NewWithSizeClass env h n sc = do { (r, g, h1) \<leftarrow> NewLocked env h n 0; h2 \<leftarrow> mid r h1; h3 \<leftarrow> HandleUnlock env h2 g; Some (r, h3) }"
    unfolding NewWithSizeClass_def mid_def by (rule refl)
  show ?thesis unfolding eq k_def [symmetric] wpf_bind [of f "NewLocked env h n 0"]
  proof (rule wpf_conseq [OF NewLocked_spec [OF sane inv small f room(1) n, folded k_def]], clarify)
    fix r g h1 assume "given owned h k r h1"
    from mid [OF this] obtain h2 where h2: "mid r h1 = Some h2" "served owned h k sc r h2" "stacktrace_allocator h2 = stacktrace_allocator h" by blast
    have "wpf f (HandleUnlock env h2 g) (noted owned h2)"
      by (rule HandleUnlock_spec [OF sane]) (use h2 room(2) in \<open>simp_all add: served_def\<close>)
    then show "wpf f (do { h2 \<leftarrow> mid r h1; h3 \<leftarrow> HandleUnlock env h2 g; Some (r, h3) }) (\<lambda>(r, h'). served owned h k sc r h')"
      using h2(1) noted_served [OF h2(2)] by (auto elim: wpf_conseq)
  qed
qed

section \<open>Aligned spans\<close>

lemma skip_step: "\<lbrakk>page_bytes (st + k) AND (ab - 1) \<noteq> 0; aligned_skip st ab (k + 1) = Some j\<rbrakk> \<Longrightarrow> aligned_skip st ab k = Some j"
  by (subst aligned_skip.simps) simp

lemma aligned_page: "st < 2 ^ 36 \<Longrightarrow> a < 36 \<Longrightarrow> page_bytes st AND (page_bytes (2 ^ a) - 1) = 0 \<longleftrightarrow> 2 ^ a dvd st"
proof -
  assume st: "st < 2 ^ 36" and a: "a < 36"
  have "(2::nat) ^ a < 2 ^ 51" using a by (intro power_strict_increasing) auto
  then have "page_bytes (2 ^ a) = 2 ^ (13 + a)" "page_bytes st = 2 ^ 13 * st" using st by (simp_all add: page_bytes_small power_add)
  then have "page_bytes st AND (page_bytes (2 ^ a) - 1) = (2 ^ 13 * st) mod 2 ^ (13 + a)" by (simp only: and_pow2_mod)
  also have "\<dots> = 2 ^ 13 * (st mod 2 ^ a)" unfolding power_add by (rule mult_mod_right [symmetric])
  finally show ?thesis by (simp add: dvd_eq_mod_eq_0)
qed

text \<open>The loop of \<^verbatim>\<open>NewAligned\<close> stops at the first aligned page.\<close>

lemma aligned_skip_spec:
  assumes a: "a < 35" and st: "st < 2 ^ 35"
  shows "\<exists>j < 2 ^ a. aligned_skip st (page_bytes (2 ^ a)) 0 = Some j \<and> 2 ^ a dvd st + j"
proof -
  define j where "j = (2 ^ a - st mod 2 ^ a) mod 2 ^ a"
  have p: "(2::nat) ^ a < 2 ^ 35" using a by (intro power_strict_increasing) auto
  have "2 ^ a dvd st + j"
  proof (cases "st mod 2 ^ a = 0")
    case True
    then have "j = 0" by (simp add: j_def)
    with True show ?thesis by (simp only: dvd_eq_mod_eq_0 add_0_right)
  next
    case False
    then have "2 ^ a - st mod 2 ^ a < 2 ^ a" by (simp only: diff_less zero_less_power zero_less_numeral neq0_conv)
    then have "j = 2 ^ a - st mod 2 ^ a" unfolding j_def by (rule mod_less)
    with align_up_mod [OF _ False] show ?thesis by simp
  qed
  moreover have "j < 2 ^ a" unfolding j_def by (rule mod_less_divisor) simp
  ultimately have j: "j < 2 ^ a" "2 ^ a dvd st + j" by blast+
  have stop: "page_bytes (st + k) AND (page_bytes (2 ^ a) - 1) = 0 \<longleftrightarrow> 2 ^ a dvd st + k" if "k \<le> j" for k
    using that j(1) p st a by (intro aligned_page) auto
  have min: "\<not> 2 ^ a dvd st + k" if "k < j" for k
  proof
    assume "2 ^ a dvd st + k"
    with j(2) have "2 ^ a dvd st + j - (st + k)" by (rule dvd_diff_nat)
    with that have "2 ^ a \<le> j - k" by (simp add: dvd_imp_le)
    with j(1) show False by simp
  qed
  have "k \<le> j \<Longrightarrow> aligned_skip st (page_bytes (2 ^ a)) k = Some j" for k
  proof (induction "j - k" arbitrary: k)
    case 0
    then have "k = j" by simp
    then show ?case using stop [of j] j(2) by (subst aligned_skip.simps) simp
  next
    case (Suc d)
    then have k: "k < j" "d = j - (k + 1)" by simp_all
    show ?case by (rule skip_step) (use stop [of k] min [OF k(1)] Suc.hyps(1) [OF k(2)] k in auto)
  qed
  with j show ?thesis by auto
qed

text \<open>Giving the front or the back of a span in use back to the heap.\<close>

definition trimmed :: "('o \<Rightarrow> nat set) \<Rightarrow> 'o heap \<Rightarrow> (nat \<rightharpoonup> span) \<Rightarrow> 'o heap \<Rightarrow> bool" where
  "trimmed owned h U h' \<longleftrightarrow> hinv owned {} h' \<and> akeeps 1 h h' \<and> inuse h' = U"

lemma trim_front:
  fixes h :: "'o heap"
  assumes sane: "os_sane env owned" and inv: "hinv owned {} h" and small: "os_small owned" and f: "f \<or> release_total env"
    and room: "f \<or> pha_room sizeof_Span (span_allocator h) 1"
    and p: "inuse h p = Some s" "sizeclass s = 0" and n: "1 \<le> n" "n < len s"
  shows "wpf f (do { r \<leftarrow> Split env h p n; h \<leftarrow> DeleteLocked env (snd r) p; Some (fst r, h) }) (\<lambda>(q, h'). q \<noteq> 0 \<and> q \<notin> dom (hp_spans h) \<and>
    trimmed owned h ((inuse h)(p := None, q \<mapsto> zero_span\<lparr>start := start s + n, len := len s - n\<rparr>)) h')"
  unfolding wpf_bind
proof (rule wpf_conseq [OF Split_spec [OF sane inv small room _ _ p(2) n]])
  show "hp_spans h p = Some s" "location s = IN_USE" using inuse_spans [OF p(1)] by auto
  fix x assume "case x of (q, h') \<Rightarrow> hinv owned {} h' \<and> akeeps 1 h h' \<and> q \<noteq> 0 \<and> q \<notin> dom (hp_spans h) \<and> fu h' = fu h \<and>
    system_bytes (stats h') = system_bytes (stats h) \<and>
    inuse h' = (inuse h)(p \<mapsto> s\<lparr>len := n\<rparr>, q \<mapsto> zero_span\<lparr>start := start s + n, len := len s - n\<rparr>)"
  then obtain q h1 where x: "x = (q, h1)" "hinv owned {} h1" "akeeps 1 h h1" "q \<noteq> 0" "q \<notin> dom (hp_spans h)"
    "inuse h1 = (inuse h)(p \<mapsto> s\<lparr>len := n\<rparr>, q \<mapsto> zero_span\<lparr>start := start s + n, len := len s - n\<rparr>)" by auto
  have qp: "q \<noteq> p" using x(5) inuse_spans [OF p(1)] by auto
  then have p1: "hp_spans h1 p = Some (s\<lparr>len := n\<rparr>)" "location (s\<lparr>len := n\<rparr>) = IN_USE"
    using inuse_spans [of h1 p "s\<lparr>len := n\<rparr>"] x(6) by auto
  have u: "(inuse h1)(p := None) = (inuse h)(p := None, q \<mapsto> zero_span\<lparr>start := start s + n, len := len s - n\<rparr>)"
    using qp by (auto simp: x(6))
  have "wpf f (DeleteLocked env h1 p) (\<lambda>h'. trimmed owned h ((inuse h)(p := None, q \<mapsto> zero_span\<lparr>start := start s + n, len := len s - n\<rparr>)) h')"
  proof (rule wpf_conseq [OF DeleteLocked_spec [OF sane x(2) small f p1]], elim conjE)
    fix h' assume "hinv owned {} h'" "keeps h1 h'" "inuse h' = (inuse h1)(p := None)"
    then show "trimmed owned h ((inuse h)(p := None, q \<mapsto> zero_span\<lparr>start := start s + n, len := len s - n\<rparr>)) h'"
      using akeeps_trans [OF x(3) keeps_akeeps, of h'] u by (simp add: trimmed_def)
  qed
  then show "wpf f (DeleteLocked env (snd x) p) (\<lambda>h'. wpf f (Some (fst x, h')) (\<lambda>(q, h'). q \<noteq> 0 \<and> q \<notin> dom (hp_spans h) \<and>
    trimmed owned h ((inuse h)(p := None, q \<mapsto> zero_span\<lparr>start := start s + n, len := len s - n\<rparr>)) h'))"
    using x(1,4,5) by simp
qed

lemma trim_back:
  fixes h :: "'o heap"
  assumes sane: "os_sane env owned" and inv: "hinv owned {} h" and small: "os_small owned" and f: "f \<or> release_total env"
    and room: "f \<or> pha_room sizeof_Span (span_allocator h) 1"
    and p: "inuse h p = Some s" "sizeclass s = 0" and n: "1 \<le> n" "n < len s"
  shows "wpf f (do { (q, h) \<leftarrow> Split env h p n; DeleteLocked env h q }) (trimmed owned h ((inuse h)(p \<mapsto> s\<lparr>len := n\<rparr>)))"
  unfolding wpf_bind
proof (rule wpf_conseq [OF Split_spec [OF sane inv small room _ _ p(2) n]])
  show "hp_spans h p = Some s" "location s = IN_USE" using inuse_spans [OF p(1)] by auto
  define t where "t = zero_span\<lparr>start := start s + n, len := len s - n\<rparr>"
  fix x assume "case x of (q, h') \<Rightarrow> hinv owned {} h' \<and> akeeps 1 h h' \<and> q \<noteq> 0 \<and> q \<notin> dom (hp_spans h) \<and> fu h' = fu h \<and>
    system_bytes (stats h') = system_bytes (stats h) \<and>
    inuse h' = (inuse h)(p \<mapsto> s\<lparr>len := n\<rparr>, q \<mapsto> zero_span\<lparr>start := start s + n, len := len s - n\<rparr>)"
  then obtain q h1 where x: "x = (q, h1)" "hinv owned {} h1" "akeeps 1 h h1" "q \<notin> dom (hp_spans h)"
    "inuse h1 = (inuse h)(p \<mapsto> s\<lparr>len := n\<rparr>, q \<mapsto> t)" by (auto simp: t_def)
  have qp: "q \<noteq> p" using x(4) inuse_spans [OF p(1)] by auto
  have q1: "hp_spans h1 q = Some t" "location t = IN_USE" using inuse_spans [of h1 q t] x(5) by auto
  have "inuse h q = None" using x(4) by (auto simp: inuse_def at_loc_def split: option.splits)
  then have u: "(inuse h1)(q := None) = (inuse h)(p \<mapsto> s\<lparr>len := n\<rparr>)" using qp by (auto simp: x(5))
  show "wpf f (case x of (q, h) \<Rightarrow> DeleteLocked env h q) (trimmed owned h ((inuse h)(p \<mapsto> s\<lparr>len := n\<rparr>)))"
    unfolding x(1) case_prod_conv
  proof (rule wpf_conseq [OF DeleteLocked_spec [OF sane x(2) small f q1]], elim conjE)
    fix h' assume "hinv owned {} h'" "keeps h1 h'" "inuse h' = (inuse h1)(q := None)"
    then show "trimmed owned h ((inuse h)(p \<mapsto> s\<lparr>len := n\<rparr>)) h'"
      using akeeps_trans [OF x(3) keeps_akeeps, of h'] u by (simp add: trimmed_def)
  qed
qed

section \<open>RoundUpSize\<close>

lemma RoundUpSize_cases:
  assumes "smallest_span_size h = 2 ^ i" "i < 63" "n < 2 ^ 64"
  shows "n \<le> RoundUpSize h n \<and> 2 ^ i dvd RoundUpSize h n \<and> RoundUpSize h n < n + 2 ^ i \<or> 2 ^ 63 \<le> RoundUpSize h n"
proof -
  define w where "w = w64 (n + (2 ^ i - 1))"
  have p: "(1::nat) \<le> 2 ^ i" "(2::nat) ^ i \<le> 2 ^ 62" using assms(2) power_increasing [of i 62 "2::nat"] by simp_all
  have r: "w - (w AND (2 ^ i - 1)) = w div 2 ^ i * 2 ^ i" unfolding and_pow2_mod by (rule minus_mod_eq_div_mult)
  have m: "((2 ^ 64 - 1) AND (2 ^ i - 1) :: nat) = (2 ^ 64 - 1) mod 2 ^ i" by (rule and_pow2_mod)
  have "(2 ^ 64 - 1) mod 2 ^ i < (2::nat) ^ i" by simp
  moreover have "2 ^ 62 + 2 ^ 63 \<le> (2 ^ 64 - 1 :: nat)" by simp
  ultimately have big: "2 ^ 63 \<le> (2 ^ 64 - 1 :: nat) - (2 ^ 64 - 1) mod 2 ^ i" using p by linarith
  show ?thesis
  proof (cases "w div 2 ^ i * 2 ^ i < n")
    case True
    then show ?thesis using big unfolding RoundUpSize_def assms(1) Let_def w_def [symmetric] r m by simp
  next
    case False
    have "w \<le> n + (2 ^ i - 1)" by (simp add: w_def w64_def)
    then have "w div 2 ^ i * 2 ^ i < n + 2 ^ i" using p(1) div_times_less_eq_dividend [of w "2 ^ i"] by linarith
    with False show ?thesis unfolding RoundUpSize_def assms(1) Let_def w_def [symmetric] r m by auto
  qed
qed

lemma RoundUpSize_pos:
  assumes "smallest_span_size h = 2 ^ i" "i < 63" "1 \<le> n" "n < 2 ^ 64"
  shows "1 \<le> RoundUpSize h n"
  using RoundUpSize_cases [OF assms(1,2,4)] assms(3) by auto

end
