(* ===== verification/HeapServe.thy ===== *)
theory HeapServe
  imports HeapGrow
begin

text \<open>
  The page heap as its clients see it: \<^verbatim>\<open>NewAligned\<close>, searches that do not miss a free span, the contract of a source of spans
  (the locale \<open>span_source\<close>) with the page heap as an instance, and the properties of the page heap.
\<close>

section \<open>NewAligned\<close>

lemma inuse_len:
  assumes "hinv owned {} h" "os_small owned" "inuse h p = Some s"
  shows "len s < 2 ^ 31" "start s + len s < 2 ^ 35" "1 \<le> len s"
  using hinv_bounds(5) [OF assms(1,2)] spans_okD(4,5) [OF hinvxD(1) [OF assms(1)]] inuse_spans [OF assms(3)] by blast+

definition aligned_post :: "('o \<Rightarrow> nat set) \<Rightarrow> 'o heap \<Rightarrow> nat \<Rightarrow> nat \<Rightarrow> nat \<Rightarrow> 'o heap \<Rightarrow> bool" where
  "aligned_post owned h n al r h' \<longleftrightarrow> served owned h n 0 r h' \<and> (\<forall>s. r \<noteq> 0 \<longrightarrow> inuse h' r = Some s \<longrightarrow> al dvd start s)"

lemma aligned_noted: "aligned_post owned h n al r h1 \<Longrightarrow> noted owned h1 h' \<Longrightarrow> aligned_post owned h n al r h'"
  using noted_served [of owned h n 0 r h1 h'] by (auto simp: aligned_post_def noted_def inuse_def)

text \<open>The part of \<^verbatim>\<open>NewAligned\<close> that cuts an aligned piece out of a larger span.\<close>

definition cut_aligned :: "'o env \<Rightarrow> 'o heap \<Rightarrow> nat \<Rightarrow> nat \<Rightarrow> nat \<Rightarrow> (nat \<times> 'o heap) option" where
  "cut_aligned env h span n align_pages = do {
     s \<leftarrow> hp_spans h span;
     skip \<leftarrow> aligned_skip (start s) (page_bytes align_pages) 0;
     (span, h) \<leftarrow> (if skip > 0 then do {
         rest_span \<leftarrow> Split env h span skip;
         h \<leftarrow> DeleteLocked env (snd rest_span) span;
         Some (fst rest_span, h) }
       else Some (span, h));
     s \<leftarrow> hp_spans h span;
     h \<leftarrow> (if len s > n then do {
         (trailer, h) \<leftarrow> Split env h span n;
         DeleteLocked env h trailer }
       else Some h);
     s \<leftarrow> hp_spans h span;
     Some (span, InvalidateCachedSizeClass h (start s)) }"

lemma NewAligned_cut:
  "NewAligned env h n align_pages = do {
     let n = RoundUpSize h n;
     let alloc = w64 (n + align_pages);
     if alloc < n \<or> alloc < align_pages then do {
       (span, h) \<leftarrow> NewWithSizeClass env h (2 ^ 64 - 1) 0;
       if span = 0 then Some (0, h) else None }
     else do {
       (span, grown_by, h) \<leftarrow> NewLocked env h alloc 0;
       (span, h) \<leftarrow> (if span = 0 then Some (0, h) else cut_aligned env h span n align_pages);
       h \<leftarrow> HandleUnlock env h grown_by;
       Some (span, h) } }"
  unfolding NewAligned_def cut_aligned_def by (rule refl)

lemma cut_back:
  fixes h :: "'o heap"
  assumes sane: "os_sane env owned" and inv: "hinv owned {} h" and small: "os_small owned" and f: "f \<or> release_total env"
    and room: "f \<or> pha_room sizeof_Span (span_allocator h) 1"
    and p: "inuse h p = Some s" "sizeclass s = 0" and n: "1 \<le> n" "n \<le> len s"
  shows "wpf f (do { s \<leftarrow> hp_spans h p; h \<leftarrow> (if len s > n then do { (trailer, h) \<leftarrow> Split env h p n; DeleteLocked env h trailer } else Some h);
      s \<leftarrow> hp_spans h p; Some (p, InvalidateCachedSizeClass h (start s)) })
    (\<lambda>(r, h'). r = p \<and> trimmed owned h ((inuse h)(p \<mapsto> s\<lparr>len := n\<rparr>)) (h'\<lparr>pagemap_cache := pagemap_cache h\<rparr>))"
proof -
  have hp: "hp_spans h p = Some s" using inuse_spans [OF p(1)] by simp
  have fin: "wpf f (do { s \<leftarrow> hp_spans h' p; Some (p, InvalidateCachedSizeClass h' (start s)) })
     (\<lambda>(r, h'). r = p \<and> trimmed owned h ((inuse h)(p \<mapsto> s\<lparr>len := n\<rparr>)) (h'\<lparr>pagemap_cache := pagemap_cache h\<rparr>))"
    if t: "trimmed owned h ((inuse h)(p \<mapsto> s\<lparr>len := n\<rparr>)) h'" for h'
  proof -
    have "inuse h' p = Some (s\<lparr>len := n\<rparr>)" using t by (simp add: trimmed_def)
    then have "hp_spans h' p = Some (s\<lparr>len := n\<rparr>)" using inuse_spans by blast
    then show ?thesis using t by (auto simp: InvalidateCachedSizeClass_def trimmed_def akeeps_def inuse_def)
  qed
  show ?thesis
  proof (cases "n < len s")
    case True
    then have e: "do { s \<leftarrow> hp_spans h p; h \<leftarrow> (if len s > n then do { (trailer, h) \<leftarrow> Split env h p n; DeleteLocked env h trailer } else Some h);
        s \<leftarrow> hp_spans h p; Some (p, InvalidateCachedSizeClass h (start s)) } =
      do { h \<leftarrow> do { (trailer, h) \<leftarrow> Split env h p n; DeleteLocked env h trailer }; s \<leftarrow> hp_spans h p; Some (p, InvalidateCachedSizeClass h (start s)) }"
      using hp by simp
    show ?thesis unfolding e wpf_bind [of f "do { (trailer, h) \<leftarrow> Split env h p n; DeleteLocked env h trailer }"]
      by (rule wpf_conseq [OF trim_back [OF sane inv small f room p n(1) True] fin])
  next
    case False
    with n have l: "len s = n" by simp
    have "trimmed owned h ((inuse h)(p \<mapsto> s\<lparr>len := n\<rparr>)) h"
      using inv p(1) l akeeps_mono [OF akeeps_refl, of 1 h] by (auto simp: trimmed_def fun_eq_iff)
    from fin [OF this] show ?thesis using hp l by simp
  qed
qed

lemma cut_aligned_spec:
  fixes h :: "'o heap"
  assumes sane: "os_sane env owned" and inv: "hinv owned {} h" and small: "os_small owned" and f: "f \<or> release_total env"
    and room: "f \<or> pha_room sizeof_Span (span_allocator h) 2"
    and p: "inuse h p = Some s" "sizeclass s = 0" "p \<noteq> 0" and n: "1 \<le> n" "n + 2 ^ a \<le> len s"
  shows "wpf f (cut_aligned env h p n (2 ^ a)) (\<lambda>(r, h'). hinv owned {} h' \<and> smallest_span_size h' = smallest_span_size h \<and>
    stacktrace_allocator h' = stacktrace_allocator h \<and> r \<noteq> 0 \<and> r \<notin> dom ((inuse h)(p := None)) \<and>
    (\<exists>t. inuse h' = (inuse h)(p := None, r \<mapsto> t) \<and> len t = n \<and> sizeclass t = 0 \<and> 2 ^ a dvd start t))"
proof -
  note L = inuse_len [OF inv small p(1)]
  have hp: "hp_spans h p = Some s" using inuse_spans [OF p(1)] by simp
  have "(2::nat) ^ a < 2 ^ 31" using L(1) n by linarith
  then have a: "a < 31" by (rule power_less_imp_less_exp [rotated]) simp
  then obtain j where j: "j < 2 ^ a" "aligned_skip (start s) (page_bytes (2 ^ a)) 0 = Some j" "2 ^ a dvd start s + j"
    using aligned_skip_spec [of a "start s"] L(2) by auto
  define rear where "rear q g = do { s \<leftarrow> hp_spans g q; h \<leftarrow> (if len s > n then do { (trailer, h) \<leftarrow> Split env g q n; DeleteLocked env h trailer } else Some g);
      s \<leftarrow> hp_spans h q; Some (q, InvalidateCachedSizeClass h (start s)) }" for q and g :: "'o heap"
  let ?Q = "\<lambda>(r, h'). hinv owned {} h' \<and> smallest_span_size h' = smallest_span_size h \<and>
    stacktrace_allocator h' = stacktrace_allocator h \<and> r \<noteq> 0 \<and> r \<notin> dom ((inuse h)(p := None)) \<and>
    (\<exists>t. inuse h' = (inuse h)(p := None, r \<mapsto> t) \<and> len t = n \<and> sizeclass t = 0 \<and> 2 ^ a dvd start t)"
  have B: "wpf f (rear q g) ?Q" if g: "hinv owned {} g" "akeeps 1 h g" "inuse g q = Some u" "sizeclass u = 0" "n \<le> len u" "2 ^ a dvd start u"
      "q \<noteq> 0" "q \<notin> dom ((inuse h)(p := None))" "inuse g = (inuse h)(p := None, q \<mapsto> u)" for q u and g :: "'o heap"
  proof -
    have room1: "f \<or> pha_room sizeof_Span (span_allocator g) 1" using room g(2) by (auto simp: akeeps_def numeral_2_eq_2)
    show ?thesis unfolding rear_def
    proof (rule wpf_conseq [OF cut_back [OF sane g(1) small f room1 g(3,4) n(1) g(5)]])
      fix x assume "case x of (r, h') \<Rightarrow> r = q \<and> trimmed owned g ((inuse g)(q \<mapsto> u\<lparr>len := n\<rparr>)) (h'\<lparr>pagemap_cache := pagemap_cache g\<rparr>)"
      then obtain h' where x: "x = (q, h')" and t: "trimmed owned g ((inuse g)(q \<mapsto> u\<lparr>len := n\<rparr>)) (h'\<lparr>pagemap_cache := pagemap_cache g\<rparr>)"
        by (cases x) auto
      have "hinv owned {} h'" "inuse h' = (inuse g)(q \<mapsto> u\<lparr>len := n\<rparr>)" "smallest_span_size h' = smallest_span_size h"
        "stacktrace_allocator h' = stacktrace_allocator h"
        using g(2) t by (simp_all add: trimmed_def akeeps_def inuse_def)
      moreover have "(inuse g)(q \<mapsto> u\<lparr>len := n\<rparr>) = (inuse h)(p := None, q \<mapsto> u\<lparr>len := n\<rparr>)" unfolding g(9) by simp
      ultimately show "?Q x" using g(4,6,7,8) unfolding x case_prod_conv by (intro conjI exI [of _ "u\<lparr>len := n\<rparr>"]) simp_all
    qed
  qed
  show ?thesis
  proof (cases "j = 0")
    case True
    have e: "cut_aligned env h p n (2 ^ a) = rear p h" using hp j(2) True by (simp add: cut_aligned_def rear_def)
    have u: "inuse h = (inuse h)(p := None, p \<mapsto> s)" using p(1) by (auto simp: fun_eq_iff)
    show ?thesis unfolding e
      by (rule B [OF inv _ p(1,2) _ _ p(3) _ u]) (use n j(3) True akeeps_mono [OF akeeps_refl, of 1 h] in auto)
  next
    case False
    have e: "cut_aligned env h p n (2 ^ a) = do { (q, g) \<leftarrow> do { r \<leftarrow> Split env h p j; h \<leftarrow> DeleteLocked env (snd r) p; Some (fst r, h) }; rear q g }"
      using hp j(2) False by (simp add: cut_aligned_def rear_def)
    have room1: "f \<or> pha_room sizeof_Span (span_allocator h) 1" using room pha_room_less [of _ _ 2 1] by auto
    show ?thesis unfolding e wpf_bind [of f "do { r \<leftarrow> Split env h p j; h \<leftarrow> DeleteLocked env (snd r) p; Some (fst r, h) }"]
    proof (rule wpf_conseq [OF trim_front [OF sane inv small f room1 p(1,2)]])
      show "1 \<le> j" "j < len s" using False j(1) n by auto
      define t where "t = zero_span\<lparr>start := start s + j, len := len s - j\<rparr>"
      fix x assume x: "case x of (q, h') \<Rightarrow> q \<noteq> 0 \<and> q \<notin> dom (hp_spans h) \<and>
        trimmed owned h ((inuse h)(p := None, q \<mapsto> zero_span\<lparr>start := start s + j, len := len s - j\<rparr>)) h'"
      obtain q g where xe: "x = (q, g)" by (cases x)
      have g: "q \<noteq> 0" "q \<notin> dom (hp_spans h)" "hinv owned {} g" "akeeps 1 h g" "inuse g = (inuse h)(p := None, q \<mapsto> t)"
        using x by (simp_all add: xe trimmed_def t_def)
      have "dom ((inuse h)(p := None)) \<subseteq> dom (hp_spans h)" by (auto simp: inuse_def at_loc_def split: option.splits if_splits)
      with g(2) have q: "q \<notin> dom ((inuse h)(p := None))" by blast
      have "wpf f (rear q g) ?Q"
        by (rule B [OF g(3,4) _ _ _ _ g(1) q g(5)]) (use g(5) n j(1,3) in \<open>auto simp: t_def zero_span_def\<close>)
      then show "wpf f (case x of (q, g) \<Rightarrow> rear q g) ?Q" by (simp add: xe)
    qed
  qed
qed

lemma NewAligned_spec:
  fixes h :: "'o heap"
  assumes sane: "os_sane env owned" and inv: "hinv owned {} h" and small: "os_small owned" and f: "f \<or> release_total env"
    and room: "f \<or> pha_room sizeof_Span (span_allocator h) 4" "f \<or> pha_room sizeof_StackTrace (stacktrace_allocator h) 1"
    and n: "1 \<le> n" "n < 2 ^ 64" and sz: "smallest_span_size h = 2 ^ i" "i < 63" and a: "a < 64"
  shows "wpf f (NewAligned env h n (2 ^ a)) (\<lambda>(r, h'). aligned_post owned h (RoundUpSize h n) (2 ^ a) r h')"
proof -
  define k where "k = RoundUpSize h n"
  define alloc where "alloc = w64 (k + 2 ^ a)"
  have k1: "1 \<le> k" unfolding k_def by (rule RoundUpSize_pos [OF sz n])
  have room2: "f \<or> pha_room sizeof_Span (span_allocator h) 2" using room(1) pha_room_less [of _ _ 4 2] by auto
  show ?thesis
  proof (cases "alloc < k \<or> alloc < 2 ^ a")
    case True
    have big: "2 ^ 63 \<le> RoundUpSize h (2 ^ 64 - 1)" using RoundUpSize_cases [OF sz, of "2 ^ 64 - 1"] by auto
    have r0: "r = 0" if s: "served owned h (RoundUpSize h (2 ^ 64 - 1)) 0 r h'" for r h'
    proof (rule ccontr)
      assume "r \<noteq> 0"
      with s obtain s where "inuse h' r = Some s" "len s = RoundUpSize h (2 ^ 64 - 1)" "hinv owned {} h'" by (auto simp: served_def)
      with inuse_len(1) [of owned h' r s] small big show False by simp
    qed
    have "1 \<le> RoundUpSize h (2 ^ 64 - 1)" using big by simp
    from NewWithSizeClass_spec [OF sane inv small f room2 room(2) this, where sc = 0]
    have "wpf f (NewWithSizeClass env h (2 ^ 64 - 1) 0) (\<lambda>(r, h'). r = 0 \<and> served owned h k 0 r h')"
    proof (rule wpf_conseq, clarify)
      fix r h' assume s: "served owned h (RoundUpSize h (2 ^ 64 - 1)) 0 r h'"
      have "r = 0" by (rule r0 [OF s])
      with s show "r = 0 \<and> served owned h k 0 r h'" by (simp add: served_def)
    qed
    then show ?thesis using True unfolding NewAligned_cut Let_def k_def [symmetric] alloc_def [symmetric]
      by (auto simp: aligned_post_def case_prod_unfold elim!: wpf_conseq)
  next
    case False
    have p2: "(2::nat) ^ a \<le> 2 ^ 63" using a power_increasing [of a 63 "2::nat"] by simp
    have kb: "k < 2 ^ 64"
    proof -
      have "w64 (n + (smallest_span_size h - 1)) < 2 ^ 64" by (simp add: w64_def)
      then show ?thesis unfolding k_def RoundUpSize_def Let_def by (auto intro: le_less_trans [OF diff_le_self])
    qed
    have al: "alloc = k + 2 ^ a"
    proof (rule ccontr)
      assume ne: "alloc \<noteq> k + 2 ^ a"
      then have "2 ^ 64 \<le> k + 2 ^ a" unfolding alloc_def by (metis not_le w64_small)
      then have "alloc = k + 2 ^ a - 2 ^ 64" unfolding alloc_def w64_def using kb p2 by (simp add: le_mod_geq)
      with False kb show False using \<open>2 ^ 64 \<le> k + 2 ^ a\<close> by linarith
    qed
    have a64: "1 \<le> alloc" "alloc < 2 ^ 64" using k1 al by linarith (simp add: alloc_def w64_def)
    note NL = NewLocked_spec [OF sane inv small f room2 RoundUpSize_pos [OF sz a64], where g = 0]
    have big: "alloc \<le> RoundUpSize h alloc" if "RoundUpSize h alloc < 2 ^ 31" using RoundUpSize_cases [OF sz a64(2)] that by auto
    have mid: "wpf f (if r = 0 then Some (0, h1) else cut_aligned env h1 r k (2 ^ a))
        (\<lambda>(r, h2). aligned_post owned h k (2 ^ a) r h2 \<and> stacktrace_allocator h2 = stacktrace_allocator h)"
      if g: "given owned h (RoundUpSize h alloc) r h1" for r h1
    proof (cases "r = 0")
      case True
      then show ?thesis using g by (auto simp: given_def aligned_post_def served_def akeeps_def)
    next
      case r: False
      obtain s where s: "inuse h1 = (inuse h)(r \<mapsto> s)" "len s = RoundUpSize h alloc" "sizeclass s = 0" "r \<notin> dom (inuse h)" "hinv owned {} h1" "akeeps 2 h h1"
        using g r by (auto simp: given_def)
      have s1: "inuse h1 r = Some s" by (simp add: s(1))
      have "k + 2 ^ a \<le> len s" using big inuse_len(1) [OF s(5) small s1] by (simp add: s(2) al)
      moreover have "f \<or> pha_room sizeof_Span (span_allocator h1) 2" using room(1) s(6) by (auto simp: akeeps_def)
      moreover have "(inuse h1)(r := None) = inuse h" using s(4) by (auto simp: s(1))
      ultimately show ?thesis using r cut_aligned_spec [OF sane s(5) small f _ s1 s(3) r k1, of a] s(6)
        by (auto simp: aligned_post_def served_def akeeps_def elim!: wpf_conseq)
    qed
    have e: "NewAligned env h n (2 ^ a) = do { (r, g, h1) \<leftarrow> NewLocked env h alloc 0;
       (r, h2) \<leftarrow> (if r = 0 then Some (0, h1) else cut_aligned env h1 r k (2 ^ a));
       h3 \<leftarrow> HandleUnlock env h2 g; Some (r, h3) }"
      using False unfolding NewAligned_cut Let_def k_def [symmetric] alloc_def [symmetric] by simp
    show ?thesis unfolding e k_def [symmetric] wpf_bind [of f "NewLocked env h alloc 0"]
    proof (rule wpf_conseq [OF NL], clarify)
      fix r g h1 assume "given owned h (RoundUpSize h alloc) r h1"
      note m = mid [OF this]
      show "wpf f (do { (r, h2) \<leftarrow> (if r = 0 then Some (0, h1) else cut_aligned env h1 r k (2 ^ a)); h3 \<leftarrow> HandleUnlock env h2 g; Some (r, h3) })
        (\<lambda>(r, h'). aligned_post owned h k (2 ^ a) r h')"
        unfolding wpf_bind [of f "if r = 0 then Some (0, h1) else cut_aligned env h1 r k (2 ^ a)"]
      proof (rule wpf_conseq [OF m], clarify)
        fix q h2 assume h2: "aligned_post owned h k (2 ^ a) q h2" "stacktrace_allocator h2 = stacktrace_allocator h"
        have "wpf f (HandleUnlock env h2 g) (noted owned h2)"
          by (rule HandleUnlock_spec [OF sane]) (use h2 room(2) in \<open>simp_all add: aligned_post_def served_def\<close>)
        then show "wpf f (do { h3 \<leftarrow> HandleUnlock env h2 g; Some (q, h3) }) (\<lambda>(r, h'). aligned_post owned h k (2 ^ a) r h')"
          using aligned_noted [OF h2(1)] by (auto elim!: wpf_conseq)
      qed
    qed
  qed
qed

section \<open>A search does not miss a free span\<close>

lemma EnsureLimit_none: "FLAGS_tcmalloc_heap_limit_mb env = 0 \<Longrightarrow> EnsureLimit env h n w = Some (True, h)"
  by (simp add: EnsureLimit_def Let_def w64_def)

definition has_free :: "'o heap \<Rightarrow> nat \<Rightarrow> bool" where
  "has_free h n \<longleftrightarrow> (\<exists>p s. hp_spans h p = Some s \<and> location s \<noteq> IN_USE \<and> n \<le> len s)"

lemma large_found:
  assumes "pool (at_loc S {} loc) fl lg b" "S p = Some s" "location s = loc" "kMaxPages < len s" "n \<le> len s" "1 \<le> start s"
  shows "SpanSet_upper_bound \<lparr>sp_length = n, sp_start = 0, sp_span = 0\<rparr> lg \<noteq> None"
proof -
  have "the_ptr p s \<in> set lg" using assms(1-4) by (auto simp: pool_def large_of_def)
  moreover have "SpanBestFitLess \<lparr>sp_length = n, sp_start = 0, sp_span = 0\<rparr> (the_ptr p s)" using assms(5,6) by (simp add: SpanBestFitLess_def)
  ultimately show ?thesis unfolding SpanSet_upper_bound_def by (auto simp: find_None_iff)
qed

lemma Carve_found:
  assumes "os_sane env owned" "hinv owned {} h" "os_small owned" "f \<or> pha_room sizeof_Span (span_allocator h) 1"
    "\<exists>s. hp_spans h p = Some s \<and> location s \<noteq> IN_USE \<and> n \<le> len s" "1 \<le> n"
  shows "wpf f (Carve env h p n) (\<lambda>(r, h'). r \<noteq> 0)"
proof -
  obtain s where "hp_spans h p = Some s" "location s \<noteq> IN_USE" "n \<le> len s" using assms(5) by blast
  from Carve_spec [OF assms(1-4) this(1,2) assms(6) this(3)] show ?thesis
    by (rule wpf_conseq) (auto simp: taken_def)
qed

lemma AllocLarge_found:
  assumes sane: "os_sane env owned" and inv: "hinv owned {} h" and small: "os_small owned"
    and nolimit: "FLAGS_tcmalloc_heap_limit_mb env = 0"
    and room: "f \<or> pha_room sizeof_Span (span_allocator h) 1" and n: "1 \<le> n" "n \<le> x" "kMaxPages < x" and free: "has_free h x"
  shows "wpf f (AllocLarge env h n) (\<lambda>(r, h'). r \<noteq> 0)"
proof -
  note I = hinvxD [OF inv]
  let ?b = "\<lparr>sp_length = n, sp_start = 0, sp_span = 0\<rparr>"
  define bn where "bn = SpanSet_upper_bound ?b (large_normal h)"
  define br where "br = SpanSet_upper_bound ?b (large_returned h)"
  have cn: "\<exists>s. hp_spans h b = Some s \<and> location s \<noteq> IN_USE \<and> n \<le> len s" if "bn = Some b" for b
    by (rule large_candidate [OF I(3)]) (use that in \<open>simp_all add: bn_def\<close>)
  have cr: "\<exists>s. hp_spans h b = Some s \<and> location s \<noteq> IN_USE \<and> n \<le> len s" if "br = Some b" for b
    by (rule large_candidate [OF I(4)]) (use that in \<open>simp_all add: br_def\<close>)
  have some: "bn \<noteq> None \<or> br \<noteq> None"
  proof -
    obtain p s where p: "hp_spans h p = Some s" "location s \<noteq> IN_USE" "x \<le> len s" using free by (auto simp: has_free_def)
    have l: "kMaxPages < len s" "n \<le> len s" "1 \<le> start s" using p(3) n spans_okD(3) [OF I(1) p(1)] by simp_all
    show ?thesis unfolding bn_def br_def
      using large_found [OF I(3) p(1) _ l] large_found [OF I(4) p(1) _ l] p(2) by (cases "location s") auto
  qed
  note carve = Carve_found [OF sane inv small room _ n(1)]
  have "AllocLarge env h n = (case br of None \<Rightarrow> (case bn of None \<Rightarrow> Some (0, h) | Some b \<Rightarrow> Carve env h b n)
     | Some c \<Rightarrow> (case bn of None \<Rightarrow> Carve env h c n
        | Some b \<Rightarrow> do { sc \<leftarrow> hp_spans h c; sb \<leftarrow> hp_spans h b; Carve env h (if len sc < len sb then c else b) n }))"
    unfolding AllocLarge.simps [of env h n] Let_def bn_def [symmetric] br_def [symmetric] EnsureLimit_none [OF nolimit]
    by (auto split: option.split intro!: bind_option_cong)
  with some carve [OF cn] carve [OF cr] cn cr show ?thesis by (fastforce split: option.split)
qed

lemma pool_empty: "pool (at_loc S {} loc) fl lg b \<Longrightarrow> fl i = [] \<Longrightarrow> i < kMaxPages \<Longrightarrow> S p = Some s \<Longrightarrow> location s = loc \<Longrightarrow> len s \<noteq> i + 1"
  unfolding pool_def small_of_def by fastforce

lemma search_found:
  assumes sane: "os_sane env owned" and inv: "hinv owned {} h" and small: "os_small owned"
    and nolimit: "FLAGS_tcmalloc_heap_limit_mb env = 0"
    and room: "f \<or> pha_room sizeof_Span (span_allocator h) 1" and n: "1 \<le> n" "n \<le> x" and free: "has_free h x"
  shows "wpf f (search_lists env h n x) (\<lambda>(r, h'). r \<noteq> 0)"
  using n(2) free
proof (induction "kMaxPages + 1 - x" arbitrary: x)
  case 0
  then show ?case using AllocLarge_found [OF sane inv small nolimit room n(1), of x] by (subst search_lists.simps) simp
next
  case (Suc k)
  note I = hinvxD [OF inv]
  have x: "x \<le> kMaxPages" "x - 1 < kMaxPages" "x - 1 + 1 = x" using Suc.hyps(2) Suc.prems n(1) by simp_all
  note carve = Carve_found [OF sane inv small room _ n(1)]
  show ?case
  proof (cases "free_normal h (x - 1)")
    case (Cons p ps)
    have "\<exists>t. hp_spans h p = Some t \<and> location t \<noteq> IN_USE \<and> n \<le> len t"
      using small_candidate [OF I(3) Cons x(2)] x(3) Suc.prems by auto
    then show ?thesis using x(1) Cons carve by (subst search_lists.simps) simp
  next
    case Nil
    show ?thesis
    proof (cases "free_returned h (x - 1)")
      case (Cons p ps)
      have "\<exists>t. hp_spans h p = Some t \<and> location t \<noteq> IN_USE \<and> n \<le> len t"
        using small_candidate [OF I(4) Cons x(2)] x(3) Suc.prems by auto
      then show ?thesis using x(1) Nil Cons carve by (subst search_lists.simps) (simp add: EnsureLimit_none [OF nolimit])
    next
      case nil: Nil
      obtain p s where p: "hp_spans h p = Some s" "location s \<noteq> IN_USE" "x \<le> len s" using Suc.prems(2) by (auto simp: has_free_def)
      have "len s \<noteq> x - 1 + 1"
        using pool_empty [OF I(3) Nil x(2) p(1)] pool_empty [OF I(4) nil x(2) p(1)] p(2) by (cases "location s") auto
      then have "has_free h (x + 1)" using p x(3) by (auto simp: has_free_def intro!: exI [of _ p])
      then have "wpf f (search_lists env h n (x + 1)) (\<lambda>(r, h'). r \<noteq> 0)"
        using Suc.hyps Suc.prems(1) by simp
      then show ?thesis using x(1) Nil nil by (subst search_lists.simps) simp
    qed
  qed
qed

lemma fu_has_free:
  assumes "hinv owned {} h" "0 < fu h"
  shows "has_free h 1"
proof -
  note I = hinvxD [OF assms(1)]
  let ?N = "at_loc (hp_spans h) {} ON_NORMAL_FREELIST" and ?R = "at_loc (hp_spans h) {} ON_RETURNED_FREELIST"
  have "tot ?N \<noteq> 0 \<or> tot ?R \<noteq> 0" using assms(2) I(3,4) by (auto simp: fu_def pool_def)
  moreover have "has_free h 1" if "tot (at_loc (hp_spans h) {} loc) \<noteq> 0" "loc \<noteq> IN_USE" for loc
  proof -
    have "dom (at_loc (hp_spans h) {} loc) \<noteq> {}" using that(1) by (auto simp: tot_def)
    then obtain p s where "hp_spans h p = Some s" "location s = loc" by fastforce
    with that(2) spans_okD(4) [OF I(1)] show ?thesis by (auto simp: has_free_def)
  qed
  ultimately show ?thesis by auto
qed

lemma NewLocked_found:
  assumes sane: "os_sane env owned" and inv: "hinv owned {} h" and small: "os_small owned"
    and nolimit: "FLAGS_tcmalloc_heap_limit_mb env = 0"
    and room: "f \<or> pha_room sizeof_Span (span_allocator h) 1" and n: "1 \<le> RoundUpSize h n" and free: "has_free h (RoundUpSize h n)"
  shows "wpf f (NewLocked env h n g) (\<lambda>(r, g', h'). r \<noteq> 0 \<and> g' = g)"
  unfolding NewLocked_def Let_def SearchFreeAndLargeLists_def wpf_bind [of f "search_lists env h (RoundUpSize h n) (RoundUpSize h n)"]
  by (rule wpf_conseq [OF search_found [OF sane inv small nolimit room n order_refl free]]) auto

lemma NewWithSizeClass_found:
  assumes "NewWithSizeClass env h n sc = Some (r, h')" "wpf True (NewLocked env h n 0) (\<lambda>(r, g', h'). r \<noteq> 0 \<and> g' = 0)"
  shows "r \<noteq> 0"
  using assms by (auto simp: NewWithSizeClass_def bind_eq_Some_conv wpf_partial)

section \<open>The contract of a source of spans\<close>

text \<open>
  A source of spans answers calls and takes spans back.  Its clients see the spans in use: an answer that is not null
  adds a span that was not in use and fits the call, and giving a span back removes it and nothing else.
\<close>

fun run_calls :: "('q \<Rightarrow> 's \<Rightarrow> (nat \<times> 's) option) \<Rightarrow> ('s \<Rightarrow> nat \<Rightarrow> 's option) \<Rightarrow> ('q + nat) list \<Rightarrow> 's \<Rightarrow> ('q \<times> nat) list \<Rightarrow>
    ('s \<times> ('q \<times> nat) list) option" where
  "run_calls serve give_back [] s xs = Some (s, xs)"
| "run_calls serve give_back (Inl q # cs) s xs = do { (p, s) \<leftarrow> serve q s; run_calls serve give_back cs s (if p = 0 then xs else (q, p) # xs) }"
| "run_calls serve give_back (Inr i # cs) s xs =
     (if i < length xs then do { s \<leftarrow> give_back s (snd (xs ! i)); run_calls serve give_back cs s (take i xs @ drop (Suc i) xs) } else None)"

definition live :: "('q \<Rightarrow> span \<Rightarrow> bool) \<Rightarrow> ('q \<times> nat) list \<Rightarrow> (nat \<rightharpoonup> span) \<Rightarrow> bool" where
  "live fits xs U \<longleftrightarrow> distinct (map snd xs) \<and> dom U = snd ` set xs \<and> (\<forall>(q, p) \<in> set xs. p \<noteq> 0 \<and> (\<exists>t. U p = Some t \<and> fits q t))"

lemma live_add: "live fits xs U \<Longrightarrow> p \<notin> dom U \<Longrightarrow> p \<noteq> 0 \<Longrightarrow> fits q t \<Longrightarrow> live fits ((q, p) # xs) (U(p \<mapsto> t))"
  unfolding live_def by (auto split: prod.splits) (metis domI)+

lemma live_remove:
  assumes "live fits xs U" "i < length xs"
  shows "live fits (take i xs @ drop (Suc i) xs) (U(snd (xs ! i) := None))"
proof -
  define p ys where "p = snd (xs ! i)" and "ys = take i xs @ drop (Suc i) xs"
  have xs: "xs = take i xs @ xs ! i # drop (Suc i) xs" using assms(2) by (rule id_take_nth_drop)
  have d: "distinct (map snd (take i xs @ xs ! i # drop (Suc i) xs))" using assms(1) unfolding live_def by (simp flip: xs)
  have ins: "set xs = insert (xs ! i) (set ys)" unfolding ys_def by (subst xs) auto
  have np: "p \<notin> snd ` set ys" using d by (auto simp: p_def ys_def)
  have U: "dom U = insert p (snd ` set ys)" "\<And>q r. (q, r) \<in> set ys \<Longrightarrow> r \<noteq> 0 \<and> (\<exists>t. U r = Some t \<and> fits q t)"
    using assms(1) unfolding live_def ins p_def by auto
  have "distinct (map snd ys)" using d by (simp add: ys_def)
  moreover have "dom (U(p := None)) = snd ` set ys" using U(1) np by simp
  moreover have "r \<noteq> 0 \<and> (\<exists>t. (U(p := None)) r = Some t \<and> fits q t)" if m: "(q, r) \<in> set ys" for q r
  proof -
    have "r \<noteq> p" using m np by (metis image_eqI snd_conv)
    then show ?thesis using U(2) [OF m] by simp
  qed
  ultimately have "live fits ys (U(p := None))" unfolding live_def by blast
  then show ?thesis by (simp only: p_def ys_def)
qed

locale span_source =
  fixes serve :: "'q \<Rightarrow> 's \<Rightarrow> (nat \<times> 's) option" and give_back :: "'s \<Rightarrow> nat \<Rightarrow> 's option"
    and valid :: "'q \<Rightarrow> bool" and fits :: "'q \<Rightarrow> span \<Rightarrow> bool" and view :: "'s \<Rightarrow> (nat \<rightharpoonup> span)" and good :: "'s \<Rightarrow> bool"
  assumes serve: "good s \<Longrightarrow> valid q \<Longrightarrow> serve q s = Some (p, s') \<Longrightarrow>
      good s' \<and> (if p = 0 then view s' = view s else p \<notin> dom (view s) \<and> (\<exists>t. view s' = (view s)(p \<mapsto> t) \<and> fits q t))"
    and give_back: "good s \<Longrightarrow> p \<in> dom (view s) \<Longrightarrow> give_back s p = Some s' \<Longrightarrow> good s' \<and> view s' = (view s)(p := None)"
begin

lemma calls:
  "good s \<Longrightarrow> live fits xs (view s) \<Longrightarrow> (\<And>q. Inl q \<in> set cs \<Longrightarrow> valid q) \<Longrightarrow> run_calls serve give_back cs s xs = Some (s', ys) \<Longrightarrow>
   good s' \<and> live fits ys (view s')"
proof (induction cs arbitrary: s xs)
  case (Cons c cs)
  show ?case
  proof (cases c)
    case (Inl q)
    then obtain p s1 where s1: "serve q s = Some (p, s1)" "run_calls serve give_back cs s1 (if p = 0 then xs else (q, p) # xs) = Some (s', ys)"
      using Cons.prems(4) by (auto simp: bind_eq_Some_conv)
    have p: "good s1" "if p = 0 then view s1 = view s else p \<notin> dom (view s) \<and> (\<exists>t. view s1 = (view s)(p \<mapsto> t) \<and> fits q t)"
      using serve [OF Cons.prems(1) _ s1(1)] Cons.prems(3) [of q] Inl by auto
    have "live fits (if p = 0 then xs else (q, p) # xs) (view s1)"
      using p(2) Cons.prems(2) live_add [of fits xs "view s" p q] by (auto split: if_splits)
    then show ?thesis using Cons.IH [OF p(1) _ _ s1(2)] Cons.prems(3) by auto
  next
    case (Inr i)
    then obtain s1 where s1: "i < length xs" "give_back s (snd (xs ! i)) = Some s1" "run_calls serve give_back cs s1 (take i xs @ drop (Suc i) xs) = Some (s', ys)"
      using Cons.prems(4) by (auto simp: bind_eq_Some_conv split: if_splits)
    have "snd (xs ! i) \<in> dom (view s)" using Cons.prems(2) s1(1) unfolding live_def by auto
    from give_back [OF Cons.prems(1) this s1(2)] have p: "good s1" "view s1 = (view s)(snd (xs ! i) := None)" by auto
    have "live fits (take i xs @ drop (Suc i) xs) (view s1)" unfolding p(2) by (rule live_remove [OF Cons.prems(2) s1(1)])
    then show ?thesis using Cons.IH [OF p(1) _ _ s1(3)] Cons.prems(3) by auto
  qed
qed simp

end

text \<open>The calls of the page heap: the ones that hand out spans and the ones that do not.\<close>

datatype heap_call =
  Call_New nat
| Call_NewWithSizeClass nat nat
| Call_NewAligned nat nat
| Call_ReleaseAtLeastNPages nat
| Call_SetAggressiveDecommit bool

definition serve_call :: "'o env \<Rightarrow> heap_call \<Rightarrow> 'o heap \<Rightarrow> (nat \<times> 'o heap) option" where
  "serve_call env c h =
     (case c of
        Call_New n \<Rightarrow> PageHeap_New env h n
      | Call_NewWithSizeClass n sc \<Rightarrow> NewWithSizeClass env h n sc
      | Call_NewAligned n al \<Rightarrow> NewAligned env h n al
      | Call_ReleaseAtLeastNPages n \<Rightarrow> do { (m, h) \<leftarrow> ReleaseAtLeastNPages env h n; Some (0, h) }
      | Call_SetAggressiveDecommit b \<Rightarrow> Some (0, SetAggressiveDecommit h b))"

text \<open>The preconditions of the header: at least one page, and an alignment that is a power of two.\<close>

fun valid_call :: "heap_call \<Rightarrow> bool" where
  "valid_call (Call_New n) \<longleftrightarrow> 1 \<le> n \<and> n < 2 ^ 64"
| "valid_call (Call_NewWithSizeClass n sc) \<longleftrightarrow> 1 \<le> n \<and> n < 2 ^ 64"
| "valid_call (Call_NewAligned n al) \<longleftrightarrow> 1 \<le> n \<and> n < 2 ^ 64 \<and> (\<exists>a < 64. al = 2 ^ a)"
| "valid_call (Call_ReleaseAtLeastNPages n) \<longleftrightarrow> True"
| "valid_call (Call_SetAggressiveDecommit b) \<longleftrightarrow> True"

fun fits_call :: "heap_call \<Rightarrow> span \<Rightarrow> bool" where
  "fits_call (Call_New n) s \<longleftrightarrow> n \<le> len s \<and> sizeclass s = 0"
| "fits_call (Call_NewWithSizeClass n sc) s \<longleftrightarrow> n \<le> len s \<and> sizeclass s = sc"
| "fits_call (Call_NewAligned n al) s \<longleftrightarrow> n \<le> len s \<and> sizeclass s = 0 \<and> al dvd start s"
| "fits_call (Call_ReleaseAtLeastNPages n) s \<longleftrightarrow> False"
| "fits_call (Call_SetAggressiveDecommit b) s \<longleftrightarrow> False"

definition heap_ok :: "('o \<Rightarrow> nat set) \<Rightarrow> 'o heap \<Rightarrow> bool" where
  "heap_ok owned h \<longleftrightarrow> hinv owned {} h \<and> (\<exists>i < 63. smallest_span_size h = 2 ^ i)"

lemma served_len:
  assumes "served owned h (RoundUpSize h n) sc p h'" "p \<noteq> 0" "os_small owned" "smallest_span_size h = 2 ^ i" "i < 63" "n < 2 ^ 64"
  shows "\<exists>t. inuse h' = (inuse h)(p \<mapsto> t) \<and> n \<le> len t \<and> sizeclass t = sc"
proof -
  obtain t where t: "inuse h' = (inuse h)(p \<mapsto> t)" "len t = RoundUpSize h n" "sizeclass t = sc" "hinv owned {} h'"
    using assms(1,2) by (auto simp: served_def)
  have "len t < 2 ^ 31" using inuse_len(1) [OF t(4) assms(3), of p t] t(1) by simp
  then have "n \<le> len t" using RoundUpSize_cases [OF assms(4-6)] t(2) by auto
  with t show ?thesis by blast
qed

lemma serve_class:
  assumes "os_sane env owned" "os_small owned" "heap_ok owned h" "1 \<le> n" "n < 2 ^ 64" "NewWithSizeClass env h n sc = Some (p, h')"
  shows "heap_ok owned h' \<and> (if p = 0 then inuse h' = inuse h else p \<notin> dom (inuse h) \<and>
    (\<exists>t. inuse h' = (inuse h)(p \<mapsto> t) \<and> n \<le> len t \<and> sizeclass t = sc))"
proof -
  obtain i where i: "smallest_span_size h = 2 ^ i" "i < 63" and inv: "hinv owned {} h" using assms(3) by (auto simp: heap_ok_def)
  have s: "served owned h (RoundUpSize h n) sc p h'"
    using wpfD [OF NewWithSizeClass_spec [OF assms(1) inv assms(2), where f = True, OF _ _ _ RoundUpSize_pos [OF i assms(4,5)]] assms(6)] by simp
  then show ?thesis using served_len [OF s _ assms(2) i assms(5)] i by (auto simp: served_def heap_ok_def)
qed

lemma PageHeap_span_source:
  assumes "os_sane env owned" "os_small owned"
  shows "span_source (serve_call env) (PageHeap_Delete env) valid_call fits_call inuse (heap_ok owned)"
proof
  fix h :: "'a heap" and q p h'
  assume h: "heap_ok owned h" "valid_call q" "serve_call env q h = Some (p, h')"
  obtain i where i: "smallest_span_size h = 2 ^ i" "i < 63" and inv: "hinv owned {} h" using h(1) by (auto simp: heap_ok_def)
  show "heap_ok owned h' \<and> (if p = 0 then inuse h' = inuse h else p \<notin> dom (inuse h) \<and> (\<exists>t. inuse h' = (inuse h)(p \<mapsto> t) \<and> fits_call q t))"
  proof (cases q)
    case (Call_New n)
    then show ?thesis using serve_class [OF assms h(1), of n 0 p h'] h(2,3) by (auto simp: serve_call_def PageHeap_New_def)
  next
    case (Call_NewWithSizeClass n sc)
    then show ?thesis using serve_class [OF assms h(1), of n sc p h'] h(2,3) by (auto simp: serve_call_def)
  next
    case (Call_NewAligned n al)
    then obtain a where a: "al = 2 ^ a" "a < 64" "1 \<le> n" "n < 2 ^ 64" using h(2) by auto
    have s: "aligned_post owned h (RoundUpSize h n) al p h'"
      using wpfD [OF NewAligned_spec [OF assms(1) inv assms(2), where f = True, OF _ _ _ a(3,4) i a(2)]] h(3) Call_NewAligned a(1)
      by (simp add: serve_call_def)
    then have sv: "served owned h (RoundUpSize h n) 0 p h'" and ok: "heap_ok owned h'" using i by (auto simp: aligned_post_def served_def heap_ok_def)
    show ?thesis
    proof (cases "p = 0")
      case True
      then show ?thesis using sv ok by (simp add: served_def)
    next
      case False
      obtain t where t: "inuse h' = (inuse h)(p \<mapsto> t)" "n \<le> len t" "sizeclass t = 0"
        using served_len [OF sv False assms(2) i a(4)] by blast
      have "al dvd start t" using s False t(1) by (simp add: aligned_post_def)
      then show ?thesis using t sv False ok Call_NewAligned by (auto simp: served_def)
    qed
  next
    case (Call_ReleaseAtLeastNPages n)
    then obtain m where m: "ReleaseAtLeastNPages env h n = Some (m, h')" "p = 0"
      using h(3) by (auto simp: serve_call_def bind_eq_Some_conv)
    from wpfD [OF ReleaseAtLeastNPages_spec [OF assms(1) inv assms(2), of True n] m(1)] show ?thesis
      using m(2) i by (auto simp: released_at_least_def released_def calm_def keeps_def heap_ok_def)
  next
    case (Call_SetAggressiveDecommit b)
    then show ?thesis using h(3) inv i by (auto simp: serve_call_def SetAggressiveDecommit_def heap_ok_def inuse_def hinvx_def mem_ok_def)
  qed
next
  fix h :: "'a heap" and p h'
  assume h: "heap_ok owned h" "p \<in> dom (inuse h)" "PageHeap_Delete env h p = Some h'"
  then obtain s i where s: "hp_spans h p = Some s" "location s = IN_USE" "hinv owned {} h" "smallest_span_size h = 2 ^ i" "i < 63"
    using inuse_spans by (fastforce simp: heap_ok_def)
  from wpfD [OF DeleteLocked_spec [OF assms(1) s(3) assms(2) _ s(1,2), of True]] h(3) s(4,5)
  show "heap_ok owned h' \<and> inuse h' = (inuse h)(p := None)" by (auto simp: PageHeap_Delete_def heap_ok_def keeps_def)
qed

interpretation bump_heap: span_source "serve_call bump_env" "PageHeap_Delete bump_env" valid_call fits_call inuse "heap_ok bump_owned"
  by (rule PageHeap_span_source [OF bump_env_sane bump_owned_small])

section \<open>The state after construction\<close>

lemma PageHeap_new_hinv:
  assumes "PageHeap_new smallest m sa ta Map.empty cache = Some h" "alloc_inv owned sizeof_Span {} sa m {}"
  shows "hinv owned {} h" "inuse h = Map.empty" "smallest_span_size h = smallest"
proof -
  have h: "hp_spans h = Map.empty" "pagemap h = PageMap2_new" "span_allocator h = sa" "hp_meta h = m" "stats h = zero_stats"
    "free_normal h = (\<lambda>_. [])" "free_returned h = (\<lambda>_. [])" "large_normal h = []" "large_returned h = []" "smallest_span_size h = smallest"
    using assms(1) by (auto simp: PageHeap_new_def split: if_splits)
  have at: "at_loc Map.empty {} loc = Map.empty" for loc by (simp add: at_loc_def)
  have p: "pool Map.empty (\<lambda>_. []) [] 0" by (simp add: pool_def small_of_def large_of_def tot_def)
  have g: "PageMap2_get 35 PageMap2_new k = 0" for k by (simp add: PageMap2_get_def PageMap2_new_def Let_def)
  have "mem_ok owned h" unfolding mem_ok_def by (intro exI [of _ "{}"]) (use assms(2) h in \<open>simp add: zero_stats_def\<close>)
  then show "hinv owned {} h"
    using p by (simp add: hinvx_def h at spans_ok_def pmap_ok_def g tot_def zero_stats_def)
  show "inuse h = Map.empty" "smallest_span_size h = smallest" by (simp_all add: inuse_def h at)
qed

section \<open>A heap with one span in use\<close>

text \<open>
  The first 16 MB belong to the process: pages 1 to 4 are a span in use, described by the object at 1 MB, which is the
  first of an area of 128 KB for spans; the area at 2 MB is for stack traces.
\<close>

definition one_span :: span where
  "one_span = zero_span\<lparr>start := 1, len := 4\<rparr>"

definition one_heap :: "(nat \<times> nat set) heap" where
  "one_heap = \<lparr>hp_meta = \<lparr>meta_sys = \<lparr>sys_os = (16777216, {..<16777216}), mmap_hint = 0, failed_sbrk = False, failed_mmap = False,
       SystemTaken = 16777216\<rparr>, metadata_system_bytes = 262144, metadata_chunk_alloc = 0, metadata_chunk_avail = 0\<rparr>,
     span_allocator = \<lparr>free_area = 1048624, free_avail = 131024, free_list = 0, inuse = 1, links = (\<lambda>_. 0)\<rparr>,
     stacktrace_allocator = \<lparr>free_area = 2097152, free_avail = 131072, free_list = 0, inuse = 0, links = (\<lambda>_. 0)\<rparr>,
     hp_spans = [1048576 \<mapsto> one_span], smallest_span_size = 1, pagemap_cache = (\<lambda>_. 0),
     pagemap = [0 \<mapsto> (\<lambda>k. if k = 1 \<or> k = 4 then 1048576 else 0)], large_normal = [], large_returned = [],
     free_normal = (\<lambda>_. []), free_returned = (\<lambda>_. []), stats = zero_stats\<lparr>system_bytes := 32768, committed_bytes := 32768\<rparr>,
     scavenge_counter = 0, release_index = kMaxPages, aggressive_decommit = False, growth_stacks = []\<rparr>"

lemma one_heap_get: "PageMap2_get 35 (pagemap one_heap) k = (if k = 1 \<or> k = 4 then 1048576 else 0)"
proof (cases "k < 262144")
  case True
  then show ?thesis by (simp add: PageMap2_get_eq one_heap_def pm2_consts)
next
  case False
  then have "k div 262144 \<noteq> 0" by (simp add: div_eq_0_iff)
  with False show ?thesis by (simp add: PageMap2_get_eq one_heap_def pm2_consts)
qed

lemma one_heap_mem: "mem_ok bump_owned one_heap"
proof -
  let ?R = "{8192..<40960} :: nat set" and ?H = "{1048576..<1179648} :: nat set"
  have "objs_ok 48 ?H {1048576} 1048624 131024" by (auto simp: objs_ok_def)
  then have "pha_inv sizeof_Span (span_allocator one_heap) ?H {1048576}"
    by (auto simp: pha_inv_def pha_rep_def one_heap_def tc_consts intro!: exI [of _ "[]"])
  moreover have "meta_inv bump_owned (?H \<union> ?R) (hp_meta one_heap)" by (auto simp: meta_inv_def one_heap_def bump_owned_def)
  moreover have "?H \<inter> ?R = {}" by auto
  ultimately have "alloc_inv bump_owned sizeof_Span ?R (span_allocator one_heap) (hp_meta one_heap) {1048576}"
    unfolding alloc_inv_def by blast
  then show ?thesis unfolding mem_ok_def
    by (intro exI [of _ ?R]) (auto simp: one_heap_def span_mem_def one_span_def split: if_splits)
qed

lemma one_heap_ok: "heap_ok bump_owned one_heap"
proof -
  have S: "hp_spans one_heap = [1048576 \<mapsto> one_span]" by (simp add: one_heap_def)
  have "spans_ok (hp_spans one_heap)" by (auto simp: S spans_ok_def one_span_def split: if_splits)
  moreover have "ens2 35 (pagemap one_heap) k" if "k \<le> 5" for k
    using that by (simp add: ens2_def one_heap_def pm2_consts)
  then have "pmap_ok (hp_spans one_heap) (pagemap one_heap)"
    by (auto simp: S pmap_ok_def one_heap_get one_span_def zero_span_def span_pages_def split: if_splits)
  moreover have "at_loc (hp_spans one_heap) {} loc = Map.empty" if "loc \<noteq> IN_USE" for loc
    using that by (auto simp: S at_loc_def one_span_def zero_span_def fun_eq_iff)
  moreover have "pool Map.empty (\<lambda>_. []) [] 0" by (simp add: pool_def small_of_def large_of_def tot_def)
  ultimately have "hinv bump_owned {} one_heap"
    using one_heap_mem by (simp add: hinvx_def) (simp add: one_heap_def tot_def zero_stats_def)
  then show ?thesis by (auto simp: heap_ok_def one_heap_def intro!: exI [of _ 0])
qed

lemma one_heap_facts:
  "hp_spans one_heap 1048576 = Some one_span" "location one_span = IN_USE" "inuse one_heap = [1048576 \<mapsto> one_span]"
  "pha_room sizeof_Span (span_allocator one_heap) 4" "pha_room sizeof_StackTrace (stacktrace_allocator one_heap) 1"
  by (auto simp: one_heap_def one_span_def zero_span_def inuse_def at_loc_def fun_eq_iff pha_room_def tc_consts)

lemma bump_env_willing: "release_willing bump_env"
  by (auto simp: release_willing_def bump_env_def intro!: exI [of _ 12])

section \<open>Properties\<close>











text \<open>
  C5. \<^verbatim>\<open>New\<close> does not fail while there is memory: without a heap limit, when some free span, on a normal or on a returned
  list, has at least the rounded number of pages, the result is not null.
\<close>

theorem New_finds_free_span:
  assumes "os_sane env owned" "os_small owned" "heap_ok owned h" "release_total env" "1 \<le> n" "n < 2 ^ 64"
    "pha_room sizeof_Span (span_allocator h) 2" "pha_room sizeof_StackTrace (stacktrace_allocator h) 1"
    and nolimit: "FLAGS_tcmalloc_heap_limit_mb env = 0"
    and free: "hp_spans h p = Some s" "location s \<noteq> IN_USE" "RoundUpSize h n \<le> len s"
  shows "wpo (PageHeap_New env h n) (\<lambda>(r, h'). r \<noteq> 0 \<and> r \<notin> dom (inuse h) \<and> (\<exists>t. inuse h' = (inuse h)(r \<mapsto> t) \<and> n \<le> len t))"
proof -
  obtain i where i: "smallest_span_size h = 2 ^ i" "i < 63" and inv: "hinv owned {} h" using assms(3) by (auto simp: heap_ok_def)
  have pos: "1 \<le> RoundUpSize h n" by (rule RoundUpSize_pos [OF i assms(5,6)])
  have nl: "wpf True (NewLocked env h n 0) (\<lambda>(r, g', h'). r \<noteq> 0 \<and> g' = 0)"
    by (rule NewLocked_found [OF assms(1) inv assms(2) nolimit _ pos]) (use free in \<open>auto simp: has_free_def\<close>)
  have "wpf False (NewWithSizeClass env h n 0) (\<lambda>(r, h'). served owned h (RoundUpSize h n) 0 r h')"
    using assms(4,7,8) by (intro NewWithSizeClass_spec [OF assms(1) inv assms(2) _ _ _ pos]) simp_all
  then show ?thesis unfolding wpf_total PageHeap_New_def
  proof (rule wpo_conseq, clarify)
    fix r h' assume r: "NewWithSizeClass env h n 0 = Some (r, h')" and s: "served owned h (RoundUpSize h n) 0 r h'"
    have r0: "r \<noteq> 0" by (rule NewWithSizeClass_found [OF r nl])
    from served_len [OF s r0 assms(2) i assms(6)] obtain t where "inuse h' = (inuse h)(r \<mapsto> t)" "n \<le> len t" by blast
    with r0 s show "r \<noteq> 0 \<and> r \<notin> dom (inuse h) \<and> (\<exists>t. inuse h' = (inuse h)(r \<mapsto> t) \<and> n \<le> len t)" by (auto simp: served_def)
  qed
qed

theorem New_finds_free_span_witness:
  "\<exists>h. heap_ok bump_owned h \<and> inuse h = Map.empty \<and> (\<exists>r h' t. PageHeap_New bump_env h 1 = Some (r, h') \<and> r \<noteq> 0 \<and> inuse h' = [r \<mapsto> t])"
proof -
  have u: "hp_spans one_heap 1048576 = Some one_span" "location one_span = IN_USE" by (rule one_heap_facts)+
  have inv: "hinv bump_owned {} one_heap" using one_heap_ok by (simp add: heap_ok_def)
  have t: "False \<or> release_total bump_env" using release_willing_total [OF bump_env_willing] by simp
  from DeleteLocked_spec [OF bump_env_sane inv bump_owned_small t u]
  obtain h where h: "hinv bump_owned {} h" "keeps one_heap h" "inuse h = Map.empty" "fu h = fu one_heap + 8192 * 4"
    unfolding wpf_total by (elim wpoE) (auto simp: one_heap_facts one_span_def)
  obtain p s where p: "hp_spans h p = Some s" "location s \<noteq> IN_USE" "1 \<le> len s"
    using fu_has_free [OF h(1)] h(4) by (auto simp: has_free_def)
  have sz: "smallest_span_size h = 1" using h(2) by (simp add: keeps_def one_heap_def)
  have ok: "heap_ok bump_owned h" using h(1) sz by (auto simp: heap_ok_def intro!: exI [of _ 0])
  have "RoundUpSize h 1 = 1" by (simp add: RoundUpSize_def Let_def sz w64_def)
  moreover have "pha_room sizeof_Span (span_allocator h) 2" "pha_room sizeof_StackTrace (stacktrace_allocator h) 1"
    using h(2) one_heap_facts(4,5) pha_room_less [of sizeof_Span "span_allocator one_heap" 4 2] by (auto simp: keeps_def)
  moreover have "FLAGS_tcmalloc_heap_limit_mb bump_env = 0" by (simp add: bump_env_def)
  ultimately have "wpo (PageHeap_New bump_env h 1) (\<lambda>(r, h'). r \<noteq> 0 \<and> r \<notin> dom (inuse h) \<and> (\<exists>t. inuse h' = (inuse h)(r \<mapsto> t) \<and> 1 \<le> len t))"
    using New_finds_free_span [OF bump_env_sane bump_owned_small ok release_willing_total [OF bump_env_willing] _ _ _ _ _ p(1,2), of 1] p(3) by simp
  then show ?thesis using ok h(3) unfolding wpo_def by (intro exI [of _ h]) (auto split: option.splits)
qed



text \<open>
  C8. \<^verbatim>\<open>GetNextRange\<close> walks the heap in address order: from a page \<open>first\<close> that is not inside of a span, it reports the address, the
  length and the kind of the span with the least start from \<open>first\<close> on, and the end only if no span starts there or later.
\<close>

theorem GetNextRange_next:
  assumes "heap_ok owned h" and out: "\<And>p s. hp_spans h p = Some s \<Longrightarrow> first \<le> start s \<or> start s + len s \<le> first"
  shows "wpo (GetNextRange sm h first) (\<lambda>r. case r of
      None \<Rightarrow> \<forall>p s. hp_spans h p = Some s \<longrightarrow> start s < first
    | Some r \<Rightarrow> \<exists>p s. hp_spans h p = Some s \<and> r_address r = 8192 * start s \<and> r_length r = 8192 * len s \<and> first \<le> start s \<and>
        (r_type r = INUSE \<longleftrightarrow> location s = IN_USE) \<and> (r_type r = FREE \<longleftrightarrow> location s = ON_NORMAL_FREELIST) \<and>
        (\<forall>q t. hp_spans h q = Some t \<longrightarrow> first \<le> start t \<longrightarrow> start s \<le> start t))"
proof -
  have inv: "hinv owned {} h" using assms by (simp add: heap_ok_def)
  note I = hinvxD [OF inv]
  define p where "p = PageMap2_Next 35 (pagemap h) first"
  have N: "next_spec (PageMap2_get 35 (pagemap h)) first p" unfolding p_def by (rule PageMap2_Next_spec) simp
  have st: "PageMap2_get 35 (pagemap h) (start t) \<noteq> 0" if "hp_spans h q = Some t" for q t
    using pmap_okD(2) [OF I(2) that] spans_okD(2) [OF I(1) that] by simp
  have eq: "PageMap2_Next kPageMapBits (pagemap h) first = p" by (simp add: p_def tc_consts)
  show ?thesis
  proof (cases "p = 0")
    case True
    then have "\<forall>j \<ge> first. PageMap2_get 35 (pagemap h) j = 0" using N by (simp add: next_spec_def)
    then have "\<forall>p s. hp_spans h p = Some s \<longrightarrow> start s < first" using st by (meson not_le)
    then show ?thesis by (simp add: GetNextRange_def eq True)
  next
    case False
    then obtain j where j: "first \<le> j" "PageMap2_get 35 (pagemap h) j = p" "\<And>i. first \<le> i \<Longrightarrow> i < j \<Longrightarrow> PageMap2_get 35 (pagemap h) i = 0"
      using N by (auto simp: next_spec_def)
    obtain q s where q: "hp_spans h q = Some s" "j \<in> span_pages s" using pmap_okD(5) [OF I(2), of j] j(2) False by auto
    have f: "first \<le> start s" using out [OF q(1)] q(2) j(1) by (auto simp: span_pages_def)
    have "\<not> start s < j" using j(3) [OF f] st [OF q(1)] by blast
    with q(2) have js: "j = start s" by (simp add: span_pages_def)
    with j(2) pmap_okD(2) [OF I(2) q(1)] have p: "hp_spans h p = Some s" using q(1) by simp
    have least: "start s \<le> start t" if "hp_spans h r = Some t" "first \<le> start t" for r t
      using j(3) [OF that(2)] st [OF that(1)] js by (meson not_le)
    have b: "page_bytes (start s) = 8192 * start s" "page_bytes (len s) = 8192 * len s"
      using spans_okD(5) [OF I(1) q(1)] by (simp_all add: page_bytes_small)
    show ?thesis using False p f least by (auto simp: GetNextRange_def eq b Let_def split: location.splits intro!: exI [of _ p] exI [of _ s])
  qed
qed

theorem GetNextRange_next_witness:
  "heap_ok bump_owned one_heap \<and> (\<forall>sm. \<exists>r. GetNextRange sm one_heap 0 = Some (Some r) \<and> r_address r = 8192 \<and> r_length r = 32768)"
proof -
  have sp: "hp_spans one_heap p = Some s \<longleftrightarrow> p = 1048576 \<and> s = one_span" for p s by (auto simp: one_heap_def)
  have "\<exists>r. GetNextRange sm one_heap 0 = Some (Some r) \<and> r_address r = 8192 \<and> r_length r = 32768" for sm
    using GetNextRange_next [OF one_heap_ok, of 0 sm] unfolding sp wpo_def
    by (auto simp: one_span_def split: option.splits)
  then show ?thesis using one_heap_ok by blast
qed

text \<open>
  C9. From a page inside of a span, \<^verbatim>\<open>GetNextRange\<close> reports the span around it, which starts before the page it was asked
  to start from.
\<close>

theorem GetNextRange_inside:
  assumes "heap_ok owned h" "hp_spans h p = Some s" "first = start s + len s - 1"
  shows "wpo (GetNextRange sm h first) (\<lambda>r. \<exists>r'. r = Some r' \<and> r_address r' = 8192 * start s)"
proof -
  have inv: "hinv owned {} h" using assms by (simp add: heap_ok_def)
  note I = hinvxD [OF inv]
  have p: "PageMap2_get 35 (pagemap h) first = p" "p \<noteq> 0"
    using pmap_okD(3) [OF I(2) assms(2)] spans_okD(2) [OF I(1) assms(2)] assms(3) by simp_all
  have N: "next_spec (PageMap2_get 35 (pagemap h)) first (PageMap2_Next 35 (pagemap h) first)" by (rule PageMap2_Next_spec) simp
  have r0: "PageMap2_Next 35 (pagemap h) first \<noteq> 0"
  proof
    assume "PageMap2_Next 35 (pagemap h) first = 0"
    with N have "PageMap2_get 35 (pagemap h) first = 0" by (simp add: next_spec_def)
    with p show False by simp
  qed
  then obtain j where j: "first \<le> j" "PageMap2_get 35 (pagemap h) j = PageMap2_Next 35 (pagemap h) first"
    "\<And>i. first \<le> i \<Longrightarrow> i < j \<Longrightarrow> PageMap2_get 35 (pagemap h) i = 0" using N by (auto simp: next_spec_def)
  have "j = first" using j(1) j(3) [of first] p by (cases "first < j") auto
  with j(2) p have "PageMap2_Next 35 (pagemap h) first = p" by simp
  moreover have "page_bytes (start s) = 8192 * start s" using spans_okD(5) [OF I(1) assms(2)] by (simp add: page_bytes_small)
  ultimately show ?thesis using p(2) assms(2) by (auto simp: GetNextRange_def Let_def tc_consts split: location.splits)
qed

theorem GetNextRange_inside_witness:
  "hp_spans one_heap 1048576 = Some one_span \<and> (\<forall>sm. \<exists>r. GetNextRange sm one_heap 4 = Some (Some r) \<and> r_address r = 8192 * 1)"
proof -
  have "\<exists>r. GetNextRange sm one_heap 4 = Some (Some r) \<and> r_address r = 8192 * 1" for sm
    using GetNextRange_inside [OF one_heap_ok one_heap_facts(1), of 4 sm] unfolding wpo_def by (auto simp: one_span_def split: option.splits)
  then show ?thesis using one_heap_facts(1) by blast
qed

text \<open>
  C10. The number of pages that \<^verbatim>\<open>Carve\<close> cuts off is kept in an \<^verbatim>\<open>int\<close>: when a free span exceeds the request by \<open>2 ^ 31\<close> to
  \<open>2 ^ 32 - 1\<close> pages, nothing is cut off, and the span that is returned has its whole length instead of \<open>n\<close> pages.
\<close>

theorem Carve_extra_truncated:
  assumes "hp_spans h p = Some s" "n + 2 ^ 31 \<le> len s" "len s < n + 2 ^ 32" "len s < 2 ^ 35" "Carve env h p n = Some (r, h')"
  shows "r = p \<and> (\<exists>s'. hp_spans h' p = Some s' \<and> location s' = IN_USE \<and> len s' = len s)"
proof -
  have m: "(d + 2147483648) mod 4294967296 = d - 2147483648" if "2147483648 \<le> d" "d < 4294967296" for d :: int
  proof -
    have "(d + 2147483648) mod 4294967296 = (d - 2147483648 + 4294967296) mod 4294967296" by (simp add: add.commute)
    also have "\<dots> = (d - 2147483648) mod 4294967296" by (rule mod_add_self2)
    also have "\<dots> = d - 2147483648" using that by (intro mod_pos_pos_trivial) simp_all
    finally show ?thesis .
  qed
  have e: "\<not> int32_of (int (sub64 (len s) n)) > 0" using assms(2-4) m [of "int (len s) - int n"] by (simp add: int32_of_def)
  have frame: "hp_spans h2 = hp_spans h1" if "RemoveFromFreeList h1 p = Some h2" for h1 h2
    using that by (auto simp: RemoveFromFreeList_def Let_def bind_eq_Some_conv split: if_splits)
  from assms(1,5) e obtain h1 h2 where h: "RemoveFromFreeList h p = Some h1" "set_span h1 p (\<lambda>s. s\<lparr>location := IN_USE\<rparr>) = Some h2"
    "(if location s = ON_RETURNED_FREELIST then CommitSpan h2 p else Some h2) = Some h'" "r = p"
    by (auto simp: Carve_def Let_def bind_eq_Some_conv)
  have "hp_spans h2 p = Some (s\<lparr>location := IN_USE\<rparr>)" using h(2) frame [OF h(1)] assms(1) by (auto simp: set_span_def)
  moreover have "hp_spans h' = hp_spans h2" using h(3) by (auto simp: CommitSpan_def Let_def bind_eq_Some_conv split: if_splits)
  ultimately show ?thesis using h(4) by simp
qed

theorem Carve_extra_truncated_witness:
  "\<exists>h h' r. hp_spans h 1 = Some (zero_span\<lparr>start := 1, len := 2 ^ 31 + 2, location := ON_NORMAL_FREELIST\<rparr>) \<and>
    Carve bump_env h 1 2 = Some (r, h') \<and> (\<exists>s'. hp_spans h' 1 = Some s' \<and> len s' = 2 ^ 31 + 2)"
proof -
  let ?s = "zero_span\<lparr>start := 1, len := 2 ^ 31 + 2, location := ON_NORMAL_FREELIST\<rparr>"
  define h where "h = one_heap\<lparr>hp_spans := [1 \<mapsto> ?s], large_normal := [\<lparr>sp_length = 2 ^ 31 + 2, sp_start = 1, sp_span = 1\<rparr>]\<rparr>"
  have hp: "hp_spans h 1 = Some ?s" by (simp add: h_def)
  obtain r h' where c: "Carve bump_env h 1 2 = Some (r, h')"
    by (simp add: Carve_def RemoveFromFreeList_def Let_def h_def set_span_def int32_of_def tc_consts)
  have "\<exists>s'. hp_spans h' 1 = Some s' \<and> len s' = 2 ^ 31 + 2" using Carve_extra_truncated [OF hp _ _ _ c] by auto
  with hp c show ?thesis by blast
qed

end
