(* ===== verification/CentralFreeList.thy ===== *)
theory CentralFreeList
  imports HeapServe "HOL-Library.Signed_Division"
begin

unbundle bit_operations_syntax

text \<open>
  The central free lists of src/central\_freelist.h and src/central\_freelist.cc: for every size class the spans
  of that class, on a list of spans with free objects and a list of spans without, and a transfer cache of chains of
  objects of the batch size.

  The state \<open>tcm\<close> has the page heap, the first words of the free objects (\<open>tcm_mem\<close>), the array of the central lists and the
  static counter of \<^verbatim>\<open>EvictRandomSizeClass\<close>.  The lists of spans are HOL lists, the operations of which \<^verbatim>\<open>DLL_Prepend\<close> and
  \<^verbatim>\<open>DLL_Remove\<close> refine (theory \<open>Span\<close>).  Every member function is a function of the option monad, as for the page heap;
  it runs with the lock held, and the places that release the lock around calls of the page heap are not preempted.
\<close>

section \<open>State\<close>

record central =
  size_class :: nat
  empty_spans :: "nat list"
  nonempty_spans :: "nat list"
  num_spans :: nat
  cfl_counter :: nat
  tc_slots :: "nat \<Rightarrow> nat \<times> nat"
  used_slots :: int
  cache_size :: int
  max_cache_size :: int

record 'o tcm =
  tcm_heap :: "'o heap"
  tcm_mem :: mem
  tcm_central :: "nat \<Rightarrow> central"
  race_counter :: int

definition kMaxNumTransferEntries :: int where [tc_consts]: "kMaxNumTransferEntries = 64"

text \<open>The division of the C++ \<^verbatim>\<open>int\<close>s truncates; dividing by zero is a crash.\<close>

definition CFL_Init :: "size_map \<Rightarrow> nat \<Rightarrow> central \<Rightarrow> central option" where
  "CFL_Init sm cl cf =
     (let cf = cf\<lparr>size_class := cl, empty_spans := [], nonempty_spans := [], num_spans := 0, cfl_counter := 0,
            max_cache_size := kMaxNumTransferEntries, cache_size := 16\<rparr>
      in if cl > 0 then
           let bytes = int32_of (int (ByteSizeForClass sm cl)); objs_to_move = int32_of (num_objects_to_move sm cl)
           in if bytes * objs_to_move = 0 then None
              else
                let m = min (max_cache_size cf) (max 1 ((1024 * 1024) sdiv (bytes * objs_to_move)))
                in Some (cf\<lparr>max_cache_size := m, cache_size := min (cache_size cf) m, used_slots := 0\<rparr>)
         else Some (cf\<lparr>used_slots := 0\<rparr>))"

section \<open>Access\<close>

abbreviation get_central :: "'o tcm \<Rightarrow> nat \<Rightarrow> central" where
  "get_central st c \<equiv> tcm_central st c"

definition upd_central :: "'o tcm \<Rightarrow> nat \<Rightarrow> (central \<Rightarrow> central) \<Rightarrow> 'o tcm" where
  "upd_central st c f = st\<lparr>tcm_central := (tcm_central st)(c := f (tcm_central st c))\<rparr>"

text \<open>Writing a field of a span.\<close>

definition upd_span :: "'o tcm \<Rightarrow> nat \<Rightarrow> (span \<Rightarrow> span) \<Rightarrow> 'o tcm option" where
  "upd_span st p f = do { h \<leftarrow> set_span (tcm_heap st) p f; Some (st\<lparr>tcm_heap := h\<rparr>) }"

text \<open>\<^verbatim>\<open>DLL_Remove(span)\<close>: the span leaves the list it is on; a span on neither list of the class is a crash.\<close>

definition unlink_span :: "'o tcm \<Rightarrow> nat \<Rightarrow> nat \<Rightarrow> 'o tcm option" where
  "unlink_span st c p =
     (if p \<in> set (nonempty_spans (get_central st c)) then
        Some (upd_central st c (\<lambda>cf. cf\<lparr>nonempty_spans := remove1 p (nonempty_spans cf)\<rparr>))
      else if p \<in> set (empty_spans (get_central st c)) then
        Some (upd_central st c (\<lambda>cf. cf\<lparr>empty_spans := remove1 p (empty_spans cf)\<rparr>))
      else None)"

section \<open>Returning objects\<close>

text \<open>\<^verbatim>\<open>(span->length << kPageShift) / ByteSizeForClass(span->sizeclass)\<close>.\<close>

definition span_capacity :: "size_map \<Rightarrow> span \<Rightarrow> nat option" where
  "span_capacity sm s =
     (let sz = ByteSizeForClass sm (sizeclass s) in if sz = 0 then None else Some (page_bytes (len s) div sz))"

definition ReleaseToSpans :: "'o env \<Rightarrow> size_map \<Rightarrow> 'o tcm \<Rightarrow> nat \<Rightarrow> nat \<Rightarrow> 'o tcm option" where
  "ReleaseToSpans env sm st c object = do {
     let p = drop_bit kPageShift object;
     let span = GetDescriptor (tcm_heap st) p;
     s \<leftarrow> hp_spans (tcm_heap st) span;
     st \<leftarrow> (if objects s = 0 then do {
             st \<leftarrow> unlink_span st c span;
             Some (upd_central st c (\<lambda>cf. cf\<lparr>nonempty_spans := span # nonempty_spans cf\<rparr>)) }
           else Some st);
     let st = upd_central st c (\<lambda>cf. cf\<lparr>cfl_counter := w64 (cfl_counter cf + 1)\<rparr>);
     let refs = (refcount s + 2 ^ 16 - 1) mod 2 ^ 16;
     st \<leftarrow> upd_span st span (\<lambda>s. s\<lparr>refcount := refs\<rparr>);
     if refs = 0 then do {
       cap \<leftarrow> span_capacity sm s;
       let st = upd_central st c (\<lambda>cf. cf\<lparr>cfl_counter := sub64 (cfl_counter cf) cap\<rparr>);
       st \<leftarrow> unlink_span st c span;
       let st = upd_central st c (\<lambda>cf. cf\<lparr>num_spans := sub64 (num_spans cf) 1\<rparr>);
       h \<leftarrow> PageHeap_Delete env (tcm_heap st) span;
       Some (st\<lparr>tcm_heap := h\<rparr>) }
     else do {
       m \<leftarrow> SLL_SetNext (tcm_mem st) object (objects s);
       upd_span (st\<lparr>tcm_mem := m\<rparr>) span (\<lambda>s. s\<lparr>objects := object\<rparr>) } }"

partial_function (option) ReleaseListToSpans :: "'o env \<Rightarrow> size_map \<Rightarrow> 'o tcm \<Rightarrow> nat \<Rightarrow> nat \<Rightarrow> 'o tcm option" where
  "ReleaseListToSpans env sm st c start_ptr =
     (if start_ptr \<noteq> 0 then do {
        nxt \<leftarrow> SLL_Next (tcm_mem st) start_ptr;
        st \<leftarrow> ReleaseToSpans env sm st c start_ptr;
        ReleaseListToSpans env sm st c nxt }
      else Some st)"

section \<open>The transfer cache\<close>

definition ShrinkCache :: "'o env \<Rightarrow> size_map \<Rightarrow> 'o tcm \<Rightarrow> nat \<Rightarrow> bool \<Rightarrow> (bool \<times> 'o tcm) option" where
  "ShrinkCache env sm st c force =
     (let cf = get_central st c
      in if cache_size cf = 0 then Some (False, st)
         else if \<not> force \<and> used_slots cf = cache_size cf then Some (False, st)
         else if used_slots cf = cache_size cf then do {
           let st = upd_central st c (\<lambda>cf. cf\<lparr>cache_size := cache_size cf - 1, used_slots := used_slots cf - 1\<rparr>);
           st \<leftarrow> ReleaseListToSpans env sm st c (fst (tc_slots cf (nat (used_slots cf - 1))));
           Some (True, st) }
         else Some (True, upd_central st c (\<lambda>cf. cf\<lparr>cache_size := cache_size cf - 1\<rparr>)))"

text \<open>\<^verbatim>\<open>while (t >= num_size_classes()) t -= num_size_classes()\<close>.\<close>

partial_function (option) evict_wrap :: "nat \<Rightarrow> int \<Rightarrow> int option" where
  "evict_wrap n t = (if t \<ge> int n then evict_wrap n (t - int n) else Some t)"

definition EvictRandomSizeClass :: "'o env \<Rightarrow> size_map \<Rightarrow> 'o tcm \<Rightarrow> nat \<Rightarrow> bool \<Rightarrow> (bool \<times> 'o tcm) option" where
  "EvictRandomSizeClass env sm st locked force = do {
     let t = race_counter st;
     let st = st\<lparr>race_counter := int32_of (race_counter st + 1)\<rparr>;
     (t, st) \<leftarrow> (if t \<ge> int (num_size_classes sm) then do {
                   t \<leftarrow> evict_wrap (num_size_classes sm) t;
                   Some (t, st\<lparr>race_counter := t\<rparr>) }
                 else Some (t, st));
     if t < 0 then None
     else if t = int locked then Some (False, st)
     else ShrinkCache env sm st (nat t) force }"

definition MakeCacheSpace :: "'o env \<Rightarrow> size_map \<Rightarrow> 'o tcm \<Rightarrow> nat \<Rightarrow> (bool \<times> 'o tcm) option" where
  "MakeCacheSpace env sm st c =
     (if used_slots (get_central st c) < cache_size (get_central st c) then Some (True, st)
      else if cache_size (get_central st c) = max_cache_size (get_central st c) then Some (False, st)
      else do {
        (ok, st) \<leftarrow> EvictRandomSizeClass env sm st (size_class (get_central st c)) False;
        (ok, st) \<leftarrow> (if ok then Some (True, st) else EvictRandomSizeClass env sm st (size_class (get_central st c)) True);
        if ok \<and> cache_size (get_central st c) < max_cache_size (get_central st c)
        then Some (True, upd_central st c (\<lambda>cf. cf\<lparr>cache_size := cache_size cf + 1\<rparr>))
        else Some (False, st) })"

text \<open>A slot beyond the array is a crash.\<close>

definition InsertRange :: "'o env \<Rightarrow> size_map \<Rightarrow> 'o tcm \<Rightarrow> nat \<Rightarrow> nat \<Rightarrow> nat \<Rightarrow> int \<Rightarrow> 'o tcm option" where
  "InsertRange env sm st c start_ptr end_ptr N = do {
     (ok, st) \<leftarrow> (if N = num_objects_to_move sm (size_class (get_central st c)) then MakeCacheSpace env sm st c else Some (False, st));
     if ok then do {
       let slot = used_slots (get_central st c);
       if 0 \<le> slot \<and> slot < kMaxNumTransferEntries then
         Some (upd_central st c (\<lambda>cf. cf\<lparr>used_slots := slot + 1, tc_slots := (tc_slots cf)(nat slot := (start_ptr, end_ptr))\<rparr>))
       else None }
     else ReleaseListToSpans env sm st c start_ptr }"

section \<open>Fetching objects\<close>

text \<open>The \<^verbatim>\<open>do ... while (++result < N && curr != nullptr)\<close> loop: the last object, the rest of the list and the count.\<close>

function fetch_walk :: "mem \<Rightarrow> int \<Rightarrow> nat \<Rightarrow> int \<Rightarrow> (nat \<times> nat \<times> int) option" where
  "fetch_walk m N cur result =
     (if cur = 0 then None
      else let prev = cur; cur = m cur; result = result + 1
           in if result < N \<and> cur \<noteq> 0 then fetch_walk m N cur result else Some (prev, cur, result))"
  by pat_completeness auto
termination
  by (relation "measure (\<lambda>(m, N, cur, result). nat (N - result))") auto

declare fetch_walk.simps [simp del]

definition FetchFromOneSpans :: "'o tcm \<Rightarrow> nat \<Rightarrow> int \<Rightarrow> (int \<times> nat \<times> nat \<times> 'o tcm) option" where
  "FetchFromOneSpans st c N =
     (case nonempty_spans (get_central st c) of
        [] \<Rightarrow> Some (0, 0, 0, st)
      | span # _ \<Rightarrow> do {
          s \<leftarrow> hp_spans (tcm_heap st) span;
          (prev, cur, result) \<leftarrow> fetch_walk (tcm_mem st) N (objects s) 0;
          st \<leftarrow> (if cur = 0 then do {
                  st \<leftarrow> unlink_span st c span;
                  Some (upd_central st c (\<lambda>cf. cf\<lparr>empty_spans := span # empty_spans cf\<rparr>)) }
                else Some st);
          m \<leftarrow> SLL_SetNext (tcm_mem st) prev 0;
          let st = st\<lparr>tcm_mem := m\<rparr>;
          st \<leftarrow> upd_span st span (\<lambda>s. s\<lparr>objects := cur, refcount := nat ((int (refcount s) + result) mod 2 ^ 16)\<rparr>);
          let st = upd_central st c (\<lambda>cf. cf\<lparr>cfl_counter := nat ((int (cfl_counter cf) - result) mod 2 ^ 64)\<rparr>);
          Some (result, objects s, prev, st) })"

text \<open>
  Cutting the block \<open>[ptr, limit)\<close> into objects: \<open>tail\<close> is the address of the last object, or 0 for the field
  \<^verbatim>\<open>span->objects\<close>, the value of which is \<open>objs\<close>.
\<close>

definition set_tail :: "nat \<Rightarrow> nat \<Rightarrow> nat \<Rightarrow> mem \<Rightarrow> nat \<times> mem" where
  "set_tail tail v objs m = (if tail = 0 then (v, m) else (objs, m(tail := v)))"

partial_function (option) carve_objects :: "nat \<Rightarrow> nat \<Rightarrow> nat \<Rightarrow> nat \<Rightarrow> nat \<Rightarrow> mem \<Rightarrow> int \<Rightarrow> (nat \<times> nat \<times> mem \<times> int) option" where
  "carve_objects sz limit ptr tail objs m num =
     (if ptr + sz \<ge> 2 ^ 64 \<or> ptr + sz > limit then Some (tail, objs, m, num)
      else case set_tail tail ptr objs m of (objs, m) \<Rightarrow> carve_objects sz limit (ptr + sz) ptr objs m (num + 1))"

fun cache_classes :: "'o heap \<Rightarrow> nat \<Rightarrow> nat \<Rightarrow> nat \<Rightarrow> 'o heap" where
  "cache_classes h p 0 c = h"
| "cache_classes h p (Suc k) c = cache_classes (SetCachedSizeClass h p c) (p + 1) k c"

definition Populate :: "'o env \<Rightarrow> size_map \<Rightarrow> 'o tcm \<Rightarrow> nat \<Rightarrow> 'o tcm option" where
  "Populate env sm st c = do {
     let cl = size_class (get_central st c);
     let npages = class_to_pages sm cl;
     (span, h) \<leftarrow> NewWithSizeClass env (tcm_heap st) npages cl;
     let st = st\<lparr>tcm_heap := h\<rparr>;
     if span = 0 then Some st
     else do {
       s \<leftarrow> hp_spans h span;
       let st = st\<lparr>tcm_heap := cache_classes h (start s) npages cl\<rparr>;
       let ptr = page_bytes (start s);
       let limit = w64 (ptr + page_bytes npages);
       (tail, objs, m, num) \<leftarrow> carve_objects (ByteSizeForClass sm cl) limit ptr 0 (objects s) (tcm_mem st) 0;
       let (objs, m) = set_tail tail 0 objs m;
       let st = st\<lparr>tcm_mem := m\<rparr>;
       st \<leftarrow> upd_span st span (\<lambda>s. s\<lparr>objects := objs, refcount := 0\<rparr>);
       Some (upd_central st c (\<lambda>cf. cf\<lparr>nonempty_spans := span # nonempty_spans cf, num_spans := w64 (num_spans cf + 1),
         cfl_counter := nat ((int (cfl_counter cf) + num) mod 2 ^ 64)\<rparr>)) } }"

definition FetchFromOneSpansSafe :: "'o env \<Rightarrow> size_map \<Rightarrow> 'o tcm \<Rightarrow> nat \<Rightarrow> int \<Rightarrow> (int \<times> nat \<times> nat \<times> 'o tcm) option" where
  "FetchFromOneSpansSafe env sm st c N = do {
     (result, start_ptr, end_ptr, st) \<leftarrow> FetchFromOneSpans st c N;
     if result = 0 then do {
       st \<leftarrow> Populate env sm st c;
       FetchFromOneSpans st c N }
     else Some (result, start_ptr, end_ptr, st) }"

partial_function (option) fetch_more :: "'o tcm \<Rightarrow> nat \<Rightarrow> int \<Rightarrow> int \<Rightarrow> nat \<Rightarrow> (int \<times> nat \<times> 'o tcm) option" where
  "fetch_more st c N result start_ptr =
     (if result < N then do {
        (n, head, tail, st) \<leftarrow> FetchFromOneSpans st c (N - result);
        if n = 0 then Some (result, start_ptr, st)
        else do {
          (m, start_ptr) \<leftarrow> SLL_PushRange (tcm_mem st) start_ptr head tail;
          fetch_more (st\<lparr>tcm_mem := m\<rparr>) c N (result + n) start_ptr } }
      else Some (result, start_ptr, st))"

definition RemoveRange :: "'o env \<Rightarrow> size_map \<Rightarrow> 'o tcm \<Rightarrow> nat \<Rightarrow> int \<Rightarrow> (int \<times> nat \<times> nat \<times> 'o tcm) option" where
  "RemoveRange env sm st c N =
     (let cf = get_central st c
      in if N = num_objects_to_move sm (size_class cf) \<and> used_slots cf > 0 then
           let slot = used_slots cf - 1; (head, tail) = tc_slots cf (nat slot)
           in Some (N, head, tail, upd_central st c (\<lambda>cf. cf\<lparr>used_slots := slot\<rparr>))
         else do {
           (result, start_ptr, end_ptr, st) \<leftarrow> FetchFromOneSpansSafe env sm st c N;
           if result \<noteq> 0 then do {
             (result, start_ptr, st) \<leftarrow> fetch_more st c N result start_ptr;
             Some (result, start_ptr, end_ptr, st) }
           else Some (0, start_ptr, end_ptr, st) })"

section \<open>Statistics\<close>

definition CFL_length :: "'o tcm \<Rightarrow> nat \<Rightarrow> nat" where
  "CFL_length st c = cfl_counter (get_central st c)"

definition tc_length :: "size_map \<Rightarrow> 'o tcm \<Rightarrow> nat \<Rightarrow> int" where
  "tc_length sm st c = used_slots (get_central st c) * num_objects_to_move sm (size_class (get_central st c))"

definition OverheadBytes :: "size_map \<Rightarrow> 'o tcm \<Rightarrow> nat \<Rightarrow> nat option" where
  "OverheadBytes sm st c =
     (let cl = size_class (get_central st c); object_size = class_to_size sm cl
      in if cl = 0 then Some 0
         else if object_size = 0 then None
         else Some (w64 (num_spans (get_central st c) * ((class_to_pages sm cl * kPageSize) mod object_size))))"

end
