(* ===== verification/OpcodeMap.thy ===== *)
theory OpcodeMap
  imports Prelude
begin

unbundle bit_operations_syntax

text \<open>
  The data of the small disassembler that the function patcher for Windows uses: the types of
  src/windows/mini\_disassembler\_types.h, the opcode tables of src/windows/ia32\_opcode\_map.cc and the tables for the
  ModR/M byte of src/windows/ia32\_modrm\_map.cc, entry by entry in the order of the source.

  The two large tables are split into runs of opcodes.  Where the source has a variant for \<^verbatim>\<open>_M_X64\<close>, both variants are
  given and the flag \<open>x64\<close> selects one.  Operand flags are integers combined with the bitwise operations of the source.
\<close>

named_theorems disasm_consts \<open>constants of the disassembler\<close>

section \<open>Types\<close>

datatype InstructionType = IT_UNUSED | IT_UNKNOWN | IT_REFERENCE | IT_PREFIX | IT_PREFIX_ADDRESS | IT_PREFIX_OPERAND
  | IT_JUMP | IT_RETURN | IT_GENERIC

text \<open>The members are the table index, the type, the flags of the three operands and the mnemonic.\<close>

datatype specific_opcode = SpecificOpcode (so_table_index: nat) (so_type: InstructionType) (so_flag_dest: int)
  (so_flag_source: int) (so_flag_aux: int) (so_mnemonic: "String.literal option")

text \<open>The first six members of \<^verbatim>\<open>Opcode\<close> are those of \<^verbatim>\<open>SpecificOpcode\<close>, and the code casts between the two.\<close>

datatype opcode = Opcode (op_specific: specific_opcode) (op_is_prefix_dependent: bool)
  (op_if_f2_prefix: specific_opcode) (op_if_f3_prefix: specific_opcode) (op_if_66_prefix: specific_opcode)

datatype opcode_table = OpcodeTable (ot_table: "opcode list") (ot_shift: nat) (ot_mask: nat) (ot_min_lim: nat) (ot_max_lim: nat)

datatype modrm_entry = ModrmEntry (me_is_encoded_in_instruction: bool) (me_use_sib_byte: bool) (me_operand_size: nat)

definition OS_ZERO :: nat where [disasm_consts]: "OS_ZERO = 0"
definition OS_BYTE :: nat where [disasm_consts]: "OS_BYTE = 1"
definition OS_WORD :: nat where [disasm_consts]: "OS_WORD = 2"
definition OS_DOUBLE_WORD :: nat where [disasm_consts]: "OS_DOUBLE_WORD = 4"
definition OS_QUAD_WORD :: nat where [disasm_consts]: "OS_QUAD_WORD = 8"
definition OS_DOUBLE_QUAD_WORD :: nat where [disasm_consts]: "OS_DOUBLE_QUAD_WORD = 16"
definition OS_32_BIT_POINTER :: nat where [disasm_consts]: "OS_32_BIT_POINTER = 4"
definition OS_48_BIT_POINTER :: nat where [disasm_consts]: "OS_48_BIT_POINTER = 6"
definition OS_SINGLE_PRECISION_FLOATING :: nat where [disasm_consts]: "OS_SINGLE_PRECISION_FLOATING = 4"
definition OS_DOUBLE_PRECISION_FLOATING :: nat where [disasm_consts]: "OS_DOUBLE_PRECISION_FLOATING = 8"
definition OS_DOUBLE_EXTENDED_PRECISION_FLOATING :: nat where [disasm_consts]: "OS_DOUBLE_EXTENDED_PRECISION_FLOATING = 10"
definition OS_128_BIT_PACKED_SINGLE_PRECISION_FLOATING :: nat where [disasm_consts]: "OS_128_BIT_PACKED_SINGLE_PRECISION_FLOATING = 16"
definition OS_PSEUDO_DESCRIPTOR :: nat where [disasm_consts]: "OS_PSEUDO_DESCRIPTOR = 6"
definition AM_NOT_USED :: int where [disasm_consts]: "AM_NOT_USED = 0"
definition AM_MASK :: int where [disasm_consts]: "AM_MASK = 0xff0000"
definition AM_A :: int where [disasm_consts]: "AM_A = 0x10000"
definition AM_C :: int where [disasm_consts]: "AM_C = 0x20000"
definition AM_D :: int where [disasm_consts]: "AM_D = 0x30000"
definition AM_E :: int where [disasm_consts]: "AM_E = 0x40000"
definition AM_F :: int where [disasm_consts]: "AM_F = 0x50000"
definition AM_G :: int where [disasm_consts]: "AM_G = 0x60000"
definition AM_I :: int where [disasm_consts]: "AM_I = 0x70000"
definition AM_J :: int where [disasm_consts]: "AM_J = 0x80000"
definition AM_M :: int where [disasm_consts]: "AM_M = 0x90000"
definition AM_O :: int where [disasm_consts]: "AM_O = 0xa0000"
definition AM_P :: int where [disasm_consts]: "AM_P = 0xb0000"
definition AM_Q :: int where [disasm_consts]: "AM_Q = 0xc0000"
definition AM_R :: int where [disasm_consts]: "AM_R = 0xd0000"
definition AM_S :: int where [disasm_consts]: "AM_S = 0xe0000"
definition AM_T :: int where [disasm_consts]: "AM_T = 0xf0000"
definition AM_V :: int where [disasm_consts]: "AM_V = 0x100000"
definition AM_W :: int where [disasm_consts]: "AM_W = 0x110000"
definition AM_X :: int where [disasm_consts]: "AM_X = 0x120000"
definition AM_Y :: int where [disasm_consts]: "AM_Y = 0x130000"
definition AM_REGISTER :: int where [disasm_consts]: "AM_REGISTER = 0x140000"
definition AM_IMPLICIT :: int where [disasm_consts]: "AM_IMPLICIT = 0x150000"
definition OT_MASK :: int where [disasm_consts]: "OT_MASK = 0xff000000"
definition OT_A :: int where [disasm_consts]: "OT_A = 0x1000000"
definition OT_B :: int where [disasm_consts]: "OT_B = 0x2000000"
definition OT_C :: int where [disasm_consts]: "OT_C = 0x3000000"
definition OT_D :: int where [disasm_consts]: "OT_D = 0x4000000"
definition OT_DQ :: int where [disasm_consts]: "OT_DQ = 0x5000000"
definition OT_P :: int where [disasm_consts]: "OT_P = 0x6000000"
definition OT_PI :: int where [disasm_consts]: "OT_PI = 0x7000000"
definition OT_PS :: int where [disasm_consts]: "OT_PS = 0x8000000"
definition OT_Q :: int where [disasm_consts]: "OT_Q = 0x9000000"
definition OT_S :: int where [disasm_consts]: "OT_S = 0xa000000"
definition OT_SS :: int where [disasm_consts]: "OT_SS = 0xb000000"
definition OT_SI :: int where [disasm_consts]: "OT_SI = 0xc000000"
definition OT_V :: int where [disasm_consts]: "OT_V = 0xd000000"
definition OT_W :: int where [disasm_consts]: "OT_W = 0xe000000"
definition OT_SD :: int where [disasm_consts]: "OT_SD = 0xf000000"
definition OT_PD :: int where [disasm_consts]: "OT_PD = 0x10000000"
definition OT_ADDRESS_MODE_M :: int where [disasm_consts]: "OT_ADDRESS_MODE_M = 0x80000000"
definition IOS_64 :: int where [disasm_consts]: "IOS_64 = 0x1000"

text \<open>The initializer \<^verbatim>\<open>{0}\<close>, and an entry without alternatives for prefixes.\<close>

definition no_opcode :: specific_opcode where
  "no_opcode = SpecificOpcode 0 IT_UNUSED 0 0 0 None"

definition plain_opcode :: "nat \<Rightarrow> InstructionType \<Rightarrow> int \<Rightarrow> int \<Rightarrow> int \<Rightarrow> String.literal option \<Rightarrow> opcode" where
  "plain_opcode i t d s a m = Opcode (SpecificOpcode i t d s a m) False no_opcode no_opcode no_opcode"

section \<open>Tables\<close>

definition s_first_opcode_byte_00 :: "opcode list" where
  "s_first_opcode_byte_00 = [
    plain_opcode 0 IT_GENERIC (AM_E OR OT_B) (AM_G OR OT_B) AM_NOT_USED (Some STR ''add''),
    plain_opcode 0 IT_GENERIC (AM_E OR OT_V) (AM_G OR OT_V) AM_NOT_USED (Some STR ''add''),
    plain_opcode 0 IT_GENERIC (AM_G OR OT_B) (AM_E OR OT_B) AM_NOT_USED (Some STR ''add''),
    plain_opcode 0 IT_GENERIC (AM_G OR OT_V) (AM_E OR OT_V) AM_NOT_USED (Some STR ''add''),
    plain_opcode 0 IT_GENERIC (AM_REGISTER OR OT_B) (AM_I OR OT_B) AM_NOT_USED (Some STR ''add''),
    plain_opcode 0 IT_GENERIC (AM_REGISTER OR OT_V) (AM_I OR OT_V) AM_NOT_USED (Some STR ''add''),
    plain_opcode 0 IT_GENERIC (AM_REGISTER OR OT_W) AM_NOT_USED AM_NOT_USED (Some STR ''push''),
    plain_opcode 0 IT_GENERIC (AM_REGISTER OR OT_W) AM_NOT_USED AM_NOT_USED (Some STR ''pop''),
    plain_opcode 0 IT_GENERIC (AM_E OR OT_B) (AM_G OR OT_B) AM_NOT_USED (Some STR ''or''),
    plain_opcode 0 IT_GENERIC (AM_E OR OT_V) (AM_G OR OT_V) AM_NOT_USED (Some STR ''or''),
    plain_opcode 0 IT_GENERIC (AM_G OR OT_B) (AM_E OR OT_B) AM_NOT_USED (Some STR ''or''),
    plain_opcode 0 IT_GENERIC (AM_G OR OT_V) (AM_E OR OT_V) AM_NOT_USED (Some STR ''or''),
    plain_opcode 0 IT_GENERIC (AM_REGISTER OR OT_B) (AM_I OR OT_B) AM_NOT_USED (Some STR ''or''),
    plain_opcode 0 IT_GENERIC (AM_REGISTER OR OT_V) (AM_I OR OT_V) AM_NOT_USED (Some STR ''or''),
    plain_opcode 0 IT_GENERIC (AM_REGISTER OR OT_W) AM_NOT_USED AM_NOT_USED (Some STR ''push''),
    plain_opcode 1 IT_REFERENCE AM_NOT_USED AM_NOT_USED AM_NOT_USED None,
    plain_opcode 0 IT_GENERIC (AM_E OR OT_B) (AM_G OR OT_B) AM_NOT_USED (Some STR ''adc''),
    plain_opcode 0 IT_GENERIC (AM_E OR OT_V) (AM_G OR OT_V) AM_NOT_USED (Some STR ''adc''),
    plain_opcode 0 IT_GENERIC (AM_G OR OT_B) (AM_E OR OT_B) AM_NOT_USED (Some STR ''adc''),
    plain_opcode 0 IT_GENERIC (AM_G OR OT_V) (AM_E OR OT_V) AM_NOT_USED (Some STR ''adc''),
    plain_opcode 0 IT_GENERIC (AM_REGISTER OR OT_B) (AM_I OR OT_B) AM_NOT_USED (Some STR ''adc''),
    plain_opcode 0 IT_GENERIC (AM_REGISTER OR OT_V) (AM_I OR OT_V) AM_NOT_USED (Some STR ''adc''),
    plain_opcode 0 IT_GENERIC (AM_REGISTER OR OT_W) AM_NOT_USED AM_NOT_USED (Some STR ''push''),
    plain_opcode 0 IT_GENERIC (AM_REGISTER OR OT_W) AM_NOT_USED AM_NOT_USED (Some STR ''pop''),
    plain_opcode 0 IT_GENERIC (AM_E OR OT_B) (AM_G OR OT_B) AM_NOT_USED (Some STR ''sbb''),
    plain_opcode 0 IT_GENERIC (AM_E OR OT_V) (AM_G OR OT_V) AM_NOT_USED (Some STR ''sbb''),
    plain_opcode 0 IT_GENERIC (AM_G OR OT_B) (AM_E OR OT_B) AM_NOT_USED (Some STR ''sbb''),
    plain_opcode 0 IT_GENERIC (AM_G OR OT_V) (AM_E OR OT_V) AM_NOT_USED (Some STR ''sbb''),
    plain_opcode 0 IT_GENERIC (AM_REGISTER OR OT_B) (AM_I OR OT_B) AM_NOT_USED (Some STR ''sbb''),
    plain_opcode 0 IT_GENERIC (AM_REGISTER OR OT_V) (AM_I OR OT_V) AM_NOT_USED (Some STR ''sbb''),
    plain_opcode 0 IT_GENERIC (AM_REGISTER OR OT_W) AM_NOT_USED AM_NOT_USED (Some STR ''push''),
    plain_opcode 0 IT_GENERIC (AM_REGISTER OR OT_W) AM_NOT_USED AM_NOT_USED (Some STR ''pop''),
    plain_opcode 0 IT_GENERIC (AM_E OR OT_B) (AM_G OR OT_B) AM_NOT_USED (Some STR ''and''),
    plain_opcode 0 IT_GENERIC (AM_E OR OT_V) (AM_G OR OT_V) AM_NOT_USED (Some STR ''and''),
    plain_opcode 0 IT_GENERIC (AM_G OR OT_B) (AM_E OR OT_B) AM_NOT_USED (Some STR ''and''),
    plain_opcode 0 IT_GENERIC (AM_G OR OT_V) (AM_E OR OT_V) AM_NOT_USED (Some STR ''and''),
    plain_opcode 0 IT_GENERIC (AM_REGISTER OR OT_B) (AM_I OR OT_B) AM_NOT_USED (Some STR ''and''),
    plain_opcode 0 IT_GENERIC (AM_REGISTER OR OT_V) (AM_I OR OT_V) AM_NOT_USED (Some STR ''and''),
    plain_opcode 0 IT_PREFIX AM_NOT_USED AM_NOT_USED AM_NOT_USED None,
    plain_opcode 0 IT_GENERIC AM_NOT_USED AM_NOT_USED AM_NOT_USED (Some STR ''daa''),
    plain_opcode 0 IT_GENERIC (AM_E OR OT_B) (AM_G OR OT_B) AM_NOT_USED (Some STR ''sub''),
    plain_opcode 0 IT_GENERIC (AM_E OR OT_V) (AM_G OR OT_V) AM_NOT_USED (Some STR ''sub''),
    plain_opcode 0 IT_GENERIC (AM_G OR OT_B) (AM_E OR OT_B) AM_NOT_USED (Some STR ''sub''),
    plain_opcode 0 IT_GENERIC (AM_G OR OT_V) (AM_E OR OT_V) AM_NOT_USED (Some STR ''sub''),
    plain_opcode 0 IT_GENERIC (AM_REGISTER OR OT_B) (AM_I OR OT_B) AM_NOT_USED (Some STR ''sub''),
    plain_opcode 0 IT_GENERIC (AM_REGISTER OR OT_V) (AM_I OR OT_V) AM_NOT_USED (Some STR ''sub''),
    plain_opcode 0 IT_PREFIX AM_NOT_USED AM_NOT_USED AM_NOT_USED None,
    plain_opcode 0 IT_GENERIC AM_NOT_USED AM_NOT_USED AM_NOT_USED (Some STR ''das'')]"

definition s_first_opcode_byte_30 :: "opcode list" where
  "s_first_opcode_byte_30 = [
    plain_opcode 0 IT_GENERIC (AM_E OR OT_B) (AM_G OR OT_B) AM_NOT_USED (Some STR ''xor''),
    plain_opcode 0 IT_GENERIC (AM_E OR OT_V) (AM_G OR OT_V) AM_NOT_USED (Some STR ''xor''),
    plain_opcode 0 IT_GENERIC (AM_G OR OT_B) (AM_E OR OT_B) AM_NOT_USED (Some STR ''xor''),
    plain_opcode 0 IT_GENERIC (AM_G OR OT_V) (AM_E OR OT_V) AM_NOT_USED (Some STR ''xor''),
    plain_opcode 0 IT_GENERIC (AM_REGISTER OR OT_B) (AM_I OR OT_B) AM_NOT_USED (Some STR ''xor''),
    plain_opcode 0 IT_GENERIC (AM_REGISTER OR OT_V) (AM_I OR OT_V) AM_NOT_USED (Some STR ''xor''),
    plain_opcode 0 IT_PREFIX AM_NOT_USED AM_NOT_USED AM_NOT_USED None,
    plain_opcode 0 IT_GENERIC AM_NOT_USED AM_NOT_USED AM_NOT_USED (Some STR ''aaa''),
    plain_opcode 0 IT_GENERIC (AM_E OR OT_B) (AM_G OR OT_B) AM_NOT_USED (Some STR ''cmp''),
    plain_opcode 0 IT_GENERIC (AM_E OR OT_V) (AM_G OR OT_V) AM_NOT_USED (Some STR ''cmp''),
    plain_opcode 0 IT_GENERIC (AM_G OR OT_B) (AM_E OR OT_B) AM_NOT_USED (Some STR ''cmp''),
    plain_opcode 0 IT_GENERIC (AM_G OR OT_V) (AM_E OR OT_V) AM_NOT_USED (Some STR ''cmp''),
    plain_opcode 0 IT_GENERIC (AM_REGISTER OR OT_B) (AM_I OR OT_B) AM_NOT_USED (Some STR ''cmp''),
    plain_opcode 0 IT_GENERIC (AM_REGISTER OR OT_V) (AM_I OR OT_V) AM_NOT_USED (Some STR ''cmp''),
    plain_opcode 0 IT_PREFIX AM_NOT_USED AM_NOT_USED AM_NOT_USED None,
    plain_opcode 0 IT_GENERIC AM_NOT_USED AM_NOT_USED AM_NOT_USED (Some STR ''aas'')]"

definition s_first_opcode_byte_40_x64 :: "opcode list" where
  "s_first_opcode_byte_40_x64 = [
    plain_opcode 0 IT_PREFIX AM_NOT_USED AM_NOT_USED AM_NOT_USED None,
    plain_opcode 0 IT_PREFIX AM_NOT_USED AM_NOT_USED AM_NOT_USED None,
    plain_opcode 0 IT_PREFIX AM_NOT_USED AM_NOT_USED AM_NOT_USED None,
    plain_opcode 0 IT_PREFIX AM_NOT_USED AM_NOT_USED AM_NOT_USED None,
    plain_opcode 0 IT_PREFIX AM_NOT_USED AM_NOT_USED AM_NOT_USED None,
    plain_opcode 0 IT_PREFIX AM_NOT_USED AM_NOT_USED AM_NOT_USED None,
    plain_opcode 0 IT_PREFIX AM_NOT_USED AM_NOT_USED AM_NOT_USED None,
    plain_opcode 0 IT_PREFIX AM_NOT_USED AM_NOT_USED AM_NOT_USED None,
    plain_opcode 0 IT_PREFIX AM_NOT_USED AM_NOT_USED AM_NOT_USED None,
    plain_opcode 0 IT_PREFIX AM_NOT_USED AM_NOT_USED AM_NOT_USED None,
    plain_opcode 0 IT_PREFIX AM_NOT_USED AM_NOT_USED AM_NOT_USED None,
    plain_opcode 0 IT_PREFIX AM_NOT_USED AM_NOT_USED AM_NOT_USED None,
    plain_opcode 0 IT_PREFIX AM_NOT_USED AM_NOT_USED AM_NOT_USED None,
    plain_opcode 0 IT_PREFIX AM_NOT_USED AM_NOT_USED AM_NOT_USED None,
    plain_opcode 0 IT_PREFIX AM_NOT_USED AM_NOT_USED AM_NOT_USED None,
    plain_opcode 0 IT_PREFIX AM_NOT_USED AM_NOT_USED AM_NOT_USED None]"

definition s_first_opcode_byte_40_ia32 :: "opcode list" where
  "s_first_opcode_byte_40_ia32 = [
    plain_opcode 0 IT_GENERIC (AM_REGISTER OR OT_V) AM_NOT_USED AM_NOT_USED (Some STR ''inc''),
    plain_opcode 0 IT_GENERIC (AM_REGISTER OR OT_V) AM_NOT_USED AM_NOT_USED (Some STR ''inc''),
    plain_opcode 0 IT_GENERIC (AM_REGISTER OR OT_V) AM_NOT_USED AM_NOT_USED (Some STR ''inc''),
    plain_opcode 0 IT_GENERIC (AM_REGISTER OR OT_V) AM_NOT_USED AM_NOT_USED (Some STR ''inc''),
    plain_opcode 0 IT_GENERIC (AM_REGISTER OR OT_V) AM_NOT_USED AM_NOT_USED (Some STR ''inc''),
    plain_opcode 0 IT_GENERIC (AM_REGISTER OR OT_V) AM_NOT_USED AM_NOT_USED (Some STR ''inc''),
    plain_opcode 0 IT_GENERIC (AM_REGISTER OR OT_V) AM_NOT_USED AM_NOT_USED (Some STR ''inc''),
    plain_opcode 0 IT_GENERIC (AM_REGISTER OR OT_V) AM_NOT_USED AM_NOT_USED (Some STR ''inc''),
    plain_opcode 0 IT_GENERIC (AM_REGISTER OR OT_V) AM_NOT_USED AM_NOT_USED (Some STR ''dec''),
    plain_opcode 0 IT_GENERIC (AM_REGISTER OR OT_V) AM_NOT_USED AM_NOT_USED (Some STR ''dec''),
    plain_opcode 0 IT_GENERIC (AM_REGISTER OR OT_V) AM_NOT_USED AM_NOT_USED (Some STR ''dec''),
    plain_opcode 0 IT_GENERIC (AM_REGISTER OR OT_V) AM_NOT_USED AM_NOT_USED (Some STR ''dec''),
    plain_opcode 0 IT_GENERIC (AM_REGISTER OR OT_V) AM_NOT_USED AM_NOT_USED (Some STR ''dec''),
    plain_opcode 0 IT_GENERIC (AM_REGISTER OR OT_V) AM_NOT_USED AM_NOT_USED (Some STR ''dec''),
    plain_opcode 0 IT_GENERIC (AM_REGISTER OR OT_V) AM_NOT_USED AM_NOT_USED (Some STR ''dec''),
    plain_opcode 0 IT_GENERIC (AM_REGISTER OR OT_V) AM_NOT_USED AM_NOT_USED (Some STR ''dec'')]"

definition s_first_opcode_byte_50 :: "opcode list" where
  "s_first_opcode_byte_50 = [
    plain_opcode 0 IT_GENERIC (AM_REGISTER OR OT_V) AM_NOT_USED AM_NOT_USED (Some STR ''push''),
    plain_opcode 0 IT_GENERIC (AM_REGISTER OR OT_V) AM_NOT_USED AM_NOT_USED (Some STR ''push''),
    plain_opcode 0 IT_GENERIC (AM_REGISTER OR OT_V) AM_NOT_USED AM_NOT_USED (Some STR ''push''),
    plain_opcode 0 IT_GENERIC (AM_REGISTER OR OT_V) AM_NOT_USED AM_NOT_USED (Some STR ''push''),
    plain_opcode 0 IT_GENERIC (AM_REGISTER OR OT_V) AM_NOT_USED AM_NOT_USED (Some STR ''push''),
    plain_opcode 0 IT_GENERIC (AM_REGISTER OR OT_V) AM_NOT_USED AM_NOT_USED (Some STR ''push''),
    plain_opcode 0 IT_GENERIC (AM_REGISTER OR OT_V) AM_NOT_USED AM_NOT_USED (Some STR ''push''),
    plain_opcode 0 IT_GENERIC (AM_REGISTER OR OT_V) AM_NOT_USED AM_NOT_USED (Some STR ''push''),
    plain_opcode 0 IT_GENERIC (AM_REGISTER OR OT_V) AM_NOT_USED AM_NOT_USED (Some STR ''pop''),
    plain_opcode 0 IT_GENERIC (AM_REGISTER OR OT_V) AM_NOT_USED AM_NOT_USED (Some STR ''pop''),
    plain_opcode 0 IT_GENERIC (AM_REGISTER OR OT_V) AM_NOT_USED AM_NOT_USED (Some STR ''pop''),
    plain_opcode 0 IT_GENERIC (AM_REGISTER OR OT_V) AM_NOT_USED AM_NOT_USED (Some STR ''pop''),
    plain_opcode 0 IT_GENERIC (AM_REGISTER OR OT_V) AM_NOT_USED AM_NOT_USED (Some STR ''pop''),
    plain_opcode 0 IT_GENERIC (AM_REGISTER OR OT_V) AM_NOT_USED AM_NOT_USED (Some STR ''pop''),
    plain_opcode 0 IT_GENERIC (AM_REGISTER OR OT_V) AM_NOT_USED AM_NOT_USED (Some STR ''pop''),
    plain_opcode 0 IT_GENERIC (AM_REGISTER OR OT_V) AM_NOT_USED AM_NOT_USED (Some STR ''pop''),
    plain_opcode 0 IT_GENERIC AM_NOT_USED AM_NOT_USED AM_NOT_USED (Some STR ''pushad''),
    plain_opcode 0 IT_GENERIC AM_NOT_USED AM_NOT_USED AM_NOT_USED (Some STR ''popad''),
    plain_opcode 0 IT_GENERIC (AM_G OR OT_V) (AM_M OR OT_A) AM_NOT_USED (Some STR ''bound''),
    plain_opcode 0 IT_GENERIC (AM_E OR OT_W) (AM_G OR OT_W) AM_NOT_USED (Some STR ''arpl''),
    plain_opcode 0 IT_PREFIX AM_NOT_USED AM_NOT_USED AM_NOT_USED None,
    plain_opcode 0 IT_PREFIX AM_NOT_USED AM_NOT_USED AM_NOT_USED None,
    plain_opcode 0 IT_PREFIX_OPERAND AM_NOT_USED AM_NOT_USED AM_NOT_USED None,
    plain_opcode 0 IT_PREFIX_ADDRESS AM_NOT_USED AM_NOT_USED AM_NOT_USED None,
    plain_opcode 0 IT_GENERIC (AM_I OR OT_V) AM_NOT_USED AM_NOT_USED (Some STR ''push''),
    plain_opcode 0 IT_GENERIC (AM_G OR OT_V) (AM_E OR OT_V) (AM_I OR OT_V) (Some STR ''imul''),
    plain_opcode 0 IT_GENERIC (AM_I OR OT_B) AM_NOT_USED AM_NOT_USED (Some STR ''push''),
    plain_opcode 0 IT_GENERIC (AM_G OR OT_V) (AM_E OR OT_V) (AM_I OR OT_B) (Some STR ''imul''),
    plain_opcode 0 IT_GENERIC (AM_Y OR OT_B) (AM_REGISTER OR OT_B) AM_NOT_USED (Some STR ''insb''),
    plain_opcode 0 IT_GENERIC (AM_Y OR OT_V) (AM_REGISTER OR OT_V) AM_NOT_USED (Some STR ''insd''),
    plain_opcode 0 IT_GENERIC (AM_REGISTER OR OT_B) (AM_X OR OT_B) AM_NOT_USED (Some STR ''outsb''),
    plain_opcode 0 IT_GENERIC (AM_REGISTER OR OT_V) (AM_X OR OT_V) AM_NOT_USED (Some STR ''outsb''),
    plain_opcode 0 IT_JUMP (AM_J OR OT_B) AM_NOT_USED AM_NOT_USED (Some STR ''jo''),
    plain_opcode 0 IT_JUMP (AM_J OR OT_B) AM_NOT_USED AM_NOT_USED (Some STR ''jno''),
    plain_opcode 0 IT_JUMP (AM_J OR OT_B) AM_NOT_USED AM_NOT_USED (Some STR ''jc''),
    plain_opcode 0 IT_JUMP (AM_J OR OT_B) AM_NOT_USED AM_NOT_USED (Some STR ''jnc''),
    plain_opcode 0 IT_JUMP (AM_J OR OT_B) AM_NOT_USED AM_NOT_USED (Some STR ''jz''),
    plain_opcode 0 IT_JUMP (AM_J OR OT_B) AM_NOT_USED AM_NOT_USED (Some STR ''jnz''),
    plain_opcode 0 IT_JUMP (AM_J OR OT_B) AM_NOT_USED AM_NOT_USED (Some STR ''jbe''),
    plain_opcode 0 IT_JUMP (AM_J OR OT_B) AM_NOT_USED AM_NOT_USED (Some STR ''ja''),
    plain_opcode 0 IT_JUMP (AM_J OR OT_B) AM_NOT_USED AM_NOT_USED (Some STR ''js''),
    plain_opcode 0 IT_JUMP (AM_J OR OT_B) AM_NOT_USED AM_NOT_USED (Some STR ''jns''),
    plain_opcode 0 IT_JUMP (AM_J OR OT_B) AM_NOT_USED AM_NOT_USED (Some STR ''jpe''),
    plain_opcode 0 IT_JUMP (AM_J OR OT_B) AM_NOT_USED AM_NOT_USED (Some STR ''jpo''),
    plain_opcode 0 IT_JUMP (AM_J OR OT_B) AM_NOT_USED AM_NOT_USED (Some STR ''jl''),
    plain_opcode 0 IT_JUMP (AM_J OR OT_B) AM_NOT_USED AM_NOT_USED (Some STR ''jge''),
    plain_opcode 0 IT_JUMP (AM_J OR OT_B) AM_NOT_USED AM_NOT_USED (Some STR ''jle''),
    plain_opcode 0 IT_JUMP (AM_J OR OT_B) AM_NOT_USED AM_NOT_USED (Some STR ''jg'')]"

definition s_first_opcode_byte_80 :: "opcode list" where
  "s_first_opcode_byte_80 = [
    plain_opcode 2 IT_REFERENCE (AM_E OR OT_B) (AM_I OR OT_B) AM_NOT_USED None,
    plain_opcode 3 IT_REFERENCE (AM_E OR OT_V) (AM_I OR OT_V) AM_NOT_USED None,
    plain_opcode 4 IT_REFERENCE (AM_E OR OT_V) (AM_I OR OT_B) AM_NOT_USED None,
    plain_opcode 5 IT_REFERENCE (AM_E OR OT_V) (AM_I OR OT_B) AM_NOT_USED None,
    plain_opcode 0 IT_GENERIC (AM_E OR OT_B) (AM_G OR OT_B) AM_NOT_USED (Some STR ''test''),
    plain_opcode 0 IT_GENERIC (AM_E OR OT_V) (AM_G OR OT_V) AM_NOT_USED (Some STR ''test''),
    plain_opcode 0 IT_GENERIC (AM_E OR OT_B) (AM_G OR OT_B) AM_NOT_USED (Some STR ''xchg''),
    plain_opcode 0 IT_GENERIC (AM_E OR OT_V) (AM_G OR OT_V) AM_NOT_USED (Some STR ''xchg''),
    plain_opcode 0 IT_GENERIC (AM_E OR OT_B) (AM_G OR OT_B) AM_NOT_USED (Some STR ''mov''),
    plain_opcode 0 IT_GENERIC (AM_E OR OT_V) (AM_G OR OT_V) AM_NOT_USED (Some STR ''mov''),
    plain_opcode 0 IT_GENERIC (AM_G OR OT_B) (AM_E OR OT_B) AM_NOT_USED (Some STR ''mov''),
    plain_opcode 0 IT_GENERIC (AM_G OR OT_V) (AM_E OR OT_V) AM_NOT_USED (Some STR ''mov''),
    plain_opcode 0 IT_GENERIC (AM_E OR OT_W) (AM_S OR OT_W) AM_NOT_USED (Some STR ''mov''),
    plain_opcode 0 IT_GENERIC (AM_G OR OT_V) (AM_M OR OT_ADDRESS_MODE_M) AM_NOT_USED (Some STR ''lea''),
    plain_opcode 0 IT_GENERIC (AM_S OR OT_W) (AM_E OR OT_W) AM_NOT_USED (Some STR ''mov''),
    plain_opcode 0 IT_GENERIC (AM_E OR OT_V) AM_NOT_USED AM_NOT_USED (Some STR ''pop''),
    plain_opcode 0 IT_GENERIC AM_NOT_USED AM_NOT_USED AM_NOT_USED (Some STR ''nop''),
    plain_opcode 0 IT_GENERIC (AM_REGISTER OR OT_V) (AM_REGISTER OR OT_V) AM_NOT_USED (Some STR ''xchg''),
    plain_opcode 0 IT_GENERIC (AM_REGISTER OR OT_V) (AM_REGISTER OR OT_V) AM_NOT_USED (Some STR ''xchg''),
    plain_opcode 0 IT_GENERIC (AM_REGISTER OR OT_V) (AM_REGISTER OR OT_V) AM_NOT_USED (Some STR ''xchg''),
    plain_opcode 0 IT_GENERIC (AM_REGISTER OR OT_V) (AM_REGISTER OR OT_V) AM_NOT_USED (Some STR ''xchg''),
    plain_opcode 0 IT_GENERIC (AM_REGISTER OR OT_V) (AM_REGISTER OR OT_V) AM_NOT_USED (Some STR ''xchg''),
    plain_opcode 0 IT_GENERIC (AM_REGISTER OR OT_V) (AM_REGISTER OR OT_V) AM_NOT_USED (Some STR ''xchg''),
    plain_opcode 0 IT_GENERIC (AM_REGISTER OR OT_V) (AM_REGISTER OR OT_V) AM_NOT_USED (Some STR ''xchg''),
    plain_opcode 0 IT_GENERIC AM_NOT_USED AM_NOT_USED AM_NOT_USED (Some STR ''cwde''),
    plain_opcode 0 IT_GENERIC AM_NOT_USED AM_NOT_USED AM_NOT_USED (Some STR ''cdq''),
    plain_opcode 0 IT_JUMP (AM_A OR OT_P) AM_NOT_USED AM_NOT_USED (Some STR ''callf''),
    plain_opcode 0 IT_GENERIC AM_NOT_USED AM_NOT_USED AM_NOT_USED (Some STR ''wait''),
    plain_opcode 0 IT_GENERIC AM_NOT_USED AM_NOT_USED AM_NOT_USED (Some STR ''pushfd''),
    plain_opcode 0 IT_GENERIC AM_NOT_USED AM_NOT_USED AM_NOT_USED (Some STR ''popfd''),
    plain_opcode 0 IT_GENERIC AM_NOT_USED AM_NOT_USED AM_NOT_USED (Some STR ''sahf''),
    plain_opcode 0 IT_GENERIC AM_NOT_USED AM_NOT_USED AM_NOT_USED (Some STR ''lahf''),
    plain_opcode 0 IT_GENERIC (AM_REGISTER OR OT_B) (AM_O OR OT_B) AM_NOT_USED (Some STR ''mov''),
    plain_opcode 0 IT_GENERIC (AM_REGISTER OR OT_V) (AM_O OR OT_V) AM_NOT_USED (Some STR ''mov''),
    plain_opcode 0 IT_GENERIC (AM_O OR OT_B) (AM_REGISTER OR OT_B) AM_NOT_USED (Some STR ''mov''),
    plain_opcode 0 IT_GENERIC (AM_O OR OT_V) (AM_REGISTER OR OT_V) AM_NOT_USED (Some STR ''mov''),
    plain_opcode 0 IT_GENERIC (AM_X OR OT_B) (AM_Y OR OT_B) AM_NOT_USED (Some STR ''movsb''),
    plain_opcode 0 IT_GENERIC (AM_X OR OT_V) (AM_Y OR OT_V) AM_NOT_USED (Some STR ''movsd''),
    plain_opcode 0 IT_GENERIC (AM_X OR OT_B) (AM_Y OR OT_B) AM_NOT_USED (Some STR ''cmpsb''),
    plain_opcode 0 IT_GENERIC (AM_X OR OT_V) (AM_Y OR OT_V) AM_NOT_USED (Some STR ''cmpsd''),
    plain_opcode 0 IT_GENERIC (AM_REGISTER OR OT_B) (AM_I OR OT_B) AM_NOT_USED (Some STR ''test''),
    plain_opcode 0 IT_GENERIC (AM_REGISTER OR OT_V) (AM_I OR OT_V) AM_NOT_USED (Some STR ''test''),
    plain_opcode 0 IT_GENERIC (AM_Y OR OT_B) (AM_REGISTER OR OT_B) AM_NOT_USED (Some STR ''stosb''),
    plain_opcode 0 IT_GENERIC (AM_Y OR OT_V) (AM_REGISTER OR OT_V) AM_NOT_USED (Some STR ''stosd''),
    plain_opcode 0 IT_GENERIC (AM_REGISTER OR OT_B) (AM_X OR OT_B) AM_NOT_USED (Some STR ''lodsb''),
    plain_opcode 0 IT_GENERIC (AM_REGISTER OR OT_V) (AM_X OR OT_V) AM_NOT_USED (Some STR ''lodsd''),
    plain_opcode 0 IT_GENERIC (AM_REGISTER OR OT_B) (AM_Y OR OT_B) AM_NOT_USED (Some STR ''scasb''),
    plain_opcode 0 IT_GENERIC (AM_REGISTER OR OT_V) (AM_Y OR OT_V) AM_NOT_USED (Some STR ''scasd''),
    plain_opcode 0 IT_GENERIC (AM_REGISTER OR OT_B) (AM_I OR OT_B) AM_NOT_USED (Some STR ''mov''),
    plain_opcode 0 IT_GENERIC (AM_REGISTER OR OT_B) (AM_I OR OT_B) AM_NOT_USED (Some STR ''mov''),
    plain_opcode 0 IT_GENERIC (AM_REGISTER OR OT_B) (AM_I OR OT_B) AM_NOT_USED (Some STR ''mov''),
    plain_opcode 0 IT_GENERIC (AM_REGISTER OR OT_B) (AM_I OR OT_B) AM_NOT_USED (Some STR ''mov''),
    plain_opcode 0 IT_GENERIC (AM_REGISTER OR OT_B) (AM_I OR OT_B) AM_NOT_USED (Some STR ''mov''),
    plain_opcode 0 IT_GENERIC (AM_REGISTER OR OT_B) (AM_I OR OT_B) AM_NOT_USED (Some STR ''mov''),
    plain_opcode 0 IT_GENERIC (AM_REGISTER OR OT_B) (AM_I OR OT_B) AM_NOT_USED (Some STR ''mov''),
    plain_opcode 0 IT_GENERIC (AM_REGISTER OR OT_B) (AM_I OR OT_B) AM_NOT_USED (Some STR ''mov'')]"

definition s_first_opcode_byte_B8_x64 :: "opcode list" where
  "s_first_opcode_byte_B8_x64 = [
    plain_opcode 0 IT_GENERIC (AM_REGISTER OR OT_V) (AM_I OR OT_V OR IOS_64) AM_NOT_USED (Some STR ''mov''),
    plain_opcode 0 IT_GENERIC (AM_REGISTER OR OT_V) (AM_I OR OT_V OR IOS_64) AM_NOT_USED (Some STR ''mov''),
    plain_opcode 0 IT_GENERIC (AM_REGISTER OR OT_V) (AM_I OR OT_V OR IOS_64) AM_NOT_USED (Some STR ''mov''),
    plain_opcode 0 IT_GENERIC (AM_REGISTER OR OT_V) (AM_I OR OT_V OR IOS_64) AM_NOT_USED (Some STR ''mov''),
    plain_opcode 0 IT_GENERIC (AM_REGISTER OR OT_V) (AM_I OR OT_V OR IOS_64) AM_NOT_USED (Some STR ''mov''),
    plain_opcode 0 IT_GENERIC (AM_REGISTER OR OT_V) (AM_I OR OT_V OR IOS_64) AM_NOT_USED (Some STR ''mov''),
    plain_opcode 0 IT_GENERIC (AM_REGISTER OR OT_V) (AM_I OR OT_V OR IOS_64) AM_NOT_USED (Some STR ''mov''),
    plain_opcode 0 IT_GENERIC (AM_REGISTER OR OT_V) (AM_I OR OT_V OR IOS_64) AM_NOT_USED (Some STR ''mov'')]"

definition s_first_opcode_byte_B8_ia32 :: "opcode list" where
  "s_first_opcode_byte_B8_ia32 = [
    plain_opcode 0 IT_GENERIC (AM_REGISTER OR OT_V) (AM_I OR OT_V) AM_NOT_USED (Some STR ''mov''),
    plain_opcode 0 IT_GENERIC (AM_REGISTER OR OT_V) (AM_I OR OT_V) AM_NOT_USED (Some STR ''mov''),
    plain_opcode 0 IT_GENERIC (AM_REGISTER OR OT_V) (AM_I OR OT_V) AM_NOT_USED (Some STR ''mov''),
    plain_opcode 0 IT_GENERIC (AM_REGISTER OR OT_V) (AM_I OR OT_V) AM_NOT_USED (Some STR ''mov''),
    plain_opcode 0 IT_GENERIC (AM_REGISTER OR OT_V) (AM_I OR OT_V) AM_NOT_USED (Some STR ''mov''),
    plain_opcode 0 IT_GENERIC (AM_REGISTER OR OT_V) (AM_I OR OT_V) AM_NOT_USED (Some STR ''mov''),
    plain_opcode 0 IT_GENERIC (AM_REGISTER OR OT_V) (AM_I OR OT_V) AM_NOT_USED (Some STR ''mov''),
    plain_opcode 0 IT_GENERIC (AM_REGISTER OR OT_V) (AM_I OR OT_V) AM_NOT_USED (Some STR ''mov'')]"

definition s_first_opcode_byte_C0 :: "opcode list" where
  "s_first_opcode_byte_C0 = [
    plain_opcode 6 IT_REFERENCE (AM_E OR OT_B) (AM_I OR OT_B) AM_NOT_USED None,
    plain_opcode 7 IT_REFERENCE (AM_E OR OT_V) (AM_I OR OT_B) AM_NOT_USED None,
    plain_opcode 0 IT_RETURN (AM_I OR OT_W) AM_NOT_USED AM_NOT_USED (Some STR ''ret''),
    plain_opcode 0 IT_RETURN AM_NOT_USED AM_NOT_USED AM_NOT_USED (Some STR ''ret''),
    plain_opcode 0 IT_GENERIC (AM_G OR OT_V) (AM_M OR OT_P) AM_NOT_USED (Some STR ''les''),
    plain_opcode 0 IT_GENERIC (AM_G OR OT_V) (AM_M OR OT_P) AM_NOT_USED (Some STR ''lds''),
    plain_opcode 0 IT_GENERIC (AM_E OR OT_B) (AM_I OR OT_B) AM_NOT_USED (Some STR ''mov''),
    plain_opcode 0 IT_GENERIC (AM_E OR OT_V) (AM_I OR OT_V) AM_NOT_USED (Some STR ''mov''),
    plain_opcode 0 IT_GENERIC (AM_I OR OT_W) (AM_I OR OT_B) AM_NOT_USED (Some STR ''enter''),
    plain_opcode 0 IT_GENERIC AM_NOT_USED AM_NOT_USED AM_NOT_USED (Some STR ''leave''),
    plain_opcode 0 IT_RETURN (AM_I OR OT_W) AM_NOT_USED AM_NOT_USED (Some STR ''retf''),
    plain_opcode 0 IT_RETURN AM_NOT_USED AM_NOT_USED AM_NOT_USED (Some STR ''retf''),
    plain_opcode 0 IT_GENERIC AM_NOT_USED AM_NOT_USED AM_NOT_USED (Some STR ''int3''),
    plain_opcode 0 IT_GENERIC (AM_I OR OT_B) AM_NOT_USED AM_NOT_USED (Some STR ''int''),
    plain_opcode 0 IT_GENERIC AM_NOT_USED AM_NOT_USED AM_NOT_USED (Some STR ''into''),
    plain_opcode 0 IT_GENERIC AM_NOT_USED AM_NOT_USED AM_NOT_USED (Some STR ''iret''),
    plain_opcode 8 IT_REFERENCE (AM_E OR OT_B) AM_NOT_USED AM_NOT_USED None,
    plain_opcode 9 IT_REFERENCE (AM_E OR OT_V) AM_NOT_USED AM_NOT_USED None,
    plain_opcode 10 IT_REFERENCE (AM_E OR OT_B) AM_NOT_USED AM_NOT_USED None,
    plain_opcode 11 IT_REFERENCE (AM_E OR OT_V) AM_NOT_USED AM_NOT_USED None,
    plain_opcode 0 IT_GENERIC (AM_I OR OT_B) AM_NOT_USED AM_NOT_USED (Some STR ''aam''),
    plain_opcode 0 IT_GENERIC (AM_I OR OT_B) AM_NOT_USED AM_NOT_USED (Some STR ''aad''),
    plain_opcode 0 IT_UNUSED AM_NOT_USED AM_NOT_USED AM_NOT_USED None,
    plain_opcode 0 IT_GENERIC AM_NOT_USED AM_NOT_USED AM_NOT_USED (Some STR ''xlat''),
    plain_opcode 0 IT_UNKNOWN AM_NOT_USED AM_NOT_USED AM_NOT_USED None,
    plain_opcode 0 IT_UNKNOWN AM_NOT_USED AM_NOT_USED AM_NOT_USED None,
    plain_opcode 0 IT_UNKNOWN AM_NOT_USED AM_NOT_USED AM_NOT_USED None,
    plain_opcode 0 IT_UNKNOWN AM_NOT_USED AM_NOT_USED AM_NOT_USED None,
    plain_opcode 0 IT_UNKNOWN AM_NOT_USED AM_NOT_USED AM_NOT_USED None,
    plain_opcode 0 IT_UNKNOWN AM_NOT_USED AM_NOT_USED AM_NOT_USED None,
    plain_opcode 0 IT_UNKNOWN AM_NOT_USED AM_NOT_USED AM_NOT_USED None,
    plain_opcode 0 IT_UNKNOWN AM_NOT_USED AM_NOT_USED AM_NOT_USED None,
    plain_opcode 0 IT_JUMP (AM_J OR OT_B) AM_NOT_USED AM_NOT_USED (Some STR ''loopnz''),
    plain_opcode 0 IT_JUMP (AM_J OR OT_B) AM_NOT_USED AM_NOT_USED (Some STR ''loopz''),
    plain_opcode 0 IT_JUMP (AM_J OR OT_B) AM_NOT_USED AM_NOT_USED (Some STR ''loop''),
    plain_opcode 0 IT_JUMP (AM_J OR OT_B) AM_NOT_USED AM_NOT_USED (Some STR ''jcxz''),
    plain_opcode 0 IT_GENERIC (AM_REGISTER OR OT_B) (AM_I OR OT_B) AM_NOT_USED (Some STR ''in''),
    plain_opcode 0 IT_GENERIC (AM_REGISTER OR OT_B) (AM_I OR OT_B) AM_NOT_USED (Some STR ''in''),
    plain_opcode 0 IT_GENERIC (AM_I OR OT_B) (AM_REGISTER OR OT_B) AM_NOT_USED (Some STR ''out''),
    plain_opcode 0 IT_GENERIC (AM_I OR OT_B) (AM_REGISTER OR OT_B) AM_NOT_USED (Some STR ''out''),
    plain_opcode 0 IT_JUMP (AM_J OR OT_V) AM_NOT_USED AM_NOT_USED (Some STR ''call''),
    plain_opcode 0 IT_JUMP (AM_J OR OT_V) AM_NOT_USED AM_NOT_USED (Some STR ''jmp''),
    plain_opcode 0 IT_JUMP (AM_A OR OT_P) AM_NOT_USED AM_NOT_USED (Some STR ''jmp''),
    plain_opcode 0 IT_JUMP (AM_J OR OT_B) AM_NOT_USED AM_NOT_USED (Some STR ''jmp''),
    plain_opcode 0 IT_GENERIC (AM_REGISTER OR OT_B) (AM_REGISTER OR OT_W) AM_NOT_USED (Some STR ''in''),
    plain_opcode 0 IT_GENERIC (AM_REGISTER OR OT_V) (AM_REGISTER OR OT_W) AM_NOT_USED (Some STR ''in''),
    plain_opcode 0 IT_GENERIC (AM_REGISTER OR OT_W) (AM_REGISTER OR OT_B) AM_NOT_USED (Some STR ''out''),
    plain_opcode 0 IT_GENERIC (AM_REGISTER OR OT_W) (AM_REGISTER OR OT_V) AM_NOT_USED (Some STR ''out''),
    plain_opcode 0 IT_PREFIX AM_NOT_USED AM_NOT_USED AM_NOT_USED (Some STR ''lock:''),
    plain_opcode 0 IT_UNUSED AM_NOT_USED AM_NOT_USED AM_NOT_USED None,
    plain_opcode 0 IT_PREFIX AM_NOT_USED AM_NOT_USED AM_NOT_USED (Some STR ''repne:''),
    plain_opcode 0 IT_PREFIX AM_NOT_USED AM_NOT_USED AM_NOT_USED (Some STR ''rep:''),
    plain_opcode 0 IT_GENERIC AM_NOT_USED AM_NOT_USED AM_NOT_USED (Some STR ''hlt''),
    plain_opcode 0 IT_GENERIC AM_NOT_USED AM_NOT_USED AM_NOT_USED (Some STR ''cmc''),
    plain_opcode 12 IT_REFERENCE (AM_E OR OT_B) AM_NOT_USED AM_NOT_USED None,
    plain_opcode 13 IT_REFERENCE (AM_E OR OT_V) AM_NOT_USED AM_NOT_USED None,
    plain_opcode 0 IT_GENERIC AM_NOT_USED AM_NOT_USED AM_NOT_USED (Some STR ''clc''),
    plain_opcode 0 IT_GENERIC AM_NOT_USED AM_NOT_USED AM_NOT_USED (Some STR ''stc''),
    plain_opcode 0 IT_GENERIC AM_NOT_USED AM_NOT_USED AM_NOT_USED (Some STR ''cli''),
    plain_opcode 0 IT_GENERIC AM_NOT_USED AM_NOT_USED AM_NOT_USED (Some STR ''sti''),
    plain_opcode 0 IT_GENERIC AM_NOT_USED AM_NOT_USED AM_NOT_USED (Some STR ''cld''),
    plain_opcode 0 IT_GENERIC AM_NOT_USED AM_NOT_USED AM_NOT_USED (Some STR ''std''),
    plain_opcode 14 IT_REFERENCE AM_NOT_USED AM_NOT_USED AM_NOT_USED None,
    plain_opcode 15 IT_REFERENCE AM_NOT_USED AM_NOT_USED AM_NOT_USED None]"

definition s_first_opcode_byte :: "bool \<Rightarrow> opcode list" where
  "s_first_opcode_byte x64 = s_first_opcode_byte_00 @
     s_first_opcode_byte_30 @
     (if x64 then s_first_opcode_byte_40_x64 else s_first_opcode_byte_40_ia32) @
     s_first_opcode_byte_50 @
     s_first_opcode_byte_80 @
     (if x64 then s_first_opcode_byte_B8_x64 else s_first_opcode_byte_B8_ia32) @
     s_first_opcode_byte_C0"

definition s_opcode_byte_after_0f_00 :: "opcode list" where
  "s_opcode_byte_after_0f_00 = [
    plain_opcode 16 IT_REFERENCE AM_NOT_USED AM_NOT_USED AM_NOT_USED None,
    plain_opcode 17 IT_REFERENCE AM_NOT_USED AM_NOT_USED AM_NOT_USED None,
    plain_opcode 0 IT_GENERIC (AM_G OR OT_V) (AM_E OR OT_W) AM_NOT_USED (Some STR ''lar''),
    plain_opcode 0 IT_GENERIC (AM_G OR OT_V) (AM_E OR OT_W) AM_NOT_USED (Some STR ''lsl''),
    plain_opcode 0 IT_UNUSED AM_NOT_USED AM_NOT_USED AM_NOT_USED None,
    plain_opcode 0 IT_UNUSED AM_NOT_USED AM_NOT_USED AM_NOT_USED None,
    plain_opcode 0 IT_GENERIC AM_NOT_USED AM_NOT_USED AM_NOT_USED (Some STR ''clts''),
    plain_opcode 0 IT_UNUSED AM_NOT_USED AM_NOT_USED AM_NOT_USED None,
    plain_opcode 0 IT_GENERIC AM_NOT_USED AM_NOT_USED AM_NOT_USED (Some STR ''invd''),
    plain_opcode 0 IT_GENERIC AM_NOT_USED AM_NOT_USED AM_NOT_USED (Some STR ''wbinvd''),
    plain_opcode 0 IT_UNUSED AM_NOT_USED AM_NOT_USED AM_NOT_USED None,
    plain_opcode 0 IT_UNUSED AM_NOT_USED AM_NOT_USED AM_NOT_USED (Some STR ''ud2''),
    plain_opcode 0 IT_UNUSED AM_NOT_USED AM_NOT_USED AM_NOT_USED None,
    plain_opcode 0 IT_UNUSED AM_NOT_USED AM_NOT_USED AM_NOT_USED None,
    plain_opcode 0 IT_UNUSED AM_NOT_USED AM_NOT_USED AM_NOT_USED None,
    plain_opcode 0 IT_UNUSED AM_NOT_USED AM_NOT_USED AM_NOT_USED None,
    Opcode (SpecificOpcode 0 IT_GENERIC (AM_V OR OT_PS) (AM_W OR OT_PS) AM_NOT_USED (Some STR ''movups'')) True (SpecificOpcode 0 IT_GENERIC (AM_V OR OT_SD) (AM_W OR OT_SD) AM_NOT_USED (Some STR ''movsd'')) (SpecificOpcode 0 IT_GENERIC (AM_V OR OT_SS) (AM_W OR OT_SS) AM_NOT_USED (Some STR ''movss'')) (SpecificOpcode 0 IT_GENERIC (AM_V OR OT_PD) (AM_W OR OT_PD) AM_NOT_USED (Some STR ''movupd'')),
    Opcode (SpecificOpcode 0 IT_GENERIC (AM_W OR OT_PS) (AM_V OR OT_PS) AM_NOT_USED (Some STR ''movups'')) True (SpecificOpcode 0 IT_GENERIC (AM_W OR OT_SD) (AM_V OR OT_SD) AM_NOT_USED (Some STR ''movsd'')) (SpecificOpcode 0 IT_GENERIC (AM_W OR OT_SS) (AM_V OR OT_SS) AM_NOT_USED (Some STR ''movss'')) (SpecificOpcode 0 IT_GENERIC (AM_W OR OT_PD) (AM_V OR OT_PD) AM_NOT_USED (Some STR ''movupd'')),
    Opcode (SpecificOpcode 0 IT_GENERIC (AM_W OR OT_Q) (AM_V OR OT_Q) AM_NOT_USED (Some STR ''movlps'')) True (SpecificOpcode 0 IT_GENERIC (AM_V OR OT_Q) (AM_V OR OT_Q) AM_NOT_USED (Some STR ''movhlps'')) (SpecificOpcode 0 IT_GENERIC (AM_V OR OT_Q) (AM_V OR OT_Q) AM_NOT_USED (Some STR ''movhlps'')) (SpecificOpcode 0 IT_GENERIC (AM_V OR OT_Q) (AM_W OR OT_S) AM_NOT_USED (Some STR ''movlpd'')),
    Opcode (SpecificOpcode 0 IT_GENERIC (AM_V OR OT_Q) (AM_W OR OT_Q) AM_NOT_USED (Some STR ''movlps'')) True no_opcode no_opcode (SpecificOpcode 0 IT_GENERIC (AM_V OR OT_Q) (AM_W OR OT_Q) AM_NOT_USED (Some STR ''movlpd'')),
    Opcode (SpecificOpcode 0 IT_GENERIC (AM_V OR OT_PS) (AM_W OR OT_Q) AM_NOT_USED (Some STR ''unpcklps'')) True no_opcode no_opcode (SpecificOpcode 0 IT_GENERIC (AM_V OR OT_PD) (AM_W OR OT_Q) AM_NOT_USED (Some STR ''unpcklpd'')),
    Opcode (SpecificOpcode 0 IT_GENERIC (AM_V OR OT_PS) (AM_W OR OT_Q) AM_NOT_USED (Some STR ''unpckhps'')) True no_opcode no_opcode (SpecificOpcode 0 IT_GENERIC (AM_V OR OT_PD) (AM_W OR OT_Q) AM_NOT_USED (Some STR ''unpckhpd'')),
    Opcode (SpecificOpcode 0 IT_GENERIC (AM_V OR OT_Q) (AM_W OR OT_Q) AM_NOT_USED (Some STR ''movhps'')) True (SpecificOpcode 0 IT_GENERIC (AM_V OR OT_Q) (AM_V OR OT_Q) AM_NOT_USED (Some STR ''movlhps'')) (SpecificOpcode 0 IT_GENERIC (AM_V OR OT_Q) (AM_V OR OT_Q) AM_NOT_USED (Some STR ''movlhps'')) (SpecificOpcode 0 IT_GENERIC (AM_V OR OT_Q) (AM_W OR OT_Q) AM_NOT_USED (Some STR ''movhpd'')),
    Opcode (SpecificOpcode 0 IT_GENERIC (AM_W OR OT_Q) (AM_V OR OT_Q) AM_NOT_USED (Some STR ''movhps'')) True no_opcode no_opcode (SpecificOpcode 0 IT_GENERIC (AM_W OR OT_Q) (AM_V OR OT_Q) AM_NOT_USED (Some STR ''movhpd'')),
    plain_opcode 18 IT_REFERENCE AM_NOT_USED AM_NOT_USED AM_NOT_USED None,
    plain_opcode 0 IT_UNUSED AM_NOT_USED AM_NOT_USED AM_NOT_USED None,
    plain_opcode 0 IT_UNUSED AM_NOT_USED AM_NOT_USED AM_NOT_USED None,
    plain_opcode 0 IT_UNUSED AM_NOT_USED AM_NOT_USED AM_NOT_USED None,
    plain_opcode 0 IT_UNUSED AM_NOT_USED AM_NOT_USED AM_NOT_USED None,
    plain_opcode 0 IT_UNUSED AM_NOT_USED AM_NOT_USED AM_NOT_USED None,
    plain_opcode 0 IT_UNUSED AM_NOT_USED AM_NOT_USED AM_NOT_USED None,
    plain_opcode 0 IT_UNUSED AM_NOT_USED AM_NOT_USED AM_NOT_USED None,
    plain_opcode 0 IT_GENERIC (AM_R OR OT_D) (AM_C OR OT_D) AM_NOT_USED (Some STR ''mov''),
    plain_opcode 0 IT_GENERIC (AM_R OR OT_D) (AM_D OR OT_D) AM_NOT_USED (Some STR ''mov''),
    plain_opcode 0 IT_GENERIC (AM_C OR OT_D) (AM_R OR OT_D) AM_NOT_USED (Some STR ''mov''),
    plain_opcode 0 IT_GENERIC (AM_D OR OT_D) (AM_R OR OT_D) AM_NOT_USED (Some STR ''mov''),
    plain_opcode 0 IT_UNUSED AM_NOT_USED AM_NOT_USED AM_NOT_USED None,
    plain_opcode 0 IT_UNUSED AM_NOT_USED AM_NOT_USED AM_NOT_USED None,
    plain_opcode 0 IT_UNUSED AM_NOT_USED AM_NOT_USED AM_NOT_USED None,
    plain_opcode 0 IT_UNUSED AM_NOT_USED AM_NOT_USED AM_NOT_USED None,
    Opcode (SpecificOpcode 0 IT_GENERIC (AM_V OR OT_PS) (AM_W OR OT_PS) AM_NOT_USED (Some STR ''movaps'')) True no_opcode no_opcode (SpecificOpcode 0 IT_GENERIC (AM_V OR OT_PD) (AM_W OR OT_PD) AM_NOT_USED (Some STR ''movapd'')),
    Opcode (SpecificOpcode 0 IT_GENERIC (AM_W OR OT_PS) (AM_V OR OT_PS) AM_NOT_USED (Some STR ''movaps'')) True no_opcode no_opcode (SpecificOpcode 0 IT_GENERIC (AM_W OR OT_PD) (AM_V OR OT_PD) AM_NOT_USED (Some STR ''movapd'')),
    Opcode (SpecificOpcode 0 IT_GENERIC (AM_V OR OT_PS) (AM_Q OR OT_Q) AM_NOT_USED (Some STR ''cvtpi2ps'')) True (SpecificOpcode 0 IT_GENERIC (AM_V OR OT_SD) (AM_E OR OT_D) AM_NOT_USED (Some STR ''cvtsi2sd'')) (SpecificOpcode 0 IT_GENERIC (AM_V OR OT_SS) (AM_E OR OT_D) AM_NOT_USED (Some STR ''cvtsi2ss'')) (SpecificOpcode 0 IT_GENERIC (AM_V OR OT_PD) (AM_Q OR OT_DQ) AM_NOT_USED (Some STR ''cvtpi2pd'')),
    Opcode (SpecificOpcode 0 IT_GENERIC (AM_W OR OT_PS) (AM_V OR OT_PS) AM_NOT_USED (Some STR ''movntps'')) True no_opcode no_opcode (SpecificOpcode 0 IT_GENERIC (AM_W OR OT_PD) (AM_V OR OT_PD) AM_NOT_USED (Some STR ''movntpd'')),
    Opcode (SpecificOpcode 0 IT_GENERIC (AM_Q OR OT_Q) (AM_W OR OT_PS) AM_NOT_USED (Some STR ''cvttps2pi'')) True (SpecificOpcode 0 IT_GENERIC (AM_G OR OT_D) (AM_W OR OT_SD) AM_NOT_USED (Some STR ''cvttsd2si'')) (SpecificOpcode 0 IT_GENERIC (AM_G OR OT_D) (AM_W OR OT_SS) AM_NOT_USED (Some STR ''cvttss2si'')) (SpecificOpcode 0 IT_GENERIC (AM_Q OR OT_DQ) (AM_W OR OT_PD) AM_NOT_USED (Some STR ''cvttpd2pi'')),
    Opcode (SpecificOpcode 0 IT_GENERIC (AM_Q OR OT_Q) (AM_W OR OT_PS) AM_NOT_USED (Some STR ''cvtps2pi'')) True (SpecificOpcode 0 IT_GENERIC (AM_G OR OT_D) (AM_W OR OT_SD) AM_NOT_USED (Some STR ''cvtsd2si'')) (SpecificOpcode 0 IT_GENERIC (AM_G OR OT_D) (AM_W OR OT_SS) AM_NOT_USED (Some STR ''cvtss2si'')) (SpecificOpcode 0 IT_GENERIC (AM_Q OR OT_DQ) (AM_W OR OT_PD) AM_NOT_USED (Some STR ''cvtpd2pi'')),
    Opcode (SpecificOpcode 0 IT_GENERIC (AM_V OR OT_SS) (AM_W OR OT_SS) AM_NOT_USED (Some STR ''ucomiss'')) True no_opcode no_opcode (SpecificOpcode 0 IT_GENERIC (AM_V OR OT_SD) (AM_W OR OT_SD) AM_NOT_USED (Some STR ''ucomisd'')),
    Opcode (SpecificOpcode 0 IT_GENERIC (AM_V OR OT_PS) (AM_W OR OT_SS) AM_NOT_USED (Some STR ''comiss'')) True no_opcode no_opcode (SpecificOpcode 0 IT_GENERIC (AM_V OR OT_SD) (AM_W OR OT_SD) AM_NOT_USED (Some STR ''comisd''))]"

definition s_opcode_byte_after_0f_30 :: "opcode list" where
  "s_opcode_byte_after_0f_30 = [
    plain_opcode 0 IT_GENERIC AM_NOT_USED AM_NOT_USED AM_NOT_USED (Some STR ''wrmsr''),
    plain_opcode 0 IT_GENERIC AM_NOT_USED AM_NOT_USED AM_NOT_USED (Some STR ''rdtsc''),
    plain_opcode 0 IT_GENERIC AM_NOT_USED AM_NOT_USED AM_NOT_USED (Some STR ''rdmsr''),
    plain_opcode 0 IT_GENERIC AM_NOT_USED AM_NOT_USED AM_NOT_USED (Some STR ''rdpmc''),
    plain_opcode 0 IT_GENERIC AM_NOT_USED AM_NOT_USED AM_NOT_USED (Some STR ''sysenter''),
    plain_opcode 0 IT_GENERIC AM_NOT_USED AM_NOT_USED AM_NOT_USED (Some STR ''sysexit''),
    plain_opcode 0 IT_UNUSED AM_NOT_USED AM_NOT_USED AM_NOT_USED None,
    plain_opcode 0 IT_UNUSED AM_NOT_USED AM_NOT_USED AM_NOT_USED None,
    plain_opcode 0 IT_UNUSED AM_NOT_USED AM_NOT_USED AM_NOT_USED None,
    plain_opcode 0 IT_UNUSED AM_NOT_USED AM_NOT_USED AM_NOT_USED None,
    plain_opcode 0 IT_UNUSED AM_NOT_USED AM_NOT_USED AM_NOT_USED None,
    plain_opcode 0 IT_UNUSED AM_NOT_USED AM_NOT_USED AM_NOT_USED None,
    plain_opcode 0 IT_GENERIC (AM_G OR OT_V) (AM_E OR OT_V) AM_NOT_USED (Some STR ''movnti''),
    plain_opcode 0 IT_UNUSED AM_NOT_USED AM_NOT_USED AM_NOT_USED None,
    plain_opcode 0 IT_UNUSED AM_NOT_USED AM_NOT_USED AM_NOT_USED None,
    plain_opcode 0 IT_UNUSED AM_NOT_USED AM_NOT_USED AM_NOT_USED None,
    plain_opcode 0 IT_GENERIC (AM_G OR OT_V) (AM_E OR OT_V) AM_NOT_USED (Some STR ''cmovo''),
    plain_opcode 0 IT_GENERIC (AM_G OR OT_V) (AM_E OR OT_V) AM_NOT_USED (Some STR ''cmovno''),
    plain_opcode 0 IT_GENERIC (AM_G OR OT_V) (AM_E OR OT_V) AM_NOT_USED (Some STR ''cmovc''),
    plain_opcode 0 IT_GENERIC (AM_G OR OT_V) (AM_E OR OT_V) AM_NOT_USED (Some STR ''cmovnc''),
    plain_opcode 0 IT_GENERIC (AM_G OR OT_V) (AM_E OR OT_V) AM_NOT_USED (Some STR ''cmovz''),
    plain_opcode 0 IT_GENERIC (AM_G OR OT_V) (AM_E OR OT_V) AM_NOT_USED (Some STR ''cmovnz''),
    plain_opcode 0 IT_GENERIC (AM_G OR OT_V) (AM_E OR OT_V) AM_NOT_USED (Some STR ''cmovbe''),
    plain_opcode 0 IT_GENERIC (AM_G OR OT_V) (AM_E OR OT_V) AM_NOT_USED (Some STR ''cmova''),
    plain_opcode 0 IT_GENERIC (AM_G OR OT_V) (AM_E OR OT_V) AM_NOT_USED (Some STR ''cmovs''),
    plain_opcode 0 IT_GENERIC (AM_G OR OT_V) (AM_E OR OT_V) AM_NOT_USED (Some STR ''cmovns''),
    plain_opcode 0 IT_GENERIC (AM_G OR OT_V) (AM_E OR OT_V) AM_NOT_USED (Some STR ''cmovpe''),
    plain_opcode 0 IT_GENERIC (AM_G OR OT_V) (AM_E OR OT_V) AM_NOT_USED (Some STR ''cmovpo''),
    plain_opcode 0 IT_GENERIC (AM_G OR OT_V) (AM_E OR OT_V) AM_NOT_USED (Some STR ''cmovl''),
    plain_opcode 0 IT_GENERIC (AM_G OR OT_V) (AM_E OR OT_V) AM_NOT_USED (Some STR ''cmovge''),
    plain_opcode 0 IT_GENERIC (AM_G OR OT_V) (AM_E OR OT_V) AM_NOT_USED (Some STR ''cmovle''),
    plain_opcode 0 IT_GENERIC (AM_G OR OT_V) (AM_E OR OT_V) AM_NOT_USED (Some STR ''cmovg'')]"

definition s_opcode_byte_after_0f_50 :: "opcode list" where
  "s_opcode_byte_after_0f_50 = [
    Opcode (SpecificOpcode 0 IT_GENERIC (AM_E OR OT_D) (AM_V OR OT_PS) AM_NOT_USED (Some STR ''movmskps'')) True no_opcode no_opcode (SpecificOpcode 0 IT_GENERIC (AM_E OR OT_D) (AM_V OR OT_PD) AM_NOT_USED (Some STR ''movmskpd'')),
    Opcode (SpecificOpcode 0 IT_GENERIC (AM_V OR OT_PS) (AM_W OR OT_PS) AM_NOT_USED (Some STR ''sqrtps'')) True (SpecificOpcode 0 IT_GENERIC (AM_V OR OT_SD) (AM_W OR OT_SD) AM_NOT_USED (Some STR ''sqrtsd'')) (SpecificOpcode 0 IT_GENERIC (AM_V OR OT_SS) (AM_W OR OT_SS) AM_NOT_USED (Some STR ''sqrtss'')) (SpecificOpcode 0 IT_GENERIC (AM_V OR OT_PD) (AM_W OR OT_PD) AM_NOT_USED (Some STR ''sqrtpd'')),
    Opcode (SpecificOpcode 0 IT_GENERIC (AM_V OR OT_PS) (AM_W OR OT_PS) AM_NOT_USED (Some STR ''rsqrtps'')) True no_opcode (SpecificOpcode 0 IT_GENERIC (AM_V OR OT_SS) (AM_W OR OT_SS) AM_NOT_USED (Some STR ''rsqrtss'')) no_opcode,
    Opcode (SpecificOpcode 0 IT_GENERIC (AM_V OR OT_PS) (AM_W OR OT_PS) AM_NOT_USED (Some STR ''rcpps'')) True no_opcode (SpecificOpcode 0 IT_GENERIC (AM_V OR OT_SS) (AM_W OR OT_SS) AM_NOT_USED (Some STR ''rcpss'')) no_opcode,
    Opcode (SpecificOpcode 0 IT_GENERIC (AM_V OR OT_PS) (AM_W OR OT_PS) AM_NOT_USED (Some STR ''andps'')) True no_opcode no_opcode (SpecificOpcode 0 IT_GENERIC (AM_V OR OT_PD) (AM_W OR OT_PD) AM_NOT_USED (Some STR ''andpd'')),
    Opcode (SpecificOpcode 0 IT_GENERIC (AM_V OR OT_PS) (AM_W OR OT_PS) AM_NOT_USED (Some STR ''andnps'')) True no_opcode no_opcode (SpecificOpcode 0 IT_GENERIC (AM_V OR OT_PD) (AM_W OR OT_PD) AM_NOT_USED (Some STR ''andnpd'')),
    Opcode (SpecificOpcode 0 IT_GENERIC (AM_V OR OT_PS) (AM_W OR OT_PS) AM_NOT_USED (Some STR ''orps'')) True no_opcode no_opcode (SpecificOpcode 0 IT_GENERIC (AM_V OR OT_PD) (AM_W OR OT_PD) AM_NOT_USED (Some STR ''orpd'')),
    Opcode (SpecificOpcode 0 IT_GENERIC (AM_V OR OT_PS) (AM_W OR OT_PS) AM_NOT_USED (Some STR ''xorps'')) True no_opcode no_opcode (SpecificOpcode 0 IT_GENERIC (AM_V OR OT_PD) (AM_W OR OT_PD) AM_NOT_USED (Some STR ''xorpd'')),
    Opcode (SpecificOpcode 0 IT_GENERIC (AM_V OR OT_PS) (AM_W OR OT_PS) AM_NOT_USED (Some STR ''addps'')) True (SpecificOpcode 0 IT_GENERIC (AM_V OR OT_SD) (AM_W OR OT_SD) AM_NOT_USED (Some STR ''addsd'')) (SpecificOpcode 0 IT_GENERIC (AM_V OR OT_SS) (AM_W OR OT_SS) AM_NOT_USED (Some STR ''addss'')) (SpecificOpcode 0 IT_GENERIC (AM_V OR OT_PD) (AM_W OR OT_PD) AM_NOT_USED (Some STR ''addpd'')),
    Opcode (SpecificOpcode 0 IT_GENERIC (AM_V OR OT_PS) (AM_W OR OT_PS) AM_NOT_USED (Some STR ''mulps'')) True (SpecificOpcode 0 IT_GENERIC (AM_V OR OT_SD) (AM_W OR OT_SD) AM_NOT_USED (Some STR ''mulsd'')) (SpecificOpcode 0 IT_GENERIC (AM_V OR OT_SS) (AM_W OR OT_SS) AM_NOT_USED (Some STR ''mulss'')) (SpecificOpcode 0 IT_GENERIC (AM_V OR OT_PD) (AM_W OR OT_PD) AM_NOT_USED (Some STR ''mulpd'')),
    Opcode (SpecificOpcode 0 IT_GENERIC (AM_V OR OT_PD) (AM_W OR OT_PS) AM_NOT_USED (Some STR ''cvtps2pd'')) True (SpecificOpcode 0 IT_GENERIC (AM_V OR OT_SD) (AM_W OR OT_SD) AM_NOT_USED (Some STR ''cvtsd2ss'')) (SpecificOpcode 0 IT_GENERIC (AM_V OR OT_SS) (AM_W OR OT_SS) AM_NOT_USED (Some STR ''cvtss2sd'')) (SpecificOpcode 0 IT_GENERIC (AM_V OR OT_PS) (AM_W OR OT_PD) AM_NOT_USED (Some STR ''cvtpd2ps'')),
    Opcode (SpecificOpcode 0 IT_GENERIC (AM_V OR OT_PS) (AM_W OR OT_DQ) AM_NOT_USED (Some STR ''cvtdq2ps'')) True no_opcode (SpecificOpcode 0 IT_GENERIC (AM_V OR OT_DQ) (AM_W OR OT_PS) AM_NOT_USED (Some STR ''cvttps2dq'')) (SpecificOpcode 0 IT_GENERIC (AM_V OR OT_DQ) (AM_W OR OT_PS) AM_NOT_USED (Some STR ''cvtps2dq'')),
    Opcode (SpecificOpcode 0 IT_GENERIC (AM_V OR OT_PS) (AM_W OR OT_PS) AM_NOT_USED (Some STR ''subps'')) True (SpecificOpcode 0 IT_GENERIC (AM_V OR OT_SD) (AM_W OR OT_SD) AM_NOT_USED (Some STR ''subsd'')) (SpecificOpcode 0 IT_GENERIC (AM_V OR OT_SS) (AM_W OR OT_SS) AM_NOT_USED (Some STR ''subss'')) (SpecificOpcode 0 IT_GENERIC (AM_V OR OT_PD) (AM_W OR OT_PD) AM_NOT_USED (Some STR ''subpd'')),
    Opcode (SpecificOpcode 0 IT_GENERIC (AM_V OR OT_PS) (AM_W OR OT_PS) AM_NOT_USED (Some STR ''minps'')) True (SpecificOpcode 0 IT_GENERIC (AM_V OR OT_SD) (AM_W OR OT_SD) AM_NOT_USED (Some STR ''minsd'')) (SpecificOpcode 0 IT_GENERIC (AM_V OR OT_SS) (AM_W OR OT_SS) AM_NOT_USED (Some STR ''minss'')) (SpecificOpcode 0 IT_GENERIC (AM_V OR OT_PD) (AM_W OR OT_PD) AM_NOT_USED (Some STR ''minpd'')),
    Opcode (SpecificOpcode 0 IT_GENERIC (AM_V OR OT_PS) (AM_W OR OT_PS) AM_NOT_USED (Some STR ''divps'')) True (SpecificOpcode 0 IT_GENERIC (AM_V OR OT_SD) (AM_W OR OT_SD) AM_NOT_USED (Some STR ''divsd'')) (SpecificOpcode 0 IT_GENERIC (AM_V OR OT_SS) (AM_W OR OT_SS) AM_NOT_USED (Some STR ''divss'')) (SpecificOpcode 0 IT_GENERIC (AM_V OR OT_PD) (AM_W OR OT_PD) AM_NOT_USED (Some STR ''divpd'')),
    Opcode (SpecificOpcode 0 IT_GENERIC (AM_V OR OT_PS) (AM_W OR OT_PS) AM_NOT_USED (Some STR ''maxps'')) True (SpecificOpcode 0 IT_GENERIC (AM_V OR OT_SD) (AM_W OR OT_SD) AM_NOT_USED (Some STR ''maxsd'')) (SpecificOpcode 0 IT_GENERIC (AM_V OR OT_SS) (AM_W OR OT_SS) AM_NOT_USED (Some STR ''maxss'')) (SpecificOpcode 0 IT_GENERIC (AM_V OR OT_PD) (AM_W OR OT_PD) AM_NOT_USED (Some STR ''maxpd''))]"

definition s_opcode_byte_after_0f_60 :: "opcode list" where
  "s_opcode_byte_after_0f_60 = [
    Opcode (SpecificOpcode 0 IT_GENERIC (AM_P OR OT_Q) (AM_Q OR OT_D) AM_NOT_USED (Some STR ''punpcklbw'')) True no_opcode no_opcode (SpecificOpcode 0 IT_GENERIC (AM_V OR OT_DQ) (AM_W OR OT_DQ) AM_NOT_USED (Some STR ''punpcklbw'')),
    Opcode (SpecificOpcode 0 IT_GENERIC (AM_P OR OT_Q) (AM_Q OR OT_D) AM_NOT_USED (Some STR ''punpcklwd'')) True no_opcode no_opcode (SpecificOpcode 0 IT_GENERIC (AM_V OR OT_DQ) (AM_W OR OT_DQ) AM_NOT_USED (Some STR ''punpcklwd'')),
    Opcode (SpecificOpcode 0 IT_GENERIC (AM_P OR OT_Q) (AM_Q OR OT_D) AM_NOT_USED (Some STR ''punpckldq'')) True no_opcode no_opcode (SpecificOpcode 0 IT_GENERIC (AM_V OR OT_DQ) (AM_W OR OT_DQ) AM_NOT_USED (Some STR ''punpckldq'')),
    Opcode (SpecificOpcode 0 IT_GENERIC (AM_P OR OT_Q) (AM_Q OR OT_D) AM_NOT_USED (Some STR ''packsswb'')) True no_opcode no_opcode (SpecificOpcode 0 IT_GENERIC (AM_V OR OT_DQ) (AM_W OR OT_DQ) AM_NOT_USED (Some STR ''packsswb'')),
    Opcode (SpecificOpcode 0 IT_GENERIC (AM_P OR OT_Q) (AM_Q OR OT_D) AM_NOT_USED (Some STR ''pcmpgtb'')) True no_opcode no_opcode (SpecificOpcode 0 IT_GENERIC (AM_V OR OT_DQ) (AM_W OR OT_DQ) AM_NOT_USED (Some STR ''pcmpgtb'')),
    Opcode (SpecificOpcode 0 IT_GENERIC (AM_P OR OT_Q) (AM_Q OR OT_D) AM_NOT_USED (Some STR ''pcmpgtw'')) True no_opcode no_opcode (SpecificOpcode 0 IT_GENERIC (AM_V OR OT_DQ) (AM_W OR OT_DQ) AM_NOT_USED (Some STR ''pcmpgtw'')),
    Opcode (SpecificOpcode 0 IT_GENERIC (AM_P OR OT_Q) (AM_Q OR OT_D) AM_NOT_USED (Some STR ''pcmpgtd'')) True no_opcode no_opcode (SpecificOpcode 0 IT_GENERIC (AM_V OR OT_DQ) (AM_W OR OT_DQ) AM_NOT_USED (Some STR ''pcmpgtd'')),
    Opcode (SpecificOpcode 0 IT_GENERIC (AM_P OR OT_Q) (AM_Q OR OT_D) AM_NOT_USED (Some STR ''packuswb'')) True no_opcode no_opcode (SpecificOpcode 0 IT_GENERIC (AM_V OR OT_DQ) (AM_W OR OT_DQ) AM_NOT_USED (Some STR ''packuswb'')),
    Opcode (SpecificOpcode 0 IT_GENERIC (AM_P OR OT_Q) (AM_Q OR OT_D) AM_NOT_USED (Some STR ''punpckhbw'')) True no_opcode no_opcode (SpecificOpcode 0 IT_GENERIC (AM_P OR OT_DQ) (AM_Q OR OT_DQ) AM_NOT_USED (Some STR ''punpckhbw'')),
    Opcode (SpecificOpcode 0 IT_GENERIC (AM_P OR OT_Q) (AM_Q OR OT_D) AM_NOT_USED (Some STR ''punpckhwd'')) True no_opcode no_opcode (SpecificOpcode 0 IT_GENERIC (AM_P OR OT_DQ) (AM_Q OR OT_DQ) AM_NOT_USED (Some STR ''punpckhwd'')),
    Opcode (SpecificOpcode 0 IT_GENERIC (AM_P OR OT_Q) (AM_Q OR OT_D) AM_NOT_USED (Some STR ''punpckhdq'')) True no_opcode no_opcode (SpecificOpcode 0 IT_GENERIC (AM_P OR OT_DQ) (AM_Q OR OT_DQ) AM_NOT_USED (Some STR ''punpckhdq'')),
    Opcode (SpecificOpcode 0 IT_GENERIC (AM_P OR OT_Q) (AM_Q OR OT_D) AM_NOT_USED (Some STR ''packssdw'')) True no_opcode no_opcode (SpecificOpcode 0 IT_GENERIC (AM_P OR OT_DQ) (AM_Q OR OT_DQ) AM_NOT_USED (Some STR ''packssdw'')),
    Opcode (SpecificOpcode 0 IT_GENERIC AM_NOT_USED AM_NOT_USED AM_NOT_USED (Some STR ''not used without prefix'')) True no_opcode no_opcode (SpecificOpcode 0 IT_GENERIC (AM_V OR OT_DQ) (AM_W OR OT_DQ) AM_NOT_USED (Some STR ''punpcklqdq'')),
    Opcode (SpecificOpcode 0 IT_GENERIC AM_NOT_USED AM_NOT_USED AM_NOT_USED (Some STR ''not used without prefix'')) True no_opcode no_opcode (SpecificOpcode 0 IT_GENERIC (AM_V OR OT_DQ) (AM_W OR OT_DQ) AM_NOT_USED (Some STR ''punpcklqdq'')),
    Opcode (SpecificOpcode 0 IT_GENERIC (AM_P OR OT_D) (AM_E OR OT_D) AM_NOT_USED (Some STR ''movd'')) True no_opcode no_opcode (SpecificOpcode 0 IT_GENERIC (AM_V OR OT_DQ) (AM_E OR OT_D) AM_NOT_USED (Some STR ''movd'')),
    Opcode (SpecificOpcode 0 IT_GENERIC (AM_P OR OT_Q) (AM_Q OR OT_D) AM_NOT_USED (Some STR ''movq'')) True no_opcode (SpecificOpcode 0 IT_GENERIC (AM_V OR OT_DQ) (AM_W OR OT_DQ) AM_NOT_USED (Some STR ''movdqu'')) (SpecificOpcode 0 IT_GENERIC (AM_V OR OT_DQ) (AM_W OR OT_DQ) AM_NOT_USED (Some STR ''movdqa'')),
    Opcode (SpecificOpcode 0 IT_GENERIC (AM_P OR OT_Q) (AM_Q OR OT_Q) (AM_I OR OT_B) (Some STR ''pshuf'')) True (SpecificOpcode 0 IT_GENERIC (AM_V OR OT_DQ) (AM_W OR OT_DQ) (AM_I OR OT_B) (Some STR ''pshuflw'')) (SpecificOpcode 0 IT_GENERIC (AM_V OR OT_DQ) (AM_W OR OT_DQ) (AM_I OR OT_B) (Some STR ''pshufhw'')) (SpecificOpcode 0 IT_GENERIC (AM_V OR OT_DQ) (AM_W OR OT_DQ) (AM_I OR OT_B) (Some STR ''pshufd'')),
    plain_opcode 19 IT_REFERENCE AM_NOT_USED AM_NOT_USED AM_NOT_USED None,
    plain_opcode 20 IT_REFERENCE AM_NOT_USED AM_NOT_USED AM_NOT_USED None,
    plain_opcode 21 IT_REFERENCE AM_NOT_USED AM_NOT_USED AM_NOT_USED None,
    Opcode (SpecificOpcode 0 IT_GENERIC (AM_P OR OT_Q) (AM_Q OR OT_Q) AM_NOT_USED (Some STR ''pcmpeqb'')) True no_opcode no_opcode (SpecificOpcode 0 IT_GENERIC (AM_V OR OT_DQ) (AM_W OR OT_DQ) AM_NOT_USED (Some STR ''pcmpeqb'')),
    Opcode (SpecificOpcode 0 IT_GENERIC (AM_P OR OT_Q) (AM_Q OR OT_Q) AM_NOT_USED (Some STR ''pcmpeqw'')) True no_opcode no_opcode (SpecificOpcode 0 IT_GENERIC (AM_V OR OT_DQ) (AM_W OR OT_DQ) AM_NOT_USED (Some STR ''pcmpeqw'')),
    Opcode (SpecificOpcode 0 IT_GENERIC (AM_P OR OT_Q) (AM_Q OR OT_Q) AM_NOT_USED (Some STR ''pcmpeqd'')) True no_opcode no_opcode (SpecificOpcode 0 IT_GENERIC (AM_V OR OT_DQ) (AM_W OR OT_DQ) AM_NOT_USED (Some STR ''pcmpeqd'')),
    plain_opcode 0 IT_GENERIC AM_NOT_USED AM_NOT_USED AM_NOT_USED (Some STR ''emms''),
    plain_opcode 0 IT_UNKNOWN AM_NOT_USED AM_NOT_USED AM_NOT_USED None,
    plain_opcode 0 IT_UNKNOWN AM_NOT_USED AM_NOT_USED AM_NOT_USED None,
    plain_opcode 0 IT_UNKNOWN AM_NOT_USED AM_NOT_USED AM_NOT_USED None,
    plain_opcode 0 IT_UNKNOWN AM_NOT_USED AM_NOT_USED AM_NOT_USED None,
    plain_opcode 0 IT_UNKNOWN AM_NOT_USED AM_NOT_USED AM_NOT_USED None,
    plain_opcode 0 IT_UNKNOWN AM_NOT_USED AM_NOT_USED AM_NOT_USED None,
    Opcode (SpecificOpcode 0 IT_GENERIC (AM_E OR OT_D) (AM_P OR OT_D) AM_NOT_USED (Some STR ''movd'')) True no_opcode (SpecificOpcode 0 IT_GENERIC (AM_V OR OT_Q) (AM_W OR OT_Q) AM_NOT_USED (Some STR ''movq'')) (SpecificOpcode 0 IT_GENERIC (AM_E OR OT_D) (AM_V OR OT_DQ) AM_NOT_USED (Some STR ''movd'')),
    Opcode (SpecificOpcode 0 IT_GENERIC (AM_Q OR OT_Q) (AM_P OR OT_Q) AM_NOT_USED (Some STR ''movq'')) True no_opcode (SpecificOpcode 0 IT_GENERIC (AM_W OR OT_DQ) (AM_V OR OT_DQ) AM_NOT_USED (Some STR ''movdqu'')) (SpecificOpcode 0 IT_GENERIC (AM_W OR OT_DQ) (AM_V OR OT_DQ) AM_NOT_USED (Some STR ''movdqa''))]"

definition s_opcode_byte_after_0f_80 :: "opcode list" where
  "s_opcode_byte_after_0f_80 = [
    plain_opcode 0 IT_JUMP (AM_J OR OT_V) AM_NOT_USED AM_NOT_USED (Some STR ''jo''),
    plain_opcode 0 IT_JUMP (AM_J OR OT_V) AM_NOT_USED AM_NOT_USED (Some STR ''jno''),
    plain_opcode 0 IT_JUMP (AM_J OR OT_V) AM_NOT_USED AM_NOT_USED (Some STR ''jc''),
    plain_opcode 0 IT_JUMP (AM_J OR OT_V) AM_NOT_USED AM_NOT_USED (Some STR ''jnc''),
    plain_opcode 0 IT_JUMP (AM_J OR OT_V) AM_NOT_USED AM_NOT_USED (Some STR ''jz''),
    plain_opcode 0 IT_JUMP (AM_J OR OT_V) AM_NOT_USED AM_NOT_USED (Some STR ''jnz''),
    plain_opcode 0 IT_JUMP (AM_J OR OT_V) AM_NOT_USED AM_NOT_USED (Some STR ''jbe''),
    plain_opcode 0 IT_JUMP (AM_J OR OT_V) AM_NOT_USED AM_NOT_USED (Some STR ''ja''),
    plain_opcode 0 IT_JUMP (AM_J OR OT_V) AM_NOT_USED AM_NOT_USED (Some STR ''js''),
    plain_opcode 0 IT_JUMP (AM_J OR OT_V) AM_NOT_USED AM_NOT_USED (Some STR ''jns''),
    plain_opcode 0 IT_JUMP (AM_J OR OT_V) AM_NOT_USED AM_NOT_USED (Some STR ''jpe''),
    plain_opcode 0 IT_JUMP (AM_J OR OT_V) AM_NOT_USED AM_NOT_USED (Some STR ''jpo''),
    plain_opcode 0 IT_JUMP (AM_J OR OT_V) AM_NOT_USED AM_NOT_USED (Some STR ''jl''),
    plain_opcode 0 IT_JUMP (AM_J OR OT_V) AM_NOT_USED AM_NOT_USED (Some STR ''jge''),
    plain_opcode 0 IT_JUMP (AM_J OR OT_V) AM_NOT_USED AM_NOT_USED (Some STR ''jle''),
    plain_opcode 0 IT_JUMP (AM_J OR OT_V) AM_NOT_USED AM_NOT_USED (Some STR ''jg''),
    plain_opcode 0 IT_GENERIC (AM_E OR OT_B) AM_NOT_USED AM_NOT_USED (Some STR ''seto''),
    plain_opcode 0 IT_GENERIC (AM_E OR OT_B) AM_NOT_USED AM_NOT_USED (Some STR ''setno''),
    plain_opcode 0 IT_GENERIC (AM_E OR OT_B) AM_NOT_USED AM_NOT_USED (Some STR ''setc''),
    plain_opcode 0 IT_GENERIC (AM_E OR OT_B) AM_NOT_USED AM_NOT_USED (Some STR ''setnc''),
    plain_opcode 0 IT_GENERIC (AM_E OR OT_B) AM_NOT_USED AM_NOT_USED (Some STR ''setz''),
    plain_opcode 0 IT_GENERIC (AM_E OR OT_B) AM_NOT_USED AM_NOT_USED (Some STR ''setnz''),
    plain_opcode 0 IT_GENERIC (AM_E OR OT_B) AM_NOT_USED AM_NOT_USED (Some STR ''setbe''),
    plain_opcode 0 IT_GENERIC (AM_E OR OT_B) AM_NOT_USED AM_NOT_USED (Some STR ''seta''),
    plain_opcode 0 IT_GENERIC (AM_E OR OT_B) AM_NOT_USED AM_NOT_USED (Some STR ''sets''),
    plain_opcode 0 IT_GENERIC (AM_E OR OT_B) AM_NOT_USED AM_NOT_USED (Some STR ''setns''),
    plain_opcode 0 IT_GENERIC (AM_E OR OT_B) AM_NOT_USED AM_NOT_USED (Some STR ''setpe''),
    plain_opcode 0 IT_GENERIC (AM_E OR OT_B) AM_NOT_USED AM_NOT_USED (Some STR ''setpo''),
    plain_opcode 0 IT_GENERIC (AM_E OR OT_B) AM_NOT_USED AM_NOT_USED (Some STR ''setl''),
    plain_opcode 0 IT_GENERIC (AM_E OR OT_B) AM_NOT_USED AM_NOT_USED (Some STR ''setge''),
    plain_opcode 0 IT_GENERIC (AM_E OR OT_B) AM_NOT_USED AM_NOT_USED (Some STR ''setle''),
    plain_opcode 0 IT_GENERIC (AM_E OR OT_B) AM_NOT_USED AM_NOT_USED (Some STR ''setg''),
    plain_opcode 0 IT_GENERIC (AM_REGISTER OR OT_W) AM_NOT_USED AM_NOT_USED (Some STR ''push''),
    plain_opcode 0 IT_GENERIC (AM_REGISTER OR OT_W) AM_NOT_USED AM_NOT_USED (Some STR ''pop''),
    plain_opcode 0 IT_GENERIC AM_NOT_USED AM_NOT_USED AM_NOT_USED (Some STR ''cpuid''),
    plain_opcode 0 IT_GENERIC (AM_E OR OT_V) (AM_G OR OT_V) AM_NOT_USED (Some STR ''bt''),
    plain_opcode 0 IT_GENERIC (AM_E OR OT_V) (AM_G OR OT_V) (AM_I OR OT_B) (Some STR ''shld''),
    plain_opcode 0 IT_GENERIC (AM_E OR OT_V) (AM_G OR OT_V) (AM_I OR OT_B OR AM_REGISTER) (Some STR ''shld''),
    plain_opcode 0 IT_UNKNOWN AM_NOT_USED AM_NOT_USED AM_NOT_USED None,
    plain_opcode 0 IT_UNKNOWN AM_NOT_USED AM_NOT_USED AM_NOT_USED None,
    plain_opcode 0 IT_GENERIC (AM_REGISTER OR OT_W) AM_NOT_USED AM_NOT_USED (Some STR ''push''),
    plain_opcode 0 IT_GENERIC (AM_REGISTER OR OT_W) AM_NOT_USED AM_NOT_USED (Some STR ''pop''),
    plain_opcode 0 IT_GENERIC AM_NOT_USED AM_NOT_USED AM_NOT_USED (Some STR ''rsm''),
    plain_opcode 0 IT_GENERIC (AM_E OR OT_V) (AM_G OR OT_V) AM_NOT_USED (Some STR ''bts''),
    plain_opcode 0 IT_GENERIC (AM_E OR OT_V) (AM_G OR OT_V) (AM_I OR OT_B) (Some STR ''shrd''),
    plain_opcode 0 IT_GENERIC (AM_E OR OT_V) (AM_G OR OT_V) (AM_I OR OT_B OR AM_REGISTER) (Some STR ''shrd''),
    plain_opcode 22 IT_REFERENCE AM_NOT_USED AM_NOT_USED AM_NOT_USED None,
    plain_opcode 0 IT_GENERIC (AM_G OR OT_V) (AM_E OR OT_V) AM_NOT_USED (Some STR ''imul''),
    plain_opcode 0 IT_GENERIC (AM_E OR OT_B) (AM_G OR OT_B) AM_NOT_USED (Some STR ''cmpxchg''),
    plain_opcode 0 IT_GENERIC (AM_E OR OT_V) (AM_G OR OT_V) AM_NOT_USED (Some STR ''cmpxchg''),
    plain_opcode 0 IT_GENERIC (AM_M OR OT_P) AM_NOT_USED AM_NOT_USED (Some STR ''lss''),
    plain_opcode 0 IT_GENERIC (AM_E OR OT_V) (AM_G OR OT_V) AM_NOT_USED (Some STR ''btr''),
    plain_opcode 0 IT_GENERIC (AM_M OR OT_P) AM_NOT_USED AM_NOT_USED (Some STR ''lfs''),
    plain_opcode 0 IT_GENERIC (AM_M OR OT_P) AM_NOT_USED AM_NOT_USED (Some STR ''lgs''),
    plain_opcode 0 IT_GENERIC (AM_G OR OT_V) (AM_E OR OT_B) AM_NOT_USED (Some STR ''movzx''),
    plain_opcode 0 IT_GENERIC (AM_G OR OT_V) (AM_E OR OT_W) AM_NOT_USED (Some STR ''movzx''),
    plain_opcode 0 IT_UNKNOWN AM_NOT_USED AM_NOT_USED AM_NOT_USED None,
    plain_opcode 0 IT_UNKNOWN AM_NOT_USED AM_NOT_USED AM_NOT_USED (Some STR ''ud1''),
    plain_opcode 23 IT_REFERENCE AM_NOT_USED AM_NOT_USED AM_NOT_USED None,
    plain_opcode 0 IT_GENERIC (AM_E OR OT_V) (AM_G OR OT_V) AM_NOT_USED (Some STR ''btc''),
    plain_opcode 0 IT_GENERIC (AM_G OR OT_V) (AM_E OR OT_V) AM_NOT_USED (Some STR ''bsf''),
    plain_opcode 0 IT_GENERIC (AM_G OR OT_V) (AM_E OR OT_V) AM_NOT_USED (Some STR ''bsr''),
    plain_opcode 0 IT_GENERIC (AM_G OR OT_V) (AM_E OR OT_B) AM_NOT_USED (Some STR ''movsx''),
    plain_opcode 0 IT_GENERIC (AM_G OR OT_V) (AM_E OR OT_W) AM_NOT_USED (Some STR ''movsx'')]"

definition s_opcode_byte_after_0f_C0 :: "opcode list" where
  "s_opcode_byte_after_0f_C0 = [
    plain_opcode 0 IT_GENERIC (AM_E OR OT_B) (AM_G OR OT_B) AM_NOT_USED (Some STR ''xadd''),
    plain_opcode 0 IT_GENERIC (AM_E OR OT_V) AM_NOT_USED AM_NOT_USED (Some STR ''xadd''),
    Opcode (SpecificOpcode 0 IT_GENERIC (AM_V OR OT_PS) (AM_W OR OT_PS) (AM_I OR OT_B) (Some STR ''cmpps'')) True (SpecificOpcode 0 IT_GENERIC (AM_V OR OT_SD) (AM_W OR OT_SD) (AM_I OR OT_B) (Some STR ''cmpsd'')) (SpecificOpcode 0 IT_GENERIC (AM_V OR OT_SS) (AM_W OR OT_SS) (AM_I OR OT_B) (Some STR ''cmpss'')) (SpecificOpcode 0 IT_GENERIC (AM_V OR OT_PD) (AM_W OR OT_PD) (AM_I OR OT_B) (Some STR ''cmppd'')),
    plain_opcode 0 IT_GENERIC (AM_E OR OT_D) (AM_G OR OT_D) AM_NOT_USED (Some STR ''movnti''),
    Opcode (SpecificOpcode 0 IT_GENERIC (AM_P OR OT_Q) (AM_E OR OT_D) (AM_I OR OT_B) (Some STR ''pinsrw'')) True no_opcode no_opcode (SpecificOpcode 0 IT_GENERIC (AM_V OR OT_DQ) (AM_E OR OT_D) (AM_I OR OT_B) (Some STR ''pinsrw'')),
    Opcode (SpecificOpcode 0 IT_GENERIC (AM_G OR OT_D) (AM_P OR OT_Q) (AM_I OR OT_B) (Some STR ''pextrw'')) True no_opcode no_opcode (SpecificOpcode 0 IT_GENERIC (AM_G OR OT_D) (AM_V OR OT_DQ) (AM_I OR OT_B) (Some STR ''pextrw'')),
    Opcode (SpecificOpcode 0 IT_GENERIC (AM_V OR OT_PS) (AM_W OR OT_PS) (AM_I OR OT_B) (Some STR ''shufps'')) True no_opcode no_opcode (SpecificOpcode 0 IT_GENERIC (AM_V OR OT_PD) (AM_W OR OT_PD) (AM_I OR OT_B) (Some STR ''shufpd'')),
    plain_opcode 24 IT_REFERENCE AM_NOT_USED AM_NOT_USED AM_NOT_USED None,
    plain_opcode 0 IT_GENERIC (AM_REGISTER OR OT_D) AM_NOT_USED AM_NOT_USED (Some STR ''bswap''),
    plain_opcode 0 IT_GENERIC (AM_REGISTER OR OT_D) AM_NOT_USED AM_NOT_USED (Some STR ''bswap''),
    plain_opcode 0 IT_GENERIC (AM_REGISTER OR OT_D) AM_NOT_USED AM_NOT_USED (Some STR ''bswap''),
    plain_opcode 0 IT_GENERIC (AM_REGISTER OR OT_D) AM_NOT_USED AM_NOT_USED (Some STR ''bswap''),
    plain_opcode 0 IT_GENERIC (AM_REGISTER OR OT_D) AM_NOT_USED AM_NOT_USED (Some STR ''bswap''),
    plain_opcode 0 IT_GENERIC (AM_REGISTER OR OT_D) AM_NOT_USED AM_NOT_USED (Some STR ''bswap''),
    plain_opcode 0 IT_GENERIC (AM_REGISTER OR OT_D) AM_NOT_USED AM_NOT_USED (Some STR ''bswap''),
    plain_opcode 0 IT_GENERIC (AM_REGISTER OR OT_D) AM_NOT_USED AM_NOT_USED (Some STR ''bswap''),
    plain_opcode 0 IT_UNUSED AM_NOT_USED AM_NOT_USED AM_NOT_USED None,
    Opcode (SpecificOpcode 0 IT_GENERIC (AM_P OR OT_Q) (AM_Q OR OT_Q) AM_NOT_USED (Some STR ''psrlw'')) True no_opcode no_opcode (SpecificOpcode 0 IT_GENERIC (AM_V OR OT_DQ) (AM_W OR OT_DQ) AM_NOT_USED (Some STR ''psrlw'')),
    Opcode (SpecificOpcode 0 IT_GENERIC (AM_P OR OT_Q) (AM_Q OR OT_Q) AM_NOT_USED (Some STR ''psrld'')) True no_opcode no_opcode (SpecificOpcode 0 IT_GENERIC (AM_V OR OT_DQ) (AM_W OR OT_DQ) AM_NOT_USED (Some STR ''psrld'')),
    Opcode (SpecificOpcode 0 IT_GENERIC (AM_P OR OT_Q) (AM_Q OR OT_Q) AM_NOT_USED (Some STR ''psrlq'')) True no_opcode no_opcode (SpecificOpcode 0 IT_GENERIC (AM_V OR OT_DQ) (AM_W OR OT_DQ) AM_NOT_USED (Some STR ''psrlq'')),
    Opcode (SpecificOpcode 0 IT_GENERIC (AM_P OR OT_Q) (AM_Q OR OT_Q) AM_NOT_USED (Some STR ''paddq'')) True no_opcode no_opcode (SpecificOpcode 0 IT_GENERIC (AM_V OR OT_DQ) (AM_W OR OT_DQ) AM_NOT_USED (Some STR ''paddq'')),
    Opcode (SpecificOpcode 0 IT_GENERIC (AM_P OR OT_Q) (AM_Q OR OT_Q) AM_NOT_USED (Some STR ''pmullw'')) True no_opcode no_opcode (SpecificOpcode 0 IT_GENERIC (AM_V OR OT_DQ) (AM_W OR OT_DQ) AM_NOT_USED (Some STR ''pmullw'')),
    Opcode (SpecificOpcode 0 IT_GENERIC AM_NOT_USED AM_NOT_USED AM_NOT_USED (Some STR ''unused without prefix'')) True (SpecificOpcode 0 IT_GENERIC (AM_P OR OT_Q) (AM_W OR OT_Q) AM_NOT_USED (Some STR ''movdq2q'')) (SpecificOpcode 0 IT_GENERIC (AM_V OR OT_DQ) (AM_Q OR OT_Q) AM_NOT_USED (Some STR ''movq2dq'')) (SpecificOpcode 0 IT_GENERIC (AM_W OR OT_Q) (AM_V OR OT_Q) AM_NOT_USED (Some STR ''movq'')),
    Opcode (SpecificOpcode 0 IT_GENERIC (AM_G OR OT_D) (AM_P OR OT_Q) AM_NOT_USED (Some STR ''pmovmskb'')) True no_opcode no_opcode (SpecificOpcode 0 IT_GENERIC (AM_G OR OT_D) (AM_V OR OT_DQ) AM_NOT_USED (Some STR ''pmovmskb'')),
    Opcode (SpecificOpcode 0 IT_GENERIC (AM_P OR OT_Q) (AM_Q OR OT_Q) AM_NOT_USED (Some STR ''psubusb'')) True no_opcode no_opcode (SpecificOpcode 0 IT_GENERIC (AM_V OR OT_DQ) (AM_W OR OT_DQ) AM_NOT_USED (Some STR ''psubusb'')),
    Opcode (SpecificOpcode 0 IT_GENERIC (AM_P OR OT_Q) (AM_Q OR OT_Q) AM_NOT_USED (Some STR ''psubusw'')) True no_opcode no_opcode (SpecificOpcode 0 IT_GENERIC (AM_V OR OT_DQ) (AM_W OR OT_DQ) AM_NOT_USED (Some STR ''psubusw'')),
    Opcode (SpecificOpcode 0 IT_GENERIC (AM_P OR OT_Q) (AM_Q OR OT_Q) AM_NOT_USED (Some STR ''pminub'')) True no_opcode no_opcode (SpecificOpcode 0 IT_GENERIC (AM_V OR OT_DQ) (AM_W OR OT_DQ) AM_NOT_USED (Some STR ''pminub'')),
    Opcode (SpecificOpcode 0 IT_GENERIC (AM_P OR OT_Q) (AM_Q OR OT_Q) AM_NOT_USED (Some STR ''pand'')) True no_opcode no_opcode (SpecificOpcode 0 IT_GENERIC (AM_V OR OT_DQ) (AM_W OR OT_DQ) AM_NOT_USED (Some STR ''pand'')),
    Opcode (SpecificOpcode 0 IT_GENERIC (AM_P OR OT_Q) (AM_Q OR OT_Q) AM_NOT_USED (Some STR ''paddusb'')) True no_opcode no_opcode (SpecificOpcode 0 IT_GENERIC (AM_V OR OT_DQ) (AM_W OR OT_DQ) AM_NOT_USED (Some STR ''paddusb'')),
    Opcode (SpecificOpcode 0 IT_GENERIC (AM_P OR OT_Q) (AM_Q OR OT_Q) AM_NOT_USED (Some STR ''paddusw'')) True no_opcode no_opcode (SpecificOpcode 0 IT_GENERIC (AM_V OR OT_DQ) (AM_W OR OT_DQ) AM_NOT_USED (Some STR ''paddusw'')),
    Opcode (SpecificOpcode 0 IT_GENERIC (AM_P OR OT_Q) (AM_Q OR OT_Q) AM_NOT_USED (Some STR ''pmaxub'')) True no_opcode no_opcode (SpecificOpcode 0 IT_GENERIC (AM_V OR OT_DQ) (AM_W OR OT_DQ) AM_NOT_USED (Some STR ''pmaxub'')),
    Opcode (SpecificOpcode 0 IT_GENERIC (AM_P OR OT_Q) (AM_Q OR OT_Q) AM_NOT_USED (Some STR ''pandn'')) True no_opcode no_opcode (SpecificOpcode 0 IT_GENERIC (AM_V OR OT_DQ) (AM_W OR OT_DQ) AM_NOT_USED (Some STR ''pandn''))]"

definition s_opcode_byte_after_0f_E0 :: "opcode list" where
  "s_opcode_byte_after_0f_E0 = [
    Opcode (SpecificOpcode 0 IT_GENERIC (AM_P OR OT_Q) (AM_Q OR OT_Q) AM_NOT_USED (Some STR ''pavgb'')) True no_opcode no_opcode (SpecificOpcode 0 IT_GENERIC (AM_V OR OT_DQ) (AM_W OR OT_DQ) AM_NOT_USED (Some STR ''pavgb'')),
    Opcode (SpecificOpcode 0 IT_GENERIC (AM_P OR OT_Q) (AM_Q OR OT_Q) AM_NOT_USED (Some STR ''psraw'')) True no_opcode no_opcode (SpecificOpcode 0 IT_GENERIC (AM_V OR OT_DQ) (AM_W OR OT_DQ) AM_NOT_USED (Some STR ''psrqw'')),
    Opcode (SpecificOpcode 0 IT_GENERIC (AM_P OR OT_Q) (AM_Q OR OT_Q) AM_NOT_USED (Some STR ''psrad'')) True no_opcode no_opcode (SpecificOpcode 0 IT_GENERIC (AM_V OR OT_DQ) (AM_W OR OT_DQ) AM_NOT_USED (Some STR ''psrad'')),
    Opcode (SpecificOpcode 0 IT_GENERIC (AM_P OR OT_Q) (AM_Q OR OT_Q) AM_NOT_USED (Some STR ''pavgw'')) True no_opcode no_opcode (SpecificOpcode 0 IT_GENERIC (AM_V OR OT_DQ) (AM_W OR OT_DQ) AM_NOT_USED (Some STR ''pavgw'')),
    Opcode (SpecificOpcode 0 IT_GENERIC (AM_P OR OT_Q) (AM_Q OR OT_Q) AM_NOT_USED (Some STR ''pmulhuw'')) True no_opcode no_opcode (SpecificOpcode 0 IT_GENERIC (AM_V OR OT_DQ) (AM_W OR OT_DQ) AM_NOT_USED (Some STR ''pmulhuw'')),
    Opcode (SpecificOpcode 0 IT_GENERIC (AM_P OR OT_Q) (AM_Q OR OT_Q) AM_NOT_USED (Some STR ''pmulhuw'')) True no_opcode no_opcode (SpecificOpcode 0 IT_GENERIC (AM_V OR OT_DQ) (AM_W OR OT_DQ) AM_NOT_USED (Some STR ''pmulhw'')),
    Opcode (SpecificOpcode 0 IT_GENERIC AM_NOT_USED AM_NOT_USED AM_NOT_USED (Some STR ''not used without prefix'')) True (SpecificOpcode 0 IT_GENERIC (AM_V OR OT_DQ) (AM_W OR OT_PD) AM_NOT_USED (Some STR ''cvtpd2dq'')) (SpecificOpcode 0 IT_GENERIC (AM_V OR OT_PD) (AM_W OR OT_DQ) AM_NOT_USED (Some STR ''cvtdq2pd'')) (SpecificOpcode 0 IT_GENERIC (AM_V OR OT_DQ) (AM_W OR OT_PD) AM_NOT_USED (Some STR ''cvttpd2dq'')),
    Opcode (SpecificOpcode 0 IT_GENERIC (AM_W OR OT_Q) (AM_V OR OT_Q) AM_NOT_USED (Some STR ''movntq'')) True no_opcode no_opcode (SpecificOpcode 0 IT_GENERIC (AM_W OR OT_DQ) (AM_V OR OT_DQ) AM_NOT_USED (Some STR ''movntdq'')),
    Opcode (SpecificOpcode 0 IT_GENERIC (AM_P OR OT_Q) (AM_Q OR OT_Q) AM_NOT_USED (Some STR ''psubsb'')) True no_opcode no_opcode (SpecificOpcode 0 IT_GENERIC (AM_V OR OT_DQ) (AM_W OR OT_DQ) AM_NOT_USED (Some STR ''psubsb'')),
    Opcode (SpecificOpcode 0 IT_GENERIC (AM_P OR OT_Q) (AM_Q OR OT_Q) AM_NOT_USED (Some STR ''psubsw'')) True no_opcode no_opcode (SpecificOpcode 0 IT_GENERIC (AM_V OR OT_DQ) (AM_W OR OT_DQ) AM_NOT_USED (Some STR ''psubsw'')),
    Opcode (SpecificOpcode 0 IT_GENERIC (AM_P OR OT_Q) (AM_Q OR OT_Q) AM_NOT_USED (Some STR ''pminsw'')) True no_opcode no_opcode (SpecificOpcode 0 IT_GENERIC (AM_V OR OT_DQ) (AM_W OR OT_DQ) AM_NOT_USED (Some STR ''pminsw'')),
    Opcode (SpecificOpcode 0 IT_GENERIC (AM_P OR OT_Q) (AM_Q OR OT_Q) AM_NOT_USED (Some STR ''por'')) True no_opcode no_opcode (SpecificOpcode 0 IT_GENERIC (AM_V OR OT_DQ) (AM_W OR OT_DQ) AM_NOT_USED (Some STR ''por'')),
    Opcode (SpecificOpcode 0 IT_GENERIC (AM_P OR OT_Q) (AM_Q OR OT_Q) AM_NOT_USED (Some STR ''paddsb'')) True no_opcode no_opcode (SpecificOpcode 0 IT_GENERIC (AM_V OR OT_DQ) (AM_W OR OT_DQ) AM_NOT_USED (Some STR ''paddsb'')),
    Opcode (SpecificOpcode 0 IT_GENERIC (AM_P OR OT_Q) (AM_Q OR OT_Q) AM_NOT_USED (Some STR ''paddsw'')) True no_opcode no_opcode (SpecificOpcode 0 IT_GENERIC (AM_V OR OT_DQ) (AM_W OR OT_DQ) AM_NOT_USED (Some STR ''paddsw'')),
    Opcode (SpecificOpcode 0 IT_GENERIC (AM_P OR OT_Q) (AM_Q OR OT_Q) AM_NOT_USED (Some STR ''pmaxsw'')) True no_opcode no_opcode (SpecificOpcode 0 IT_GENERIC (AM_V OR OT_DQ) (AM_W OR OT_DQ) AM_NOT_USED (Some STR ''pmaxsw'')),
    Opcode (SpecificOpcode 0 IT_GENERIC (AM_P OR OT_Q) (AM_Q OR OT_Q) AM_NOT_USED (Some STR ''pxor'')) True no_opcode no_opcode (SpecificOpcode 0 IT_GENERIC (AM_V OR OT_DQ) (AM_W OR OT_DQ) AM_NOT_USED (Some STR ''pxor''))]"

definition s_opcode_byte_after_0f_F0 :: "opcode list" where
  "s_opcode_byte_after_0f_F0 = [
    plain_opcode 0 IT_UNUSED AM_NOT_USED AM_NOT_USED AM_NOT_USED None,
    Opcode (SpecificOpcode 0 IT_GENERIC (AM_P OR OT_Q) (AM_Q OR OT_Q) AM_NOT_USED (Some STR ''psllw'')) True no_opcode no_opcode (SpecificOpcode 0 IT_GENERIC (AM_V OR OT_DQ) (AM_W OR OT_DQ) AM_NOT_USED (Some STR ''psllw'')),
    Opcode (SpecificOpcode 0 IT_GENERIC (AM_P OR OT_Q) (AM_Q OR OT_Q) AM_NOT_USED (Some STR ''pslld'')) True no_opcode no_opcode (SpecificOpcode 0 IT_GENERIC (AM_V OR OT_DQ) (AM_W OR OT_DQ) AM_NOT_USED (Some STR ''pslld'')),
    Opcode (SpecificOpcode 0 IT_GENERIC (AM_P OR OT_Q) (AM_Q OR OT_Q) AM_NOT_USED (Some STR ''psllq'')) True no_opcode no_opcode (SpecificOpcode 0 IT_GENERIC (AM_V OR OT_DQ) (AM_W OR OT_DQ) AM_NOT_USED (Some STR ''psllq'')),
    Opcode (SpecificOpcode 0 IT_GENERIC (AM_P OR OT_Q) (AM_Q OR OT_Q) AM_NOT_USED (Some STR ''pmuludq'')) True no_opcode no_opcode (SpecificOpcode 0 IT_GENERIC (AM_V OR OT_DQ) (AM_W OR OT_DQ) AM_NOT_USED (Some STR ''pmuludq'')),
    Opcode (SpecificOpcode 0 IT_GENERIC (AM_P OR OT_Q) (AM_Q OR OT_Q) AM_NOT_USED (Some STR ''pmaddwd'')) True no_opcode no_opcode (SpecificOpcode 0 IT_GENERIC (AM_V OR OT_DQ) (AM_W OR OT_DQ) AM_NOT_USED (Some STR ''pmaddwd'')),
    Opcode (SpecificOpcode 0 IT_GENERIC (AM_P OR OT_Q) (AM_Q OR OT_Q) AM_NOT_USED (Some STR ''psadbw'')) True no_opcode no_opcode (SpecificOpcode 0 IT_GENERIC (AM_V OR OT_DQ) (AM_W OR OT_DQ) AM_NOT_USED (Some STR ''psadbw'')),
    Opcode (SpecificOpcode 0 IT_GENERIC (AM_P OR OT_PI) (AM_Q OR OT_PI) AM_NOT_USED (Some STR ''maskmovq'')) True no_opcode no_opcode (SpecificOpcode 0 IT_GENERIC (AM_V OR OT_DQ) (AM_W OR OT_DQ) AM_NOT_USED (Some STR ''maskmovdqu'')),
    Opcode (SpecificOpcode 0 IT_GENERIC (AM_P OR OT_Q) (AM_Q OR OT_Q) AM_NOT_USED (Some STR ''psubb'')) True no_opcode no_opcode (SpecificOpcode 0 IT_GENERIC (AM_V OR OT_DQ) (AM_W OR OT_DQ) AM_NOT_USED (Some STR ''psubb'')),
    Opcode (SpecificOpcode 0 IT_GENERIC (AM_P OR OT_Q) (AM_Q OR OT_Q) AM_NOT_USED (Some STR ''psubw'')) True no_opcode no_opcode (SpecificOpcode 0 IT_GENERIC (AM_V OR OT_DQ) (AM_W OR OT_DQ) AM_NOT_USED (Some STR ''psubw'')),
    Opcode (SpecificOpcode 0 IT_GENERIC (AM_P OR OT_Q) (AM_Q OR OT_Q) AM_NOT_USED (Some STR ''psubd'')) True no_opcode no_opcode (SpecificOpcode 0 IT_GENERIC (AM_V OR OT_DQ) (AM_W OR OT_DQ) AM_NOT_USED (Some STR ''psubd'')),
    Opcode (SpecificOpcode 0 IT_GENERIC (AM_P OR OT_Q) (AM_Q OR OT_Q) AM_NOT_USED (Some STR ''psubq'')) True no_opcode no_opcode (SpecificOpcode 0 IT_GENERIC (AM_V OR OT_DQ) (AM_W OR OT_DQ) AM_NOT_USED (Some STR ''psubq'')),
    Opcode (SpecificOpcode 0 IT_GENERIC (AM_P OR OT_Q) (AM_Q OR OT_Q) AM_NOT_USED (Some STR ''paddb'')) True no_opcode no_opcode (SpecificOpcode 0 IT_GENERIC (AM_V OR OT_DQ) (AM_W OR OT_DQ) AM_NOT_USED (Some STR ''paddb'')),
    Opcode (SpecificOpcode 0 IT_GENERIC (AM_P OR OT_Q) (AM_Q OR OT_Q) AM_NOT_USED (Some STR ''paddw'')) True no_opcode no_opcode (SpecificOpcode 0 IT_GENERIC (AM_V OR OT_DQ) (AM_W OR OT_DQ) AM_NOT_USED (Some STR ''paddw'')),
    Opcode (SpecificOpcode 0 IT_GENERIC (AM_P OR OT_Q) (AM_Q OR OT_Q) AM_NOT_USED (Some STR ''paddd'')) True no_opcode no_opcode (SpecificOpcode 0 IT_GENERIC (AM_V OR OT_DQ) (AM_W OR OT_DQ) AM_NOT_USED (Some STR ''paddd'')),
    plain_opcode 0 IT_UNUSED AM_NOT_USED AM_NOT_USED AM_NOT_USED None]"

definition s_opcode_byte_after_0f :: "opcode list" where
  "s_opcode_byte_after_0f = s_opcode_byte_after_0f_00 @
     s_opcode_byte_after_0f_30 @
     s_opcode_byte_after_0f_50 @
     s_opcode_byte_after_0f_60 @
     s_opcode_byte_after_0f_80 @
     s_opcode_byte_after_0f_C0 @
     s_opcode_byte_after_0f_E0 @
     s_opcode_byte_after_0f_F0"

definition s_opcode_byte_after_0f00 :: "opcode list" where
  "s_opcode_byte_after_0f00 = [
    plain_opcode 0 IT_GENERIC (AM_E OR OT_W) AM_NOT_USED AM_NOT_USED (Some STR ''sldt''),
    plain_opcode 0 IT_GENERIC (AM_E OR OT_W) AM_NOT_USED AM_NOT_USED (Some STR ''str''),
    plain_opcode 0 IT_GENERIC (AM_E OR OT_W) AM_NOT_USED AM_NOT_USED (Some STR ''lldt''),
    plain_opcode 0 IT_GENERIC (AM_E OR OT_W) AM_NOT_USED AM_NOT_USED (Some STR ''ltr''),
    plain_opcode 0 IT_GENERIC (AM_E OR OT_W) AM_NOT_USED AM_NOT_USED (Some STR ''verr''),
    plain_opcode 0 IT_GENERIC (AM_E OR OT_W) AM_NOT_USED AM_NOT_USED (Some STR ''verw''),
    plain_opcode 0 IT_UNUSED AM_NOT_USED AM_NOT_USED AM_NOT_USED None,
    plain_opcode 0 IT_UNUSED AM_NOT_USED AM_NOT_USED AM_NOT_USED None]"

definition s_opcode_byte_after_0f01 :: "opcode list" where
  "s_opcode_byte_after_0f01 = [
    plain_opcode 0 IT_GENERIC (AM_M OR OT_S) AM_NOT_USED AM_NOT_USED (Some STR ''sgdt''),
    plain_opcode 0 IT_GENERIC (AM_M OR OT_S) AM_NOT_USED AM_NOT_USED (Some STR ''sidt''),
    plain_opcode 0 IT_GENERIC (AM_M OR OT_S) AM_NOT_USED AM_NOT_USED (Some STR ''lgdt''),
    plain_opcode 0 IT_GENERIC (AM_M OR OT_S) AM_NOT_USED AM_NOT_USED (Some STR ''lidt''),
    plain_opcode 0 IT_GENERIC (AM_E OR OT_W) AM_NOT_USED AM_NOT_USED (Some STR ''smsw''),
    plain_opcode 0 IT_UNUSED AM_NOT_USED AM_NOT_USED AM_NOT_USED None,
    plain_opcode 0 IT_GENERIC (AM_E OR OT_W) AM_NOT_USED AM_NOT_USED (Some STR ''lmsw''),
    plain_opcode 0 IT_GENERIC (AM_M OR OT_B) AM_NOT_USED AM_NOT_USED (Some STR ''invlpg'')]"

definition s_opcode_byte_after_0f18 :: "opcode list" where
  "s_opcode_byte_after_0f18 = [
    plain_opcode 0 IT_GENERIC (AM_M OR OT_ADDRESS_MODE_M) AM_NOT_USED AM_NOT_USED (Some STR ''prefetch''),
    plain_opcode 0 IT_GENERIC (AM_REGISTER OR OT_D) AM_NOT_USED AM_NOT_USED (Some STR ''prefetch''),
    plain_opcode 0 IT_GENERIC (AM_REGISTER OR OT_D) AM_NOT_USED AM_NOT_USED (Some STR ''prefetch''),
    plain_opcode 0 IT_GENERIC (AM_REGISTER OR OT_D) AM_NOT_USED AM_NOT_USED (Some STR ''prefetch''),
    plain_opcode 0 IT_UNUSED AM_NOT_USED AM_NOT_USED AM_NOT_USED None,
    plain_opcode 0 IT_UNUSED AM_NOT_USED AM_NOT_USED AM_NOT_USED None,
    plain_opcode 0 IT_UNUSED AM_NOT_USED AM_NOT_USED AM_NOT_USED None,
    plain_opcode 0 IT_UNUSED AM_NOT_USED AM_NOT_USED AM_NOT_USED None]"

definition s_opcode_byte_after_0f71 :: "opcode list" where
  "s_opcode_byte_after_0f71 = [
    plain_opcode 0 IT_UNUSED AM_NOT_USED AM_NOT_USED AM_NOT_USED None,
    plain_opcode 0 IT_UNUSED AM_NOT_USED AM_NOT_USED AM_NOT_USED None,
    Opcode (SpecificOpcode 0 IT_GENERIC (AM_P OR OT_Q) (AM_I OR OT_B) AM_NOT_USED (Some STR ''psrlw'')) True no_opcode no_opcode (SpecificOpcode 0 IT_GENERIC (AM_P OR OT_DQ) (AM_I OR OT_B) AM_NOT_USED (Some STR ''psrlw'')),
    plain_opcode 0 IT_UNUSED AM_NOT_USED AM_NOT_USED AM_NOT_USED None,
    Opcode (SpecificOpcode 0 IT_GENERIC (AM_P OR OT_Q) (AM_I OR OT_B) AM_NOT_USED (Some STR ''psraw'')) True no_opcode no_opcode (SpecificOpcode 0 IT_GENERIC (AM_P OR OT_DQ) (AM_I OR OT_B) AM_NOT_USED (Some STR ''psraw'')),
    plain_opcode 0 IT_UNUSED AM_NOT_USED AM_NOT_USED AM_NOT_USED None,
    Opcode (SpecificOpcode 0 IT_GENERIC (AM_P OR OT_Q) (AM_I OR OT_B) AM_NOT_USED (Some STR ''psllw'')) True no_opcode no_opcode (SpecificOpcode 0 IT_GENERIC (AM_P OR OT_DQ) (AM_I OR OT_B) AM_NOT_USED (Some STR ''psllw'')),
    plain_opcode 0 IT_UNUSED AM_NOT_USED AM_NOT_USED AM_NOT_USED None]"

definition s_opcode_byte_after_0f72 :: "opcode list" where
  "s_opcode_byte_after_0f72 = [
    plain_opcode 0 IT_UNUSED AM_NOT_USED AM_NOT_USED AM_NOT_USED None,
    plain_opcode 0 IT_UNUSED AM_NOT_USED AM_NOT_USED AM_NOT_USED None,
    Opcode (SpecificOpcode 0 IT_GENERIC (AM_P OR OT_Q) (AM_I OR OT_B) AM_NOT_USED (Some STR ''psrld'')) True no_opcode no_opcode (SpecificOpcode 0 IT_GENERIC (AM_W OR OT_DQ) (AM_I OR OT_B) AM_NOT_USED (Some STR ''psrld'')),
    plain_opcode 0 IT_UNUSED AM_NOT_USED AM_NOT_USED AM_NOT_USED None,
    Opcode (SpecificOpcode 0 IT_GENERIC (AM_P OR OT_Q) (AM_I OR OT_B) AM_NOT_USED (Some STR ''psrad'')) True no_opcode no_opcode (SpecificOpcode 0 IT_GENERIC (AM_W OR OT_DQ) (AM_I OR OT_B) AM_NOT_USED (Some STR ''psrad'')),
    plain_opcode 0 IT_UNUSED AM_NOT_USED AM_NOT_USED AM_NOT_USED None,
    Opcode (SpecificOpcode 0 IT_GENERIC (AM_P OR OT_Q) (AM_I OR OT_B) AM_NOT_USED (Some STR ''pslld'')) True no_opcode no_opcode (SpecificOpcode 0 IT_GENERIC (AM_W OR OT_DQ) (AM_I OR OT_B) AM_NOT_USED (Some STR ''pslld'')),
    plain_opcode 0 IT_UNUSED AM_NOT_USED AM_NOT_USED AM_NOT_USED None]"

definition s_opcode_byte_after_0f73 :: "opcode list" where
  "s_opcode_byte_after_0f73 = [
    plain_opcode 0 IT_UNUSED AM_NOT_USED AM_NOT_USED AM_NOT_USED None,
    plain_opcode 0 IT_UNUSED AM_NOT_USED AM_NOT_USED AM_NOT_USED None,
    Opcode (SpecificOpcode 0 IT_GENERIC (AM_P OR OT_Q) (AM_I OR OT_B) AM_NOT_USED (Some STR ''psrlq'')) True no_opcode no_opcode (SpecificOpcode 0 IT_GENERIC (AM_W OR OT_DQ) (AM_I OR OT_B) AM_NOT_USED (Some STR ''psrlq'')),
    plain_opcode 0 IT_UNUSED AM_NOT_USED AM_NOT_USED AM_NOT_USED None,
    plain_opcode 0 IT_UNUSED AM_NOT_USED AM_NOT_USED AM_NOT_USED None,
    plain_opcode 0 IT_UNUSED AM_NOT_USED AM_NOT_USED AM_NOT_USED None,
    Opcode (SpecificOpcode 0 IT_GENERIC (AM_P OR OT_Q) (AM_I OR OT_B) AM_NOT_USED (Some STR ''psllq'')) True no_opcode no_opcode (SpecificOpcode 0 IT_GENERIC (AM_W OR OT_DQ) (AM_I OR OT_B) AM_NOT_USED (Some STR ''psllq'')),
    Opcode (SpecificOpcode 0 IT_GENERIC (AM_W OR OT_DQ) (AM_I OR OT_B) AM_NOT_USED (Some STR ''pslldq'')) True no_opcode no_opcode (SpecificOpcode 0 IT_GENERIC (AM_W OR OT_DQ) (AM_I OR OT_B) AM_NOT_USED (Some STR ''pslldq''))]"

definition s_opcode_byte_after_0fae :: "opcode list" where
  "s_opcode_byte_after_0fae = [
    plain_opcode 0 IT_GENERIC AM_NOT_USED AM_NOT_USED AM_NOT_USED (Some STR ''fxsave''),
    plain_opcode 0 IT_GENERIC AM_NOT_USED AM_NOT_USED AM_NOT_USED (Some STR ''fxrstor''),
    plain_opcode 0 IT_GENERIC AM_NOT_USED AM_NOT_USED AM_NOT_USED (Some STR ''ldmxcsr''),
    plain_opcode 0 IT_GENERIC AM_NOT_USED AM_NOT_USED AM_NOT_USED (Some STR ''stmxcsr''),
    plain_opcode 0 IT_UNUSED AM_NOT_USED AM_NOT_USED AM_NOT_USED None,
    plain_opcode 0 IT_GENERIC AM_NOT_USED AM_NOT_USED AM_NOT_USED (Some STR ''lfence''),
    plain_opcode 0 IT_GENERIC AM_NOT_USED AM_NOT_USED AM_NOT_USED (Some STR ''mfence''),
    plain_opcode 0 IT_GENERIC AM_NOT_USED AM_NOT_USED AM_NOT_USED (Some STR ''clflush/sfence'')]"

definition s_opcode_byte_after_0fba :: "opcode list" where
  "s_opcode_byte_after_0fba = [
    plain_opcode 0 IT_UNUSED AM_NOT_USED AM_NOT_USED AM_NOT_USED None,
    plain_opcode 0 IT_UNUSED AM_NOT_USED AM_NOT_USED AM_NOT_USED None,
    plain_opcode 0 IT_UNUSED AM_NOT_USED AM_NOT_USED AM_NOT_USED None,
    plain_opcode 0 IT_UNUSED AM_NOT_USED AM_NOT_USED AM_NOT_USED None,
    plain_opcode 0 IT_GENERIC (AM_E OR OT_V) (AM_I OR OT_B) AM_NOT_USED (Some STR ''bt''),
    plain_opcode 0 IT_GENERIC (AM_E OR OT_V) (AM_I OR OT_B) AM_NOT_USED (Some STR ''bts''),
    plain_opcode 0 IT_GENERIC (AM_E OR OT_V) (AM_I OR OT_B) AM_NOT_USED (Some STR ''btr''),
    plain_opcode 0 IT_GENERIC (AM_E OR OT_V) (AM_I OR OT_B) AM_NOT_USED (Some STR ''btc'')]"

definition s_opcode_byte_after_0fc7 :: "opcode list" where
  "s_opcode_byte_after_0fc7 = [
    plain_opcode 0 IT_UNUSED AM_NOT_USED AM_NOT_USED AM_NOT_USED None,
    plain_opcode 0 IT_GENERIC (AM_M OR OT_Q) AM_NOT_USED AM_NOT_USED (Some STR ''cmpxch8b'')]"

definition s_opcode_byte_after_80 :: "opcode list" where
  "s_opcode_byte_after_80 = [
    plain_opcode 0 IT_GENERIC (AM_E OR OT_B) (AM_I OR OT_B) AM_NOT_USED (Some STR ''add''),
    plain_opcode 0 IT_GENERIC (AM_E OR OT_B) (AM_I OR OT_B) AM_NOT_USED (Some STR ''or''),
    plain_opcode 0 IT_GENERIC (AM_E OR OT_B) (AM_I OR OT_B) AM_NOT_USED (Some STR ''adc''),
    plain_opcode 0 IT_GENERIC (AM_E OR OT_B) (AM_I OR OT_B) AM_NOT_USED (Some STR ''sbb''),
    plain_opcode 0 IT_GENERIC (AM_E OR OT_B) (AM_I OR OT_B) AM_NOT_USED (Some STR ''and''),
    plain_opcode 0 IT_GENERIC (AM_E OR OT_B) (AM_I OR OT_B) AM_NOT_USED (Some STR ''sub''),
    plain_opcode 0 IT_GENERIC (AM_E OR OT_B) (AM_I OR OT_B) AM_NOT_USED (Some STR ''xor''),
    plain_opcode 0 IT_GENERIC (AM_E OR OT_B) (AM_I OR OT_B) AM_NOT_USED (Some STR ''cmp'')]"

definition s_opcode_byte_after_81 :: "opcode list" where
  "s_opcode_byte_after_81 = [
    plain_opcode 0 IT_GENERIC (AM_E OR OT_V) (AM_I OR OT_V) AM_NOT_USED (Some STR ''add''),
    plain_opcode 0 IT_GENERIC (AM_E OR OT_V) (AM_I OR OT_V) AM_NOT_USED (Some STR ''or''),
    plain_opcode 0 IT_GENERIC (AM_E OR OT_V) (AM_I OR OT_V) AM_NOT_USED (Some STR ''adc''),
    plain_opcode 0 IT_GENERIC (AM_E OR OT_V) (AM_I OR OT_V) AM_NOT_USED (Some STR ''sbb''),
    plain_opcode 0 IT_GENERIC (AM_E OR OT_V) (AM_I OR OT_V) AM_NOT_USED (Some STR ''and''),
    plain_opcode 0 IT_GENERIC (AM_E OR OT_V) (AM_I OR OT_V) AM_NOT_USED (Some STR ''sub''),
    plain_opcode 0 IT_GENERIC (AM_E OR OT_V) (AM_I OR OT_V) AM_NOT_USED (Some STR ''xor''),
    plain_opcode 0 IT_GENERIC (AM_E OR OT_V) (AM_I OR OT_V) AM_NOT_USED (Some STR ''cmp'')]"

definition s_opcode_byte_after_82 :: "opcode list" where
  "s_opcode_byte_after_82 = [
    plain_opcode 0 IT_GENERIC (AM_E OR OT_V) (AM_I OR OT_B) AM_NOT_USED (Some STR ''add''),
    plain_opcode 0 IT_GENERIC (AM_E OR OT_V) (AM_I OR OT_B) AM_NOT_USED (Some STR ''or''),
    plain_opcode 0 IT_GENERIC (AM_E OR OT_V) (AM_I OR OT_B) AM_NOT_USED (Some STR ''adc''),
    plain_opcode 0 IT_GENERIC (AM_E OR OT_V) (AM_I OR OT_B) AM_NOT_USED (Some STR ''sbb''),
    plain_opcode 0 IT_GENERIC (AM_E OR OT_V) (AM_I OR OT_B) AM_NOT_USED (Some STR ''and''),
    plain_opcode 0 IT_GENERIC (AM_E OR OT_V) (AM_I OR OT_B) AM_NOT_USED (Some STR ''sub''),
    plain_opcode 0 IT_GENERIC (AM_E OR OT_V) (AM_I OR OT_B) AM_NOT_USED (Some STR ''xor''),
    plain_opcode 0 IT_GENERIC (AM_E OR OT_V) (AM_I OR OT_B) AM_NOT_USED (Some STR ''cmp'')]"

definition s_opcode_byte_after_83 :: "opcode list" where
  "s_opcode_byte_after_83 = [
    plain_opcode 0 IT_GENERIC (AM_E OR OT_V) (AM_I OR OT_B) AM_NOT_USED (Some STR ''add''),
    plain_opcode 0 IT_GENERIC (AM_E OR OT_V) (AM_I OR OT_B) AM_NOT_USED (Some STR ''or''),
    plain_opcode 0 IT_GENERIC (AM_E OR OT_V) (AM_I OR OT_B) AM_NOT_USED (Some STR ''adc''),
    plain_opcode 0 IT_GENERIC (AM_E OR OT_V) (AM_I OR OT_B) AM_NOT_USED (Some STR ''sbb''),
    plain_opcode 0 IT_GENERIC (AM_E OR OT_V) (AM_I OR OT_B) AM_NOT_USED (Some STR ''and''),
    plain_opcode 0 IT_GENERIC (AM_E OR OT_V) (AM_I OR OT_B) AM_NOT_USED (Some STR ''sub''),
    plain_opcode 0 IT_GENERIC (AM_E OR OT_V) (AM_I OR OT_B) AM_NOT_USED (Some STR ''xor''),
    plain_opcode 0 IT_GENERIC (AM_E OR OT_V) (AM_I OR OT_B) AM_NOT_USED (Some STR ''cmp'')]"

definition s_opcode_byte_after_c0 :: "opcode list" where
  "s_opcode_byte_after_c0 = [
    plain_opcode 0 IT_GENERIC (AM_E OR OT_B) (AM_I OR OT_B) AM_NOT_USED (Some STR ''rol''),
    plain_opcode 0 IT_GENERIC (AM_E OR OT_B) (AM_I OR OT_B) AM_NOT_USED (Some STR ''ror''),
    plain_opcode 0 IT_GENERIC (AM_E OR OT_B) (AM_I OR OT_B) AM_NOT_USED (Some STR ''rcl''),
    plain_opcode 0 IT_GENERIC (AM_E OR OT_B) (AM_I OR OT_B) AM_NOT_USED (Some STR ''rcr''),
    plain_opcode 0 IT_GENERIC (AM_E OR OT_B) (AM_I OR OT_B) AM_NOT_USED (Some STR ''shl''),
    plain_opcode 0 IT_GENERIC (AM_E OR OT_B) (AM_I OR OT_B) AM_NOT_USED (Some STR ''shr''),
    plain_opcode 0 IT_GENERIC (AM_E OR OT_B) (AM_I OR OT_B) AM_NOT_USED (Some STR ''sal''),
    plain_opcode 0 IT_GENERIC (AM_E OR OT_B) (AM_I OR OT_B) AM_NOT_USED (Some STR ''sar'')]"

definition s_opcode_byte_after_c1 :: "opcode list" where
  "s_opcode_byte_after_c1 = [
    plain_opcode 0 IT_GENERIC (AM_E OR OT_V) (AM_I OR OT_B) AM_NOT_USED (Some STR ''rol''),
    plain_opcode 0 IT_GENERIC (AM_E OR OT_V) (AM_I OR OT_B) AM_NOT_USED (Some STR ''ror''),
    plain_opcode 0 IT_GENERIC (AM_E OR OT_V) (AM_I OR OT_B) AM_NOT_USED (Some STR ''rcl''),
    plain_opcode 0 IT_GENERIC (AM_E OR OT_V) (AM_I OR OT_B) AM_NOT_USED (Some STR ''rcr''),
    plain_opcode 0 IT_GENERIC (AM_E OR OT_V) (AM_I OR OT_B) AM_NOT_USED (Some STR ''shl''),
    plain_opcode 0 IT_GENERIC (AM_E OR OT_V) (AM_I OR OT_B) AM_NOT_USED (Some STR ''shr''),
    plain_opcode 0 IT_GENERIC (AM_E OR OT_V) (AM_I OR OT_B) AM_NOT_USED (Some STR ''sal''),
    plain_opcode 0 IT_GENERIC (AM_E OR OT_V) (AM_I OR OT_B) AM_NOT_USED (Some STR ''sar'')]"

definition s_opcode_byte_after_d0 :: "opcode list" where
  "s_opcode_byte_after_d0 = [
    plain_opcode 0 IT_GENERIC (AM_E OR OT_B) AM_IMPLICIT AM_NOT_USED (Some STR ''rol''),
    plain_opcode 0 IT_GENERIC (AM_E OR OT_B) AM_IMPLICIT AM_NOT_USED (Some STR ''ror''),
    plain_opcode 0 IT_GENERIC (AM_E OR OT_B) AM_IMPLICIT AM_NOT_USED (Some STR ''rcl''),
    plain_opcode 0 IT_GENERIC (AM_E OR OT_B) AM_IMPLICIT AM_NOT_USED (Some STR ''rcr''),
    plain_opcode 0 IT_GENERIC (AM_E OR OT_B) AM_IMPLICIT AM_NOT_USED (Some STR ''shl''),
    plain_opcode 0 IT_GENERIC (AM_E OR OT_B) AM_IMPLICIT AM_NOT_USED (Some STR ''shr''),
    plain_opcode 0 IT_GENERIC (AM_E OR OT_B) AM_IMPLICIT AM_NOT_USED (Some STR ''sal''),
    plain_opcode 0 IT_GENERIC (AM_E OR OT_B) AM_IMPLICIT AM_NOT_USED (Some STR ''sar'')]"

definition s_opcode_byte_after_d1 :: "opcode list" where
  "s_opcode_byte_after_d1 = [
    plain_opcode 0 IT_GENERIC (AM_E OR OT_V) AM_IMPLICIT AM_NOT_USED (Some STR ''rol''),
    plain_opcode 0 IT_GENERIC (AM_E OR OT_V) AM_IMPLICIT AM_NOT_USED (Some STR ''ror''),
    plain_opcode 0 IT_GENERIC (AM_E OR OT_V) AM_IMPLICIT AM_NOT_USED (Some STR ''rcl''),
    plain_opcode 0 IT_GENERIC (AM_E OR OT_V) AM_IMPLICIT AM_NOT_USED (Some STR ''rcr''),
    plain_opcode 0 IT_GENERIC (AM_E OR OT_V) AM_IMPLICIT AM_NOT_USED (Some STR ''shl''),
    plain_opcode 0 IT_GENERIC (AM_E OR OT_V) AM_IMPLICIT AM_NOT_USED (Some STR ''shr''),
    plain_opcode 0 IT_GENERIC (AM_E OR OT_V) AM_IMPLICIT AM_NOT_USED (Some STR ''sal''),
    plain_opcode 0 IT_GENERIC (AM_E OR OT_V) AM_IMPLICIT AM_NOT_USED (Some STR ''sar'')]"

definition s_opcode_byte_after_d2 :: "opcode list" where
  "s_opcode_byte_after_d2 = [
    plain_opcode 0 IT_GENERIC (AM_E OR OT_B) (AM_REGISTER OR OT_B) AM_NOT_USED (Some STR ''rol''),
    plain_opcode 0 IT_GENERIC (AM_E OR OT_B) (AM_REGISTER OR OT_B) AM_NOT_USED (Some STR ''ror''),
    plain_opcode 0 IT_GENERIC (AM_E OR OT_B) (AM_REGISTER OR OT_B) AM_NOT_USED (Some STR ''rcl''),
    plain_opcode 0 IT_GENERIC (AM_E OR OT_B) (AM_REGISTER OR OT_B) AM_NOT_USED (Some STR ''rcr''),
    plain_opcode 0 IT_GENERIC (AM_E OR OT_B) (AM_REGISTER OR OT_B) AM_NOT_USED (Some STR ''shl''),
    plain_opcode 0 IT_GENERIC (AM_E OR OT_B) (AM_REGISTER OR OT_B) AM_NOT_USED (Some STR ''shr''),
    plain_opcode 0 IT_GENERIC (AM_E OR OT_B) (AM_REGISTER OR OT_B) AM_NOT_USED (Some STR ''sal''),
    plain_opcode 0 IT_GENERIC (AM_E OR OT_B) (AM_REGISTER OR OT_B) AM_NOT_USED (Some STR ''sar'')]"

definition s_opcode_byte_after_d3 :: "opcode list" where
  "s_opcode_byte_after_d3 = [
    plain_opcode 0 IT_GENERIC (AM_E OR OT_V) (AM_REGISTER OR OT_B) AM_NOT_USED (Some STR ''rol''),
    plain_opcode 0 IT_GENERIC (AM_E OR OT_V) (AM_REGISTER OR OT_B) AM_NOT_USED (Some STR ''ror''),
    plain_opcode 0 IT_GENERIC (AM_E OR OT_V) (AM_REGISTER OR OT_B) AM_NOT_USED (Some STR ''rcl''),
    plain_opcode 0 IT_GENERIC (AM_E OR OT_V) (AM_REGISTER OR OT_B) AM_NOT_USED (Some STR ''rcr''),
    plain_opcode 0 IT_GENERIC (AM_E OR OT_V) (AM_REGISTER OR OT_B) AM_NOT_USED (Some STR ''shl''),
    plain_opcode 0 IT_GENERIC (AM_E OR OT_V) (AM_REGISTER OR OT_B) AM_NOT_USED (Some STR ''shr''),
    plain_opcode 0 IT_GENERIC (AM_E OR OT_V) (AM_REGISTER OR OT_B) AM_NOT_USED (Some STR ''sal''),
    plain_opcode 0 IT_GENERIC (AM_E OR OT_V) (AM_REGISTER OR OT_B) AM_NOT_USED (Some STR ''sar'')]"

definition s_opcode_byte_after_f6 :: "opcode list" where
  "s_opcode_byte_after_f6 = [
    plain_opcode 0 IT_GENERIC (AM_E OR OT_B) (AM_I OR OT_B) AM_NOT_USED (Some STR ''test''),
    plain_opcode 0 IT_GENERIC (AM_E OR OT_B) (AM_I OR OT_B) AM_NOT_USED (Some STR ''test''),
    plain_opcode 0 IT_GENERIC (AM_E OR OT_B) AM_NOT_USED AM_NOT_USED (Some STR ''not''),
    plain_opcode 0 IT_GENERIC (AM_E OR OT_B) AM_NOT_USED AM_NOT_USED (Some STR ''neg''),
    plain_opcode 0 IT_GENERIC (OT_B OR AM_REGISTER) (AM_E OR OT_B) AM_NOT_USED (Some STR ''mul''),
    plain_opcode 0 IT_GENERIC (OT_B OR AM_REGISTER) (AM_E OR OT_B) AM_NOT_USED (Some STR ''imul''),
    plain_opcode 0 IT_GENERIC (AM_REGISTER OR OT_B) (AM_E OR OT_B) AM_NOT_USED (Some STR ''div''),
    plain_opcode 0 IT_GENERIC (AM_REGISTER OR OT_B) (AM_E OR OT_B) AM_NOT_USED (Some STR ''idiv'')]"

definition s_opcode_byte_after_f7 :: "opcode list" where
  "s_opcode_byte_after_f7 = [
    plain_opcode 0 IT_GENERIC (AM_E OR OT_V) (AM_I OR OT_V) AM_NOT_USED (Some STR ''test''),
    plain_opcode 0 IT_GENERIC (AM_E OR OT_V) (AM_I OR OT_V) AM_NOT_USED (Some STR ''test''),
    plain_opcode 0 IT_GENERIC (AM_E OR OT_V) AM_NOT_USED AM_NOT_USED (Some STR ''not''),
    plain_opcode 0 IT_GENERIC (AM_E OR OT_V) AM_NOT_USED AM_NOT_USED (Some STR ''neg''),
    plain_opcode 0 IT_GENERIC (AM_REGISTER OR OT_V) (AM_E OR OT_V) AM_NOT_USED (Some STR ''mul''),
    plain_opcode 0 IT_GENERIC (AM_REGISTER OR OT_V) (AM_E OR OT_V) AM_NOT_USED (Some STR ''imul''),
    plain_opcode 0 IT_GENERIC (AM_REGISTER OR OT_V) (AM_E OR OT_V) AM_NOT_USED (Some STR ''div''),
    plain_opcode 0 IT_GENERIC (AM_REGISTER OR OT_V) (AM_E OR OT_V) AM_NOT_USED (Some STR ''idiv'')]"

definition s_opcode_byte_after_fe :: "opcode list" where
  "s_opcode_byte_after_fe = [
    plain_opcode 0 IT_GENERIC (AM_E OR OT_B) AM_NOT_USED AM_NOT_USED (Some STR ''inc''),
    plain_opcode 0 IT_GENERIC (AM_E OR OT_B) AM_NOT_USED AM_NOT_USED (Some STR ''dec'')]"

definition s_opcode_byte_after_ff :: "opcode list" where
  "s_opcode_byte_after_ff = [
    plain_opcode 0 IT_GENERIC (AM_E OR OT_V) AM_NOT_USED AM_NOT_USED (Some STR ''inc''),
    plain_opcode 0 IT_GENERIC (AM_E OR OT_V) AM_NOT_USED AM_NOT_USED (Some STR ''dec''),
    plain_opcode 0 IT_JUMP (AM_E OR OT_V) AM_NOT_USED AM_NOT_USED (Some STR ''call''),
    plain_opcode 0 IT_JUMP (AM_E OR OT_P) AM_NOT_USED AM_NOT_USED (Some STR ''call''),
    plain_opcode 0 IT_JUMP (AM_E OR OT_V) AM_NOT_USED AM_NOT_USED (Some STR ''jmp''),
    plain_opcode 0 IT_JUMP (AM_E OR OT_P) AM_NOT_USED AM_NOT_USED (Some STR ''jmp''),
    plain_opcode 0 IT_GENERIC (AM_E OR OT_V) AM_NOT_USED AM_NOT_USED (Some STR ''push''),
    plain_opcode 0 IT_UNUSED AM_NOT_USED AM_NOT_USED AM_NOT_USED None]"

definition s_ia32_opcode_map :: "bool \<Rightarrow> opcode_table list" where
  "s_ia32_opcode_map x64 = [
    OpcodeTable (s_first_opcode_byte x64) 0 255 0 255,
    OpcodeTable s_opcode_byte_after_0f 0 255 0 255,
    OpcodeTable s_opcode_byte_after_80 3 7 0 7,
    OpcodeTable s_opcode_byte_after_81 3 7 0 7,
    OpcodeTable s_opcode_byte_after_82 3 7 0 7,
    OpcodeTable s_opcode_byte_after_83 3 7 0 7,
    OpcodeTable s_opcode_byte_after_c0 3 7 0 7,
    OpcodeTable s_opcode_byte_after_c1 3 7 0 7,
    OpcodeTable s_opcode_byte_after_d0 3 7 0 7,
    OpcodeTable s_opcode_byte_after_d1 3 7 0 7,
    OpcodeTable s_opcode_byte_after_d2 3 7 0 7,
    OpcodeTable s_opcode_byte_after_d3 3 7 0 7,
    OpcodeTable s_opcode_byte_after_f6 3 7 0 7,
    OpcodeTable s_opcode_byte_after_f7 3 7 0 7,
    OpcodeTable s_opcode_byte_after_fe 3 7 0 1,
    OpcodeTable s_opcode_byte_after_ff 3 7 0 7,
    OpcodeTable s_opcode_byte_after_0f00 3 7 0 7,
    OpcodeTable s_opcode_byte_after_0f01 3 7 0 7,
    OpcodeTable s_opcode_byte_after_0f18 3 7 0 7,
    OpcodeTable s_opcode_byte_after_0f71 3 7 0 7,
    OpcodeTable s_opcode_byte_after_0f72 3 7 0 7,
    OpcodeTable s_opcode_byte_after_0f73 3 7 0 7,
    OpcodeTable s_opcode_byte_after_0fae 3 7 0 7,
    OpcodeTable s_opcode_byte_after_0fba 3 7 0 7,
    OpcodeTable s_opcode_byte_after_0fc7 3 7 0 1]"

definition s_ia16_modrm_map :: "modrm_entry list" where
  "s_ia16_modrm_map = [
    ModrmEntry False False OS_ZERO,
    ModrmEntry False False OS_ZERO,
    ModrmEntry False False OS_ZERO,
    ModrmEntry False False OS_ZERO,
    ModrmEntry False False OS_ZERO,
    ModrmEntry False False OS_ZERO,
    ModrmEntry True False OS_WORD,
    ModrmEntry False False OS_ZERO,
    ModrmEntry True False OS_BYTE,
    ModrmEntry True False OS_BYTE,
    ModrmEntry True False OS_BYTE,
    ModrmEntry True False OS_BYTE,
    ModrmEntry True False OS_BYTE,
    ModrmEntry True False OS_BYTE,
    ModrmEntry True False OS_BYTE,
    ModrmEntry True False OS_BYTE,
    ModrmEntry True False OS_WORD,
    ModrmEntry True False OS_WORD,
    ModrmEntry True False OS_WORD,
    ModrmEntry True False OS_WORD,
    ModrmEntry True False OS_WORD,
    ModrmEntry True False OS_WORD,
    ModrmEntry True False OS_WORD,
    ModrmEntry True False OS_WORD,
    ModrmEntry False False OS_ZERO,
    ModrmEntry False False OS_ZERO,
    ModrmEntry False False OS_ZERO,
    ModrmEntry False False OS_ZERO,
    ModrmEntry False False OS_ZERO,
    ModrmEntry False False OS_ZERO,
    ModrmEntry False False OS_ZERO,
    ModrmEntry False False OS_ZERO]"

definition s_ia32_modrm_map :: "modrm_entry list" where
  "s_ia32_modrm_map = [
    ModrmEntry False False OS_ZERO,
    ModrmEntry False False OS_ZERO,
    ModrmEntry False False OS_ZERO,
    ModrmEntry False False OS_ZERO,
    ModrmEntry False True OS_ZERO,
    ModrmEntry True False OS_DOUBLE_WORD,
    ModrmEntry False False OS_ZERO,
    ModrmEntry False False OS_ZERO,
    ModrmEntry True False OS_BYTE,
    ModrmEntry True False OS_BYTE,
    ModrmEntry True False OS_BYTE,
    ModrmEntry True False OS_BYTE,
    ModrmEntry True True OS_BYTE,
    ModrmEntry True False OS_BYTE,
    ModrmEntry True False OS_BYTE,
    ModrmEntry True False OS_BYTE,
    ModrmEntry True False OS_DOUBLE_WORD,
    ModrmEntry True False OS_DOUBLE_WORD,
    ModrmEntry True False OS_DOUBLE_WORD,
    ModrmEntry True False OS_DOUBLE_WORD,
    ModrmEntry True True OS_DOUBLE_WORD,
    ModrmEntry True False OS_DOUBLE_WORD,
    ModrmEntry True False OS_DOUBLE_WORD,
    ModrmEntry True False OS_DOUBLE_WORD,
    ModrmEntry False False OS_ZERO,
    ModrmEntry False False OS_ZERO,
    ModrmEntry False False OS_ZERO,
    ModrmEntry False False OS_ZERO,
    ModrmEntry False False OS_ZERO,
    ModrmEntry False False OS_ZERO,
    ModrmEntry False False OS_ZERO,
    ModrmEntry False False OS_ZERO]"

end
