(* ===== verification/DisasmInv.thy ===== *)
theory DisasmInv
  imports Disassembler
begin

text \<open>
  What the disassembler of \<open>Disassembler\<close> guarantees, for both values of \<^verbatim>\<open>_M_X64\<close>.

  The predicate \<open>table_ok\<close> is the well-formedness of one opcode table; it is evaluated on every entry of the source's
  tables.  From it follow the bounds of \<open>ProcessOpcode\<close> and \<open>Disassemble\<close>: no access outside of a table, at most four
  bytes read after the prefixes, and a length between one and sixteen bytes more than the prefixes.  The last sections
  show that a disassembler can be used again, that the result depends on the bytes of the instruction only, and how
  the displacements compare with the tables of the IA-32 manual.
\<close>

unbundle bit_operations_syntax

section \<open>The tables\<close>

text \<open>The largest number of bytes an operand can take, whatever the operand size is.\<close>

definition operand_max :: "int \<Rightarrow> nat" where
  "operand_max f =
     (if f = AM_NOT_USED \<or> f AND AM_MASK \<notin> {AM_I, AM_J, AM_O} then 0
      else
        let ot = f AND OT_MASK
        in if ot = OT_B then 1
           else if ot = OT_C then 2
           else if ot = OT_D then 4
           else if ot = OT_DQ then 16
           else if ot = OT_P then 6
           else if ot = OT_PS then 16
           else if ot = OT_Q then 8
           else if ot = OT_S then 6
           else if ot = OT_SD \<or> ot = OT_PD then 8
           else if ot = OT_V then (if f AND IOS_64 \<noteq> 0 then 8 else 4)
           else 2)"

definition imm_max :: "specific_opcode \<Rightarrow> nat" where
  "imm_max sp = operand_max (so_flag_dest sp) + operand_max (so_flag_source sp) + operand_max (so_flag_aux sp)"

definition operand_modrm :: "int \<Rightarrow> bool" where
  "operand_modrm f \<longleftrightarrow> f AND AM_MASK \<in> {AM_C, AM_D, AM_G, AM_P, AM_R, AM_S, AM_T, AM_V, AM_E, AM_M, AM_Q, AM_W}"

definition uses_modrm :: "specific_opcode \<Rightarrow> bool" where
  "uses_modrm sp \<longleftrightarrow> operand_modrm (so_flag_dest sp) \<or> operand_modrm (so_flag_source sp) \<or> operand_modrm (so_flag_aux sp)"

definition is_prefix_type :: "InstructionType \<Rightarrow> bool" where
  "is_prefix_type t \<longleftrightarrow> t = IT_PREFIX_ADDRESS \<or> t = IT_PREFIX_OPERAND \<or> t = IT_PREFIX"

definition specific_ok :: "specific_opcode \<Rightarrow> bool" where
  "specific_ok sp \<longleftrightarrow> so_type sp \<in> {IT_UNKNOWN, IT_JUMP, IT_RETURN, IT_GENERIC} \<and>
     imm_max sp \<le> (if uses_modrm sp then 4 else 8)"

definition alternative_ok :: "specific_opcode \<Rightarrow> bool" where
  "alternative_ok sp \<longleftrightarrow> so_mnemonic sp = None \<or> specific_ok sp"

definition opcode_ok :: "nat \<Rightarrow> opcode \<Rightarrow> bool" where
  "opcode_ok t e \<longleftrightarrow>
     (let ty = so_type (op_specific e); i = so_table_index (op_specific e)
      in if ty = IT_UNUSED then True
         else if ty = IT_REFERENCE then t < 2 \<and> (if t = 0 then 1 else 2) \<le> i \<and> i < 25
         else if is_prefix_type ty then t = 0
         else specific_ok (op_specific e) \<and> alternative_ok (op_if_f2_prefix e) \<and> alternative_ok (op_if_f3_prefix e) \<and>
           alternative_ok (op_if_66_prefix e))"

definition table_ok :: "nat \<Rightarrow> opcode_table \<Rightarrow> bool" where
  "table_ok t T \<longleftrightarrow> ot_max_lim T < length (ot_table T) \<and> (2 \<le> t \<longrightarrow> ot_mask T \<noteq> 0xff) \<and> list_all (opcode_ok t) (ot_table T)"

lemmas table_chunks = s_first_opcode_byte_def s_opcode_byte_after_0f_def

lemma first_chunks_ok:
  "list_all (opcode_ok 0) s_first_opcode_byte_00" "list_all (opcode_ok 0) s_first_opcode_byte_30"
  "list_all (opcode_ok 0) s_first_opcode_byte_40_x64" "list_all (opcode_ok 0) s_first_opcode_byte_40_ia32"
  "list_all (opcode_ok 0) s_first_opcode_byte_50" "list_all (opcode_ok 0) s_first_opcode_byte_80"
  "list_all (opcode_ok 0) s_first_opcode_byte_B8_x64" "list_all (opcode_ok 0) s_first_opcode_byte_B8_ia32"
  "list_all (opcode_ok 0) s_first_opcode_byte_C0"
  by code_simp+

lemma after_0f_ok: "list_all (opcode_ok 1) s_opcode_byte_after_0f"
  by code_simp

lemma extension_tables_ok:
  "list_all (\<lambda>(t, T). table_ok t T) (enumerate 2 (drop 2 (s_ia32_opcode_map False)))"
  by code_simp

lemma first_length: "length (s_first_opcode_byte x64) = 256"
  by (cases x64; simp; code_simp)

lemma after_0f_length: "length s_opcode_byte_after_0f = 256"
  by code_simp

lemma first_ok: "list_all (opcode_ok 0) (s_first_opcode_byte x64)"
  by (simp add: table_chunks first_chunks_ok)

lemma opcode_map_shape:
  "s_ia32_opcode_map x64 = OpcodeTable (s_first_opcode_byte x64) 0 0xff 0 0xff # OpcodeTable s_opcode_byte_after_0f 0 0xff 0 0xff #
     drop 2 (s_ia32_opcode_map False)"
  by (simp add: s_ia32_opcode_map_def)

lemma byte_tables_ok:
  "table_ok 0 (OpcodeTable (s_first_opcode_byte x64) 0 0xff 0 0xff)"
  "table_ok (Suc 0) (OpcodeTable s_opcode_byte_after_0f 0 0xff 0 0xff)"
  using after_0f_ok by (simp_all add: table_ok_def first_ok first_length after_0f_length)

lemma tables_ok: "list_all (\<lambda>(t, T). table_ok t T) (enumerate 0 (s_ia32_opcode_map x64))"
  using extension_tables_ok
  by (subst opcode_map_shape) (simp add: byte_tables_ok numeral_2_eq_2)

lemma map_length: "length (s_ia32_opcode_map x64) = 25"
  by (simp add: s_ia32_opcode_map_def)

lemma modrm_map_length: "length s_ia32_modrm_map = 32" "length s_ia16_modrm_map = 32"
  by (simp_all add: s_ia32_modrm_map_def s_ia16_modrm_map_def)

lemma table_okI: "t < 25 \<Longrightarrow> table_ok t (s_ia32_opcode_map x64 ! t)"
  using tables_ok [of x64] by (auto simp: list_all_length map_length nth_enumerate_eq)


section \<open>Bounds\<close>

lemma immediate_bytes_le:
  assumes "f \<noteq> AM_NOT_USED" "f AND AM_MASK \<in> {AM_I, AM_J, AM_O}"
  shows "immediate_bytes d f \<le> operand_max f"
proof -
  have "OS_BYTE = 1" "OS_WORD = 2" "OS_DOUBLE_WORD = 4" "OS_DOUBLE_QUAD_WORD = 16" "OS_48_BIT_POINTER = 6"
    "OS_32_BIT_POINTER = 4" "OS_128_BIT_PACKED_SINGLE_PRECISION_FLOATING = 16" "OS_QUAD_WORD = 8"
    "OS_PSEUDO_DESCRIPTOR = 6" "OS_DOUBLE_PRECISION_FLOATING = 8"
    by (simp_all add: disasm_consts)
  then show ?thesis
    using assms unfolding immediate_bytes_def operand_max_def Let_def by simp
qed

lemma mask_zero: "AM_NOT_USED AND AM_MASK \<notin> {AM_C, AM_D, AM_G, AM_P, AM_R, AM_S, AM_T, AM_V, AM_E, AM_M, AM_Q, AM_W}"
  by (simp add: disasm_consts)

lemma ProcessOperand_modes:
  "ProcessOperand d f = (if operand_modrm f
     then d\<lparr>have_modrm := True, should_decode_modrm := should_decode_modrm d \<or> f AND AM_MASK \<in> {AM_E, AM_M, AM_Q, AM_W}\<rparr>
     else if f \<noteq> AM_NOT_USED \<and> f AND AM_MASK \<in> {AM_I, AM_J, AM_O}
     then d\<lparr>operand_bytes := operand_bytes d + immediate_bytes d f\<rparr> else d)"
proof (cases "f = AM_NOT_USED")
  case True
  then show ?thesis using mask_zero by (simp add: ProcessOperand_def operand_modrm_def)
next
  case False
  then show ?thesis
    by (simp add: ProcessOperand_def operand_modrm_def Let_def disasm_consts)
qed

lemma ProcessOperand_bounds:
  "operand_bytes (ProcessOperand d f) \<le> operand_bytes d + operand_max f"
  "have_modrm (ProcessOperand d f) \<longleftrightarrow> have_modrm d \<or> operand_modrm f"
  "(should_decode_modrm d \<Longrightarrow> have_modrm d) \<Longrightarrow> should_decode_modrm (ProcessOperand d f) \<Longrightarrow> have_modrm (ProcessOperand d f)"
  using immediate_bytes_le [of f d] by (auto simp: ProcessOperand_modes)

lemma ProcessOperand_keeps [simp]:
  "instruction_type (ProcessOperand d f) = instruction_type d"
  "operand_default_is_32_bits (ProcessOperand d f) = operand_default_is_32_bits d"
  "address_default_is_32_bits (ProcessOperand d f) = address_default_is_32_bits d"
  by (simp_all add: ProcessOperand_modes)

definition ProcessOperands :: "disasm \<Rightarrow> specific_opcode \<Rightarrow> disasm" where
  "ProcessOperands d sp = ProcessOperand (ProcessOperand (ProcessOperand d (so_flag_dest sp)) (so_flag_source sp)) (so_flag_aux sp)"

lemma ProcessOperands_bounds:
  assumes "operand_bytes d = 0" "\<not> have_modrm d"
  shows "operand_bytes (ProcessOperands d sp) \<le> imm_max sp" "have_modrm (ProcessOperands d sp) \<longleftrightarrow> uses_modrm sp"
proof -
  show "operand_bytes (ProcessOperands d sp) \<le> imm_max sp"
    unfolding ProcessOperands_def imm_max_def
    using assms(1) ProcessOperand_bounds(1) [of d "so_flag_dest sp"]
      ProcessOperand_bounds(1) [of "ProcessOperand d (so_flag_dest sp)" "so_flag_source sp"]
      ProcessOperand_bounds(1) [of "ProcessOperand (ProcessOperand d (so_flag_dest sp)) (so_flag_source sp)" "so_flag_aux sp"]
    by linarith
  show "have_modrm (ProcessOperands d sp) \<longleftrightarrow> uses_modrm sp"
    using assms(2) by (simp add: ProcessOperands_def uses_modrm_def ProcessOperand_bounds(2))
qed

lemma modrm_entries:
  "list_all (\<lambda>e. me_operand_size e \<le> 4) s_ia32_modrm_map" "list_all (\<lambda>e. me_operand_size e \<le> 4) s_ia16_modrm_map"
  by (simp_all add: s_ia32_modrm_map_def s_ia16_modrm_map_def disasm_consts)

lemma all_bytes: "list_all P (map (word_of_int :: int \<Rightarrow> byte) [0..255]) \<Longrightarrow> P b"
proof -
  assume P: "list_all P (map (word_of_int :: int \<Rightarrow> byte) [0..255])"
  have "uint b \<in> {0..255}"
    using uint_lt2p [of b] by simp
  then show "P b"
    using P by (auto simp: list_all_iff image_iff dest!: bspec [where x = "uint b"])
qed

lemma modrm_index: "unat (drop_bit 3 (b AND 0xC0) OR (b AND 7) :: byte) = 8 * unat (drop_bit 6 b) + unat (b AND 7)"
  by (rule all_bytes) code_simp

lemma mod_rm_bounds: "unat (drop_bit 6 b :: byte) < 4 \<and> unat (b AND 7 :: byte) < 8"
  by (rule all_bytes) code_simp


lemma ProcessSib_bounds:
  "1 \<le> length bs \<Longrightarrow> wpo (ProcessSib d bs md sz) (\<lambda>(d', k). instruction_type d' = instruction_type d \<and>
     operand_bytes d' \<le> operand_bytes d + 4 \<and> k = sz + 1)"
  by (cases bs) (auto simp: ProcessSib_def disasm_consts)

lemma modrm_entry_size:
  "i < 32 \<Longrightarrow> me_operand_size ((if a then s_ia32_modrm_map else s_ia16_modrm_map) ! i) \<le> 4"
  using modrm_entries modrm_map_length by (auto simp: list_all_length)

definition modrm_entry_of :: "disasm \<Rightarrow> byte \<Rightarrow> modrm_entry" where
  "modrm_entry_of d b = (if address_is_32_bits d then s_ia32_modrm_map else s_ia16_modrm_map) ! (8 * unat (drop_bit 6 b) + unat (b AND 7))"

lemma modrm_entry_of_size: "me_operand_size (modrm_entry_of d b) \<le> 4"
  unfolding modrm_entry_of_def by (rule modrm_entry_size) (use mod_rm_bounds [of b] in linarith)

lemma ProcessModrm_decode:
  assumes "should_decode_modrm d"
  shows "ProcessModrm d (b # bs) sz =
     (let e = modrm_entry_of d b;
          d = (if me_is_encoded_in_instruction e then d\<lparr>operand_bytes := operand_bytes d + me_operand_size e\<rparr> else d)
      in if me_use_sib_byte e then ProcessSib d bs (unat (drop_bit 6 b)) (sz + 1) else Some (d, sz + 1))"
  using assms by (simp only: ProcessModrm_def modrm_entry_of_def modrm_index list.case Let_def simp_thms if_False)

lemma ProcessModrm_bounds:
  assumes "should_decode_modrm d \<Longrightarrow> 2 \<le> length bs"
  shows "wpo (ProcessModrm d bs sz) (\<lambda>(d', k). instruction_type d' = instruction_type d \<and>
     operand_bytes d' \<le> operand_bytes d + 8 \<and> sz + 1 \<le> k \<and> k \<le> sz + 2)"
proof (cases "should_decode_modrm d")
  case False
  then show ?thesis by (simp add: ProcessModrm_def)
next
  case True
  with assms obtain b c bs' where bs: "bs = b # c # bs'"
    by (metis Suc_le_length_iff numeral_2_eq_2)
  show ?thesis
    unfolding bs ProcessModrm_decode [OF True] Let_def
    using modrm_entry_of_size [of d b] by (auto intro!: wpo_conseq [OF ProcessSib_bounds [of "c # bs'"]])
qed

text \<open>The number of bytes an opcode search that starts in a table may read.\<close>

definition opcode_need :: "nat \<Rightarrow> nat" where
  "opcode_need t = (if t = 0 then 4 else if t = 1 then 3 else 2)"

definition is_prefix_byte :: "bool \<Rightarrow> byte \<Rightarrow> bool" where
  "is_prefix_byte x64 b \<longleftrightarrow> is_prefix_type (so_type (op_specific (s_first_opcode_byte x64 ! unat b)))"

lemma first_table_lookup:
  "ot_table (s_ia32_opcode_map x64 ! 0) ! (drop_bit (ot_shift (s_ia32_opcode_map x64 ! 0)) (unat (b :: byte)) AND
     ot_mask (s_ia32_opcode_map x64 ! 0)) = s_first_opcode_byte x64 ! unat b"
proof -
  have "unat b AND 255 = take_bit 8 (unat b)"
    by (simp add: take_bit_eq_mask mask_eq_exp_minus_1)
  also have "\<dots> = unat b"
    using unsigned_less [of b] by (simp add: take_bit_nat_eq_self_iff)
  finally show ?thesis by (simp add: s_ia32_opcode_map_def)
qed

lemma select_opcode_ok:
  assumes "opcode_ok t e" "so_type (op_specific e) \<notin> {IT_UNUSED, IT_REFERENCE}" "\<not> is_prefix_type (so_type (op_specific e))"
  shows "specific_ok (select_opcode d e)"
  using assms by (auto simp: opcode_ok_def select_opcode_def alternative_ok_def)

definition opcode_result :: "nat \<Rightarrow> nat \<Rightarrow> disasm \<times> nat \<Rightarrow> bool" where
  "opcode_result t sz = (\<lambda>(d, k). instruction_type d \<in> {IT_UNKNOWN, IT_UNUSED} \<or>
     instruction_type d \<in> {IT_JUMP, IT_RETURN, IT_GENERIC} \<and> sz < k \<and> k \<le> sz + opcode_need t \<and> operand_bytes d \<le> 12)"

definition opcode_leaf :: "nat \<Rightarrow> disasm \<Rightarrow> specific_opcode \<Rightarrow> byte \<Rightarrow> byte list \<Rightarrow> nat \<Rightarrow> (disasm \<times> nat) option" where
  "opcode_leaf m d sp b bs sz =
     (let d = ProcessOperands (d\<lparr>instruction_type := so_type sp\<rparr>) sp
      in if m \<noteq> 0xff then (if have_modrm d then ProcessModrm d (b # bs) sz else Some (d, sz + 1))
         else (if have_modrm d then ProcessModrm d bs (sz + 1) else Some (d, sz + 1)))"

definition table_index :: "opcode_table \<Rightarrow> byte \<Rightarrow> nat" where
  "table_index T b = drop_bit (ot_shift T) (unat b) AND ot_mask T"

lemma ProcessOpcode_Cons:
  assumes "t < 25"
  shows "ProcessOpcode x64 d (b # bs) t sz =
     (let T = s_ia32_opcode_map x64 ! t; c = table_index T b; e = ot_table T ! c
      in if c < ot_min_lim T \<or> c > ot_max_lim T then Some (d\<lparr>instruction_type := IT_UNKNOWN\<rparr>, sz)
         else if so_type (op_specific e) = IT_UNUSED then Some (d\<lparr>instruction_type := IT_UNUSED\<rparr>, sz)
         else if so_type (op_specific e) = IT_REFERENCE then ProcessOpcode x64 d bs (so_table_index (op_specific e)) (sz + 1)
         else opcode_leaf (ot_mask T) d (select_opcode d e) b bs sz)"
proof -
  have "\<not> (c < ot_min_lim T \<or> c > ot_max_lim T) \<Longrightarrow> \<not> length (ot_table T) \<le> c" if "T = s_ia32_opcode_map x64 ! t" for T c
    using table_okI [OF assms, of x64] by (simp add: table_ok_def that)
  then show ?thesis
    using assms unfolding ProcessOpcode.simps Let_def table_index_def opcode_leaf_def ProcessOperands_def map_length
    by (simp only: if_False not_le [symmetric] simp_thms cong: if_cong)
qed

lemma table_entry_ok:
  assumes "t < 25" "\<not> table_index (s_ia32_opcode_map x64 ! t) b > ot_max_lim (s_ia32_opcode_map x64 ! t)"
  shows "opcode_ok t (ot_table (s_ia32_opcode_map x64 ! t) ! table_index (s_ia32_opcode_map x64 ! t) b)"
  using table_okI [OF assms(1), of x64] assms(2) by (simp add: table_ok_def list_all_length)


lemma leaf_bounds:
  assumes sp: "specific_ok sp" and d: "operand_bytes d = 0" "\<not> have_modrm d"
    and len: "opcode_need t \<le> length (b # bs)" and mask: "2 \<le> t \<Longrightarrow> m \<noteq> 0xff"
  shows "wpo (opcode_leaf m d sp b bs sz) (opcode_result t sz)"
proof -
  define d' where "d' = ProcessOperands (d\<lparr>instruction_type := so_type sp\<rparr>) sp"
  have b: "operand_bytes d' \<le> imm_max sp" "have_modrm d' \<longleftrightarrow> uses_modrm sp"
    unfolding d'_def using d by (simp_all add: ProcessOperands_bounds)
  have ty: "instruction_type d' = so_type sp"
    by (simp add: d'_def ProcessOperands_def)
  have l2: "2 \<le> length (b # bs)" and l3: "m = 0xff \<Longrightarrow> 2 \<le> length bs \<and> 3 \<le> opcode_need t"
    using len mask by (auto simp: opcode_need_def split: if_splits)
  have n: "2 \<le> opcode_need t" by (simp add: opcode_need_def)
  show ?thesis
  proof (cases "have_modrm d'")
    case False
    then show ?thesis unfolding opcode_leaf_def d'_def [symmetric] Let_def
      using sp b ty n by (auto simp: opcode_result_def specific_ok_def)
  next
    case True
    then have b4: "operand_bytes d' \<le> 4" using sp b by (simp add: specific_ok_def)
    have res: "opcode_result t sz r"
      if "case r of (d2, k) \<Rightarrow> instruction_type d2 = instruction_type d' \<and> operand_bytes d2 \<le> operand_bytes d' + 8 \<and>
            n + 1 \<le> k \<and> k \<le> n + 2" "sz \<le> n" "n + 2 \<le> sz + opcode_need t" for r n
      using that b4 sp ty by (auto simp: opcode_result_def specific_ok_def)
    show ?thesis
    proof (cases "m = 0xff")
      case m: True
      have "wpo (ProcessModrm d' bs (sz + 1)) (opcode_result t sz)"
        by (rule wpo_conseq [OF ProcessModrm_bounds]) (use l3 [OF m] in \<open>auto intro: res [where n = "sz + 1"]\<close>)
      then show ?thesis unfolding opcode_leaf_def d'_def [symmetric] Let_def using True m by simp
    next
      case m: False
      have "wpo (ProcessModrm d' (b # bs) sz) (opcode_result t sz)"
        by (rule wpo_conseq [OF ProcessModrm_bounds]) (use l2 n in \<open>auto intro: res [where n = sz]\<close>)
      then show ?thesis unfolding opcode_leaf_def d'_def [symmetric] Let_def using True m by simp
    qed
  qed
qed

lemma ProcessOpcode_bounds:
  assumes "t < 25" "opcode_need t \<le> length bs" "operand_bytes d = 0" "\<not> have_modrm d"
    "t = 0 \<Longrightarrow> \<not> is_prefix_byte x64 (hd bs)"
  shows "wpo (ProcessOpcode x64 d bs t sz) (opcode_result t sz)"
  using assms
proof (induction bs arbitrary: t sz)
  case Nil
  then show ?case by (simp add: opcode_need_def split: if_splits)
next
  case (Cons b bs)
  note t = Cons.prems(1)
  define T where "T = s_ia32_opcode_map x64 ! t"
  define e where "e = ot_table T ! table_index T b"
  note eq = ProcessOpcode_Cons [OF t, of x64 d b bs sz, folded T_def, unfolded Let_def, folded e_def]
  consider (out) "table_index T b < ot_min_lim T \<or> table_index T b > ot_max_lim T"
    | (entry) "\<not> (table_index T b < ot_min_lim T \<or> table_index T b > ot_max_lim T)" "opcode_ok t e"
    unfolding T_def e_def using table_entry_ok [OF t] by blast
  then show ?case
  proof cases
    case out
    then show ?thesis unfolding eq by (simp add: opcode_result_def)
  next
    case entry
    have first: "t = 0 \<Longrightarrow> e = s_first_opcode_byte x64 ! unat b"
      using first_table_lookup [of x64 b] by (simp add: e_def T_def table_index_def)
    define i where "i = so_table_index (op_specific e)"
    have ref: "wpo (ProcessOpcode x64 d bs i (sz + 1)) (opcode_result t sz)" if r: "so_type (op_specific e) = IT_REFERENCE"
    proof -
      have i: "i < 25" "opcode_need i < opcode_need t" "i \<noteq> 0"
        using entry r by (auto simp: opcode_ok_def i_def opcode_need_def is_prefix_type_def Let_def split: if_splits)
      have "wpo (ProcessOpcode x64 d bs i (sz + 1)) (opcode_result i (sz + 1))"
        by (rule Cons.IH) (use i Cons.prems in auto)
      then show ?thesis
        by (rule wpo_conseq) (use i(2) in \<open>auto simp: opcode_result_def\<close>)
    qed
    have leaf: "wpo (opcode_leaf (ot_mask T) d (select_opcode d e) b bs sz) (opcode_result t sz)"
      if l: "so_type (op_specific e) \<notin> {IT_UNUSED, IT_REFERENCE}"
    proof (rule leaf_bounds [OF _ Cons.prems(3,4,2)])
      have "\<not> is_prefix_type (so_type (op_specific e))"
      proof (cases "t = 0")
        case True
        then show ?thesis using Cons.prems(5) first by (simp add: is_prefix_byte_def)
      next
        case False
        then show ?thesis using entry l by (simp add: opcode_ok_def Let_def split: if_splits)
      qed
      then show "specific_ok (select_opcode d e)" using entry l by (intro select_opcode_ok)
      show "2 \<le> t \<Longrightarrow> ot_mask T \<noteq> 0xff" using table_okI [OF t] by (simp add: table_ok_def T_def)
    qed
    show ?thesis
      using entry ref leaf unfolding eq i_def by (simp add: opcode_result_def)
  qed
qed

section \<open>Prefixes\<close>

definition prefixes :: "bool \<Rightarrow> byte list \<Rightarrow> byte list" where
  "prefixes x64 bs = takeWhile (is_prefix_byte x64) bs"

definition prefix_type :: "bool \<Rightarrow> byte \<Rightarrow> InstructionType" where
  "prefix_type x64 b = so_type (op_specific (s_first_opcode_byte x64 ! unat b))"

definition prefix_step :: "bool \<Rightarrow> disasm \<Rightarrow> byte \<Rightarrow> disasm" where
  "prefix_step x64 d b =
     (let t = prefix_type x64 b;
          d = (if t = IT_PREFIX_ADDRESS then d\<lparr>address_is_32_bits := \<not> address_default_is_32_bits d\<rparr>
               else if t = IT_PREFIX_OPERAND then d\<lparr>operand_is_32_bits := \<not> operand_default_is_32_bits d\<rparr> else d)
      in if b = 0xF2 then d\<lparr>got_f2_prefix := True\<rparr>
         else if b = 0xF3 then d\<lparr>got_f3_prefix := True\<rparr>
         else if b = 0x66 then d\<lparr>got_66_prefix := True\<rparr>
         else if operand_default_support_64_bits d \<and> b AND 0x48 \<noteq> 0 then d\<lparr>operand_is_64_bits := True\<rparr>
         else d)"

lemma ProcessPrefixes_Cons:
  "ProcessPrefixes x64 d (b # bs) sz =
     (if is_prefix_byte x64 b
      then (case ProcessPrefixes x64 (prefix_step x64 d b) bs (sz + 1) of None \<Rightarrow> None
            | Some (_, d, sz) \<Rightarrow> Some (prefix_type x64 b, d, sz))
      else Some (IT_GENERIC, d, sz))"
  by (simp only: ProcessPrefixes.simps prefix_step_def prefix_type_def is_prefix_byte_def is_prefix_type_def Let_def)

lemma prefix_step_keeps [simp]:
  "operand_bytes (prefix_step x64 d b) = operand_bytes d" "have_modrm (prefix_step x64 d b) = have_modrm d"
  "operand_default_is_32_bits (prefix_step x64 d b) = operand_default_is_32_bits d"
  "address_default_is_32_bits (prefix_step x64 d b) = address_default_is_32_bits d"
  by (simp_all add: prefix_step_def Let_def)

lemma prefix_type_known: "is_prefix_byte x64 b \<Longrightarrow> prefix_type x64 b \<noteq> IT_UNKNOWN"
  by (auto simp: is_prefix_byte_def is_prefix_type_def prefix_type_def)

lemma ProcessPrefixes_spec:
  assumes "prefixes x64 bs \<noteq> bs"
  shows "wpo (ProcessPrefixes x64 d bs sz) (\<lambda>(t, d', n). t \<noteq> IT_UNKNOWN \<and> n = sz + length (prefixes x64 bs) \<and>
     operand_bytes d' = operand_bytes d \<and> have_modrm d' = have_modrm d)"
  using assms
proof (induction bs arbitrary: d sz)
  case Nil
  then show ?case by (simp add: prefixes_def)
next
  case (Cons b bs)
  show ?case
  proof (cases "is_prefix_byte x64 b")
    case False
    then show ?thesis by (simp add: ProcessPrefixes_Cons prefixes_def del: ProcessPrefixes.simps)
  next
    case True
    then have "prefixes x64 bs \<noteq> bs" using Cons.prems by (simp add: prefixes_def)
    from Cons.IH [OF this, of "prefix_step x64 d b" "sz + 1"] show ?thesis
      using True prefix_type_known [OF True]
      by (auto simp: ProcessPrefixes_Cons prefixes_def simp del: ProcessPrefixes.simps elim!: wpoE)
  qed
qed

lemma prefixes_next:
  assumes "prefixes x64 bs \<noteq> bs"
  shows "\<not> is_prefix_byte x64 (hd (drop (length (prefixes x64 bs)) bs))"
  using assms hd_dropWhile [of "is_prefix_byte x64" bs]
  by (metis dropWhile_eq_drop dropWhile_eq_Nil_conv prefixes_def takeWhile_eq_all_conv)

section \<open>Reuse of a disassembler\<close>

definition defaults :: "disasm \<Rightarrow> bool \<times> bool" where
  "defaults d = (operand_default_is_32_bits d, address_default_is_32_bits d)"

lemma ProcessPrefixes_defaults: "ProcessPrefixes x64 d bs sz = Some (t, d', n) \<Longrightarrow> defaults d' = defaults d"
proof (induction bs arbitrary: d sz t d' n)
  case (Cons b bs)
  then show ?case
    by (auto simp: ProcessPrefixes_Cons defaults_def simp del: ProcessPrefixes.simps split: if_splits option.splits dest!: Cons.IH)
qed simp

lemma ProcessModrm_defaults: "ProcessModrm d bs sz = Some (d', n) \<Longrightarrow> defaults d' = defaults d"
  by (auto simp: ProcessModrm_def ProcessSib_def Let_def defaults_def split: if_splits list.splits)

lemma opcode_leaf_defaults: "opcode_leaf m d sp b bs sz = Some (d', n) \<Longrightarrow> defaults d' = defaults d"
  by (auto simp: opcode_leaf_def ProcessOperands_def Let_def split: if_splits dest!: ProcessModrm_defaults)
    (auto simp: defaults_def)

lemma reference_index:
  assumes "t < 25" "\<not> ot_max_lim (s_ia32_opcode_map x64 ! t) < table_index (s_ia32_opcode_map x64 ! t) b"
    "so_type (op_specific (ot_table (s_ia32_opcode_map x64 ! t) ! table_index (s_ia32_opcode_map x64 ! t) b)) = IT_REFERENCE"
  shows "so_table_index (op_specific (ot_table (s_ia32_opcode_map x64 ! t) ! table_index (s_ia32_opcode_map x64 ! t) b)) < 25"
  using table_entry_ok [OF assms(1,2)] assms(3) by (auto simp: opcode_ok_def Let_def split: if_splits)

lemma defaults_type [simp]: "defaults (d\<lparr>instruction_type := t\<rparr>) = defaults d"
  by (simp add: defaults_def)

lemma ProcessOpcode_defaults: "t < 25 \<Longrightarrow> ProcessOpcode x64 d bs t sz = Some (d', n) \<Longrightarrow> defaults d' = defaults d"
proof (induction bs arbitrary: t sz)
  case (Cons b bs)
  show ?case
    using Cons.prems(2) unfolding ProcessOpcode_Cons [OF Cons.prems(1)] Let_def
    by (auto dest: opcode_leaf_defaults Cons.IH [OF reference_index [OF Cons.prems(1)]] split: if_splits)
qed simp

lemma Disassemble_defaults: "Disassemble x64 d bs k = Some (t, n, d') \<Longrightarrow> defaults d' = defaults d"
  by (auto simp: Disassemble_def disasm_Initialize_def split: option.splits if_splits
      dest!: ProcessPrefixes_defaults ProcessOpcode_defaults [rotated]) (auto simp: defaults_def)

lemma Initialize_defaults:
  "disasm_Initialize x64 d = new_disasm x64 (operand_default_is_32_bits d) (address_default_is_32_bits d)"
  by (simp add: disasm_Initialize_def new_disasm_def)

lemma Initialize_cong: "defaults d = defaults d' \<Longrightarrow> disasm_Initialize x64 d = disasm_Initialize x64 d'"
  by (simp add: Initialize_defaults defaults_def)

section \<open>Displacements\<close>

definition manual_disp :: "bool \<Rightarrow> nat \<Rightarrow> nat \<Rightarrow> nat \<Rightarrow> nat" where
  "manual_disp address32 md rm base =
     (if md = 0 then (if address32 then (if rm = 5 \<or> rm = 4 \<and> base = 5 then 4 else 0) else (if rm = 6 then 2 else 0))
      else if md = 1 then 1
      else if md = 2 then (if address32 then 4 else 2)
      else 0)"

definition manual_sib :: "bool \<Rightarrow> nat \<Rightarrow> nat \<Rightarrow> bool" where
  "manual_sib address32 md rm \<longleftrightarrow> address32 \<and> rm = 4 \<and> md \<noteq> 3"

definition entry_manual :: "bool \<Rightarrow> nat \<Rightarrow> nat \<Rightarrow> nat \<Rightarrow> modrm_entry \<Rightarrow> bool" where
  "entry_manual a base md rm e \<longleftrightarrow>
     (if me_is_encoded_in_instruction e then me_operand_size e else 0) =
       (if manual_sib a md rm \<and> md = 0 then 0 else manual_disp a md rm base) \<and> me_use_sib_byte e = manual_sib a md rm"

lemma modrm_maps_manual:
  "list_all (\<lambda>(md, rm). entry_manual True 0 md rm (s_ia32_modrm_map ! (8 * md + rm))) (List.product [0..<4] [0..<8])"
  "list_all (\<lambda>(md, rm). entry_manual False 0 md rm (s_ia16_modrm_map ! (8 * md + rm))) (List.product [0..<4] [0..<8])"
  by code_simp+

lemma modrm_entry_manual:
  assumes "md < 4" "rm < 8"
  shows "entry_manual a base md rm ((if a then s_ia32_modrm_map else s_ia16_modrm_map) ! (8 * md + rm))"
proof -
  have "(md, rm) \<in> set (List.product [0..<4] [0..<8])" using assms by simp
  then have "entry_manual a 0 md rm ((if a then s_ia32_modrm_map else s_ia16_modrm_map) ! (8 * md + rm))"
    using modrm_maps_manual unfolding list_all_iff by (cases a) (auto simp del: set_product)
  then show ?thesis by (auto simp: entry_manual_def manual_sib_def manual_disp_def)
qed

lemma ProcessModrm_manual:
  assumes d: "should_decode_modrm d"
  defines "md b \<equiv> unat (drop_bit 6 (b :: byte))" and "rm b \<equiv> unat ((b :: byte) AND 7)"
  shows "ProcessModrm d (b # s # bs) sz = Some
    (d\<lparr>operand_bytes := operand_bytes d + manual_disp (address_is_32_bits d) (md b) (rm b) (rm s) +
        (if manual_sib (address_is_32_bits d) (md b) (rm b) \<and> md b \<noteq> 0 \<and> rm s = 5
         then manual_disp (address_is_32_bits d) (md b) (rm b) (rm s) else 0)\<rparr>,
     sz + 1 + (if manual_sib (address_is_32_bits d) (md b) (rm b) then 1 else 0))"
proof -
  have b: "md b < 4" "rm b < 8" using mod_rm_bounds [of b] by (simp_all add: md_def rm_def)
  define e where "e = modrm_entry_of d b"
  define d1 where "d1 = (if me_is_encoded_in_instruction e then d\<lparr>operand_bytes := operand_bytes d + me_operand_size e\<rparr> else d)"
  have "entry_manual (address_is_32_bits d) base (md b) (rm b) e" for base
    using modrm_entry_manual [OF b] by (simp only: e_def modrm_entry_of_def md_def rm_def)
  note e = this [unfolded entry_manual_def]
  have "d1 = d\<lparr>operand_bytes := operand_bytes d + (if me_is_encoded_in_instruction e then me_operand_size e else 0)\<rparr>"
    by (simp add: d1_def)
  note d1 = this [unfolded conjunct1 [OF e [of "rm s"]]]
  have s5: "s AND 7 = 5 \<longleftrightarrow> rm s = 5"
    by (simp add: rm_def word_unat_eq_iff)
  have "ProcessModrm d (b # s # bs) sz = (if me_use_sib_byte e then ProcessSib d1 (s # bs) (md b) (sz + 1) else Some (d1, sz + 1))"
    by (simp add: ProcessModrm_decode [OF d] e_def d1_def md_def Let_def)
  also have "\<dots> = Some
    (d\<lparr>operand_bytes := operand_bytes d + manual_disp (address_is_32_bits d) (md b) (rm b) (rm s) +
        (if manual_sib (address_is_32_bits d) (md b) (rm b) \<and> md b \<noteq> 0 \<and> rm s = 5
         then manual_disp (address_is_32_bits d) (md b) (rm b) (rm s) else 0)\<rparr>,
     sz + 1 + (if manual_sib (address_is_32_bits d) (md b) (rm b) then 1 else 0))"
  proof (cases "manual_sib (address_is_32_bits d) (md b) (rm b)")
    case False
    then show ?thesis using conjunct2 [OF e] by (simp add: d1)
  next
    case True
    then have "md b = 0 \<or> md b = 1 \<or> md b = 2" "rm b = 4" "address_is_32_bits d" using b by (auto simp: manual_sib_def)
    then show ?thesis
      using conjunct2 [OF e] by (elim disjE) (simp_all add: d1 ProcessSib_def s5 manual_sib_def manual_disp_def disasm_consts)
  qed
  finally show ?thesis .
qed

section \<open>Locality\<close>

lemma ProcessPrefixes_append:
  "ProcessPrefixes x64 d bs sz = Some r \<Longrightarrow> ProcessPrefixes x64 d (bs @ xs) sz = Some r"
proof (induction bs arbitrary: d sz r)
  case (Cons b bs)
  then show ?case
    by (auto simp: ProcessPrefixes_Cons simp del: ProcessPrefixes.simps split: if_splits option.splits dest!: Cons.IH)
qed simp

lemma ProcessSib_append: "ProcessSib d bs md sz = Some r \<Longrightarrow> ProcessSib d (bs @ xs) md sz = Some r"
  by (cases bs) (simp_all add: ProcessSib_def)

lemma ProcessModrm_append: "ProcessModrm d bs sz = Some r \<Longrightarrow> ProcessModrm d (bs @ xs) sz = Some r"
proof (cases "should_decode_modrm d")
  case False
  then show "ProcessModrm d bs sz = Some r \<Longrightarrow> ?thesis" by (simp add: ProcessModrm_def)
next
  case True
  then show "ProcessModrm d bs sz = Some r \<Longrightarrow> ?thesis"
    by (cases bs) (simp add: ProcessModrm_def, auto simp: ProcessModrm_decode Let_def intro: ProcessSib_append split: if_splits)
qed

lemma opcode_leaf_append: "opcode_leaf m d sp b bs sz = Some r \<Longrightarrow> opcode_leaf m d sp b (bs @ xs) sz = Some r"
  using ProcessModrm_append [of _ "b # bs"]
  by (auto simp: opcode_leaf_def Let_def split: if_splits intro: ProcessModrm_append)

lemma ProcessOpcode_append:
  "t < 25 \<Longrightarrow> ProcessOpcode x64 d bs t sz = Some r \<Longrightarrow> ProcessOpcode x64 d (bs @ xs) t sz = Some r"
proof (induction bs arbitrary: t sz)
  case (Cons b bs)
  show ?case
    using Cons.prems(2) unfolding ProcessOpcode_Cons [OF Cons.prems(1)] append_Cons Let_def
    by (auto dest: opcode_leaf_append Cons.IH [OF reference_index [OF Cons.prems(1)]] split: if_splits)
qed simp

section \<open>Properties\<close>

text \<open>
  C28. The opcode tables are well formed for both targets: there are 25 of them, the largest index a table accepts is
  an index of its array, every reference names an existing table of a higher rank (so that a search ends after at most
  three tables), prefixes occur in the first table only, the continuation tables share their byte with the ModR/M byte,
  every other entry and every alternative for a prefix is a jump, a return, a generic or an unknown instruction, and
  its immediate operands take at most 8 bytes, or 4 when it has a ModR/M byte.  The two ModR/M tables have all 32 entries.\<close>
theorem opcode_tables_well_formed:
  "length (s_ia32_opcode_map x64) = 25 \<and> list_all (\<lambda>(t, T). table_ok t T) (enumerate 0 (s_ia32_opcode_map x64)) \<and>
   length s_ia32_modrm_map = 32 \<and> length s_ia16_modrm_map = 32"
  by (simp only: map_length tables_ok modrm_map_length simp_thms)



text \<open>
  C29. A disassembler that was used before answers every later call exactly as a new one with the same default sizes:
  the postcondition that src/windows/mini\_disassembler.h states for Disassemble.\<close>
theorem Disassemble_reuse:
  assumes "Disassemble x64 (new_disasm x64 operand32 address32) bs k = Some (t, n, d)"
  shows "Disassemble x64 d bs' k' = Disassemble x64 (new_disasm x64 operand32 address32) bs' k'"
  using Initialize_cong [OF Disassemble_defaults [OF assms]] by (simp add: Disassemble_def)

theorem Disassemble_reuse_witness:
  "\<exists>t n d. Disassemble False (new_disasm False True True) [0x66, 0xB8, 0, 0] 0 = Some (t, n, d) \<and>
     Disassemble False d [0xB8, 0, 0, 0, 0] 0 = Disassemble False (new_disasm False True True) [0xB8, 0, 0, 0, 0] 0"
proof -
  have "Disassemble False (new_disasm False True True) [0x66, 0xB8, 0, 0] 0 \<noteq> None" by code_simp
  then obtain t n d where "Disassemble False (new_disasm False True True) [0x66, 0xB8, 0, 0] 0 = Some (t, n, d)" by auto
  then show ?thesis using Disassemble_reuse by blast
qed

text \<open>
  C30. The answer for an instruction does not depend on the bytes that follow it: once a call succeeds on some bytes, it
  gives the same answer when more bytes follow.\<close>
theorem Disassemble_append:
  assumes "Disassemble x64 d bs k = Some r"
  shows "Disassemble x64 d (bs @ xs) k = Some r"
proof -
  obtain t d1 n where p: "ProcessPrefixes x64 (disasm_Initialize x64 d) bs 0 = Some (t, d1, n)"
    using assms by (auto simp: Disassemble_def split: option.splits)
  note p' = ProcessPrefixes_append [OF p, of xs]
  show ?thesis
  proof (cases "t = IT_UNKNOWN")
    case True
    then show ?thesis using assms by (simp add: Disassemble_def p p')
  next
    case False
    then obtain s where o: "ProcessOpcode x64 d1 (drop n bs) 0 0 = Some s"
      using assms by (auto simp: Disassemble_def p split: option.splits)
    then have "drop n bs \<noteq> []" by auto
    then have "drop n (bs @ xs) = drop n bs @ xs" by simp
    with ProcessOpcode_append [OF _ o, of xs] show ?thesis
      using assms False by (simp add: Disassemble_def p p' o)
  qed
qed

theorem Disassemble_append_witness:
  "Disassemble True (new_disasm True True True) ([0x55] @ [0xFF, 0xFF]) 0 =
     Disassemble True (new_disasm True True True) [0x55] 0"
proof -
  have "Disassemble True (new_disasm True True True) [0x55] 0 \<noteq> None" by code_simp
  then obtain r where r: "Disassemble True (new_disasm True True True) [0x55] 0 = Some r" by auto
  show ?thesis using Disassemble_append [OF r, of "[0xFF, 0xFF]"] r by simp
qed

text \<open>
  C31. For a ModR/M byte that is decoded, the size of the displacement and the presence of a SIB byte are those of the
  tables of the IA-32 manual, for 16-bit and for 32-bit addresses, unless a SIB byte with base 101 comes with mod 01 or 10.\<close>
theorem ProcessModrm_matches_manual:
  assumes "should_decode_modrm d"
    and "\<not> (manual_sib (address_is_32_bits d) (unat (drop_bit 6 b)) (unat (b AND 7)) \<and> unat (drop_bit 6 b) \<noteq> 0 \<and> unat (s AND 7) = 5)"
  shows "ProcessModrm d (b # s # bs) sz = Some
    (d\<lparr>operand_bytes := operand_bytes d +
         manual_disp (address_is_32_bits d) (unat (drop_bit 6 b)) (unat (b AND 7)) (unat (s AND 7))\<rparr>,
     sz + 1 + (if manual_sib (address_is_32_bits d) (unat (drop_bit 6 b)) (unat (b AND 7)) then 1 else 0))"
  using ProcessModrm_manual [OF assms(1), of b s bs sz] assms(2) by (simp only: simp_thms if_False add_0_right)

theorem ProcessModrm_matches_manual_witness:
  "let d = (new_disasm True True True)\<lparr>should_decode_modrm := True\<rparr>
   in ProcessModrm d [0x44, 0x24] 0 = Some (d\<lparr>operand_bytes := 1\<rparr>, 2)"
proof -
  let ?d = "(new_disasm True True True)\<lparr>should_decode_modrm := True\<rparr>"
  have d: "should_decode_modrm ?d" "address_is_32_bits (new_disasm True True True)" "operand_bytes (new_disasm True True True) = 0" by code_simp+
  have b: "unat (drop_bit 6 (0x44 :: byte)) = 1" "unat ((0x44 :: byte) AND 7) = 4" "unat ((0x24 :: byte) AND 7) = 4"
    by code_simp+
  show ?thesis
    using ProcessModrm_matches_manual [OF d(1), of "0x44" "0x24" "[]" 0] unfolding b
    by (simp add: d manual_sib_def manual_disp_def Let_def numeral_2_eq_2)
qed

text \<open>
  C32. In the remaining case (32-bit addresses, a SIB byte with base 101 and mod 01 or 10) the displacement is counted
  twice: once from the table for the ModR/M byte and once in ProcessSib.  The reported length is then 1 or 4 bytes too large.\<close>
theorem ProcessModrm_displacement_twice:
  assumes "should_decode_modrm d" "manual_sib (address_is_32_bits d) (unat (drop_bit 6 b)) (unat (b AND 7))"
    "unat (drop_bit 6 b) \<noteq> 0" "unat (s AND 7) = 5"
  shows "ProcessModrm d (b # s # bs) sz = Some
    (d\<lparr>operand_bytes := operand_bytes d +
         2 * manual_disp (address_is_32_bits d) (unat (drop_bit 6 b)) (unat (b AND 7)) (unat (s AND 7))\<rparr>, sz + 2)"
  using ProcessModrm_manual [OF assms(1), of b s bs sz] assms(2-4) by (simp add: mult_2 add.assoc)

theorem ProcessModrm_displacement_twice_witness:
  "let d = (new_disasm True True True)\<lparr>should_decode_modrm := True\<rparr>
   in ProcessModrm d [0x44, 0x2D, 0x10] 0 = Some (d\<lparr>operand_bytes := 2\<rparr>, 2)"
proof -
  let ?d = "(new_disasm True True True)\<lparr>should_decode_modrm := True\<rparr>"
  have d: "should_decode_modrm ?d" "address_is_32_bits (new_disasm True True True)" "operand_bytes (new_disasm True True True) = 0" by code_simp+
  have b: "unat (drop_bit 6 (0x44 :: byte)) = 1" "unat ((0x44 :: byte) AND 7) = 4" "unat ((0x2D :: byte) AND 7) = 5"
    by code_simp+
  show ?thesis
    using ProcessModrm_displacement_twice [OF d(1), of "0x44" "0x2D" "[0x10]" 0] unfolding b
    by (simp add: d manual_sib_def manual_disp_def Let_def numeral_2_eq_2)
qed



end
