(* ===== verification/Spec2Isabelle.thy ===== *)
theory Spec2Isabelle
  imports SizeMapDefault CentralFreeList DisasmInv
begin

text \<open>
  A verification library for gperftools (directory src/src of the repository).

  \<^bold>\<open>The program.\<close>  The central part is tcmalloc, a memory allocator in layers.  The operating system provides
  memory (system-alloc.cc).  The metadata allocators (common.cc, page\_heap\_allocator.h) turn it into the allocator's own objects.  The page
  heap (page\_heap.cc) hands out spans, runs of pages, and finds the span of a page through the page map (pagemap.h) and the
  class of a page through a packed cache (packed-cache-inl.h).  Objects of a size class (common.cc) are kept in singly linked
  lists (linked\_list.h).  A second part patches the allocation functions of a running Windows process; it decodes the
  machine code at the start of a function with a table-driven disassembler (windows/mini\_disassembler.cc).

  \<^bold>\<open>Conventions.\<close>  A call of the code is a value of an option type: \<^term>\<open>None\<close> stands for a failed check, an
  access out of bounds, a null or dead pointer, or a loop that does not end.  Statements of the form \<open>wpo m Q\<close> say that
  the call comes back with a result in \<open>Q\<close>.  Words are natural numbers with the wrap-around written out, or values of
  type \<open>word\<close> where the code works bitwise.  The configuration is the default for 64-bit Linux: pages of 8 KiB, a
  minimum alignment of 16 bytes, addresses of 48 bits.

  \<^bold>\<open>The theories.\<close>

  \<^item> \<open>Prelude\<close>: the predicates \<open>wpo\<close> and \<open>wpf\<close>, words as numbers, rounding to powers of two.

  \<^item> \<open>SizeMap\<close>, \<open>SizeMapDefault\<close>: class SizeMap of common.h and common.cc.  \<open>SizeMap_Init\<close> is the whole of
  \<^verbatim>\<open>SizeMap::Init\<close>.  The lemmas show that a size is served by the smallest class that fits, that a span wastes at most an
  eighth, that natural alignment is kept, and that the default configuration initialises to its 85 classes.

  \<^item> \<open>LinkedList\<close>: the functions of linked\_list.h on a memory of words; they behave like lists.

  \<^item> \<open>PackedCache\<close>: class PackedCache; a lookup gives the value last put, and the cache stays coherent with the page table.

  \<^item> \<open>PageMap\<close>: the three page maps of pagemap.h.  The radix trees implement a map, through the locale \<open>page_map\<close>.

  \<^item> \<open>SystemAlloc\<close>: the sbrk, mmap and default allocators and the release of pages.  The operating system is a record of
  functions; \<open>os_sane\<close> states what the code relies on.  Returned memory is aligned, large enough and new.

  \<^item> \<open>MetaAlloc\<close>: \<^verbatim>\<open>MetaDataAlloc\<close> and the template PageHeapAllocator; live objects never overlap.

  \<^item> \<open>Span\<close>: descriptors, the order of span sets, and the doubly linked lists at the level of pointers, which refine lists.

  \<^item> \<open>PageHeap\<close>: every operation of class PageHeap.  \<open>HeapInv\<close>: the invariant that ties the spans, the page map, the free
  lists and the statistics together.  \<open>HeapMerge\<close>, \<open>HeapFree\<close>: list operations, decommit and coalescing.
  \<open>HeapRelease\<close>: releasing memory and \<^verbatim>\<open>Delete\<close>.  \<open>HeapAlloc\<close>: splitting, carving and the searches.  \<open>HeapGrow\<close>: growing the
  heap and handing out spans.  \<open>HeapServe\<close>: the contract of a source of spans (locale \<open>span_source\<close>), of which the page
  heap is an instance, and the properties: spans handed out never overlap, every call ends, \<^verbatim>\<open>Delete\<close> is exact, a search
  finds a free span that is long enough, releases make progress, and the heap's own check passes.

  \<^item> \<open>CentralFreeList\<close>: the central free lists of central\_freelist.cc on top of the page heap: the spans of every size class and
  the transfer cache.

  \<^item> \<open>OpcodeMap\<close>, \<open>Disassembler\<close>, \<open>DisasmInv\<close>: the opcode tables entry by entry, the decoder, and the proof that it stays
  inside the tables, ends, and reports bounded lengths, with the cases in which the length differs from the manual.

  \<^bold>\<open>Bounds.\<close>  No model uses fuel: loops are structural, have a termination proof, or are partial functions in
  the option type, for which termination is proved where it is claimed.  The model of the operating system that the
  witnesses use serves memory below \<open>2 ^ 43\<close>.  The theorems on the page heap assume that the process owns fewer than
  \<open>2 ^ 44\<close> bytes, because lengths pass through an \<^verbatim>\<open>int\<close> of 32 bits in the code.

  \<^bold>\<open>Not modelled.\<close>  Thread caches and the entry points of tcmalloc.cc, the debug allocator,
  the sampler (floating point), the profilers, stack traces and symbols (signal handlers, files and machine stacks), hooks
  and logging, and the patching itself (the Windows API).  Locks are not modelled: operations are atomic steps.
\<close>

end
